(* ===== verification/Prelude.thy ===== *)
theory Prelude
  imports Main "HOL-Library.Multiset" "HOL-Library.Product_Lexorder"
begin

text \<open>
  Shared vocabulary of the development: the names of the model's basic types, the
  collections of rewrite rules the component theories extend, a combinator for
  sequencing fallible results, and generic facts on lists, filters and options that
  the proofs about the expense store, the sync engine and the monthly report all use.
\<close>

section \<open>Basic types\<close>

text \<open>
  A MongoDB \<open>ObjectId\<close> is an opaque identifier; only equality and freshness matter,
  so it is a natural number. A JavaScript \<open>Date\<close> is a count of milliseconds since
  1970-01-01T00:00:00Z. Amounts are JavaScript numbers, modelled as integers (whole
  currency units or minor units); see the header of the root theory.
\<close>

type_synonym oid = nat
type_synonym millis = int

text \<open>
  \<open>Date.parse\<close> on strings is implementation-defined beyond the ISO-8601 subset, so
  the string parser of the JavaScript engine is a parameter of every operation that
  builds a \<open>Date\<close> from a value; \<open>None\<close> is \<open>NaN\<close>.
\<close>

type_synonym date_parser = "string \<Rightarrow> millis option"

section \<open>Rule collections\<close>

named_theorems js_simps \<open>evaluation rules for the JavaScript value layer\<close>
named_theorems store_simps \<open>evaluation rules for the storage layer\<close>

section \<open>Sequencing fallible results\<close>

text \<open>
  The first error of a list of results, or all the values: what \<open>Promise.all\<close> over
  validations that reject yields, read in list order.
\<close>

fun all_right :: "('e + 'a) list \<Rightarrow> 'e + 'a list" where
  "all_right [] = Inr []"
| "all_right (Inl e # xs) = Inl e"
| "all_right (Inr a # xs) = (case all_right xs of Inl e \<Rightarrow> Inl e | Inr as \<Rightarrow> Inr (a # as))"

section \<open>Lists and filters\<close>

lemma filter_partition_mset:
  "mset (filter P xs) + mset (filter (\<lambda>x. \<not> P x) xs) = mset xs"
  by (induction xs) auto

lemma filter_partition_length:
  "length (filter P xs) + length (filter (\<lambda>x. \<not> P x) xs) = length xs"
  by (induction xs) auto

lemma filter_all_False:
  "(\<forall>x \<in> set xs. \<not> P x) \<Longrightarrow> filter P xs = []"
  by (induction xs) auto

lemma distinct_map_snoc:
  "distinct (map f (xs @ [x])) \<longleftrightarrow> distinct (map f xs) \<and> f x \<notin> f ` set xs"
  by auto

lemma distinct_map_replace:
  assumes "distinct (map g xs)" "distinct (map f xs)" "f y \<notin> f ` {x \<in> set xs. g x \<noteq> a}"
  shows "distinct (map f (map (\<lambda>x. if g x = a then y else x) xs))"
  using assms by (induction xs) (auto simp: image_iff)

lemma map_replace_key: "g y = a \<Longrightarrow> map g (map (\<lambda>x. if g x = a then y else x) xs) = map g xs"
  by (induction xs) auto

lemma filter_eid_remove1: "distinct (map g xs) \<Longrightarrow> x \<in> set xs \<Longrightarrow> filter (\<lambda>y. g y \<noteq> g x) xs = remove1 x xs"
proof (induction xs)
  case (Cons a xs)
  show ?case
  proof (cases "a = x")
    case True
    with Cons.prems have "\<forall>y \<in> set xs. g y \<noteq> g x" by (auto simp: image_iff)
    with True show ?thesis by simp
  next
    case False
    with Cons.prems have "g a \<noteq> g x" by (auto simp: image_iff)
    with False Cons show ?thesis by simp
  qed
qed simp

lemma list_all_update_weaken: "list_all Q xs \<Longrightarrow> Q x \<Longrightarrow> list_all Q (xs[i := x])"
  by (auto simp: list_all_iff dest: set_update_subset_insert [THEN subsetD])

lemma in_set_update_other: "p \<in> set xs \<Longrightarrow> p \<noteq> xs ! i \<Longrightarrow> p \<in> set (xs[i := x])"
  by (metis in_set_conv_nth length_list_update nth_list_update_neq)

lemma sum_list_update:
  "i < length xs \<Longrightarrow> sum_list (map f (xs[i := x])) + f (xs ! i) = sum_list (map f xs) + (f x :: 'a :: comm_monoid_add)"
  by (induction xs arbitrary: i) (auto simp: add_ac split: nat.splits)

lemma set_mset_sum_list: "set_mset (sum_list (map f xs)) = (\<Union>x \<in> set xs. set_mset (f x))"
  by (induction xs) auto

lemma filter_key_unique:
  "distinct (map f xs) \<Longrightarrow> k \<in> f ` set xs \<Longrightarrow> length (filter (\<lambda>x. f x = k) xs) = 1"
  by (induction xs) (auto simp: filter_empty_conv image_iff)

lemma find_unique_key: "distinct (map f xs) \<Longrightarrow> x \<in> set xs \<Longrightarrow> find (\<lambda>y. f y = f x) xs = Some x"
  by (induction xs) (auto simp: image_iff)

lemma list_all2_map_eq: "list_all2 (\<lambda>x y. f x = g y) xs ys \<Longrightarrow> map f xs = map g ys"
  by (induction rule: list_all2_induct) auto

lemma those_None_iff: "those xs = None \<longleftrightarrow> None \<in> set xs"
  by (induction xs) (auto split: option.splits)

lemma all_right_Inr: "all_right xs = Inr ys \<Longrightarrow> xs = map Inr ys"
  by (induction xs arbitrary: ys rule: all_right.induct) (auto split: sum.splits)

lemma all_right_map_Inr [simp]: "all_right (map Inr ys) = Inr ys"
  by (induction ys) auto

lemma all_right_Inl: "all_right xs = Inl e \<Longrightarrow> Inl e \<in> set xs"
  by (induction xs rule: all_right.induct) (auto split: sum.splits)

lemma all_right_some_Inl: "Inl e \<in> set xs \<Longrightarrow> \<exists>e'. all_right xs = Inl e'"
  by (induction xs rule: all_right.induct) (auto split: sum.splits)

end
