(* ===== verification/Json.thy ===== *)
theory Json
  imports Prelude
begin

text \<open>
  The JavaScript values the request handlers of \<open>src/src/controllers\<close> manipulate:
  the JSON document \<open>express.json()\<close> makes of a request body (\<open>req.body\<close>, typed
  \<open>any\<close> in the source), with \<open>undefined\<close> for a missing property. On these values
  the theory defines the few JavaScript operations the handlers apply: property access
  (\<open>txn.timestamp\<close>), truthiness and \<open>||\<close> (\<open>txn.transactionType || "unknown"\<close>),
  \<open>Array.isArray\<close>, \<open>ToString\<close> (template literals), \<open>Number(string)\<close> and the
  one-argument \<open>new Date(v).getTime()\<close>, and it proves the round trip of the decimal
  printer and reader and the range bound of every \<open>Date\<close>.
\<close>

section \<open>Values\<close>

text \<open>
  Numbers are integers here (see the root theory's header). An object is the list of
  its members in source order; \<open>JSON.parse\<close> keeps the last of duplicated keys.
\<close>

datatype jval =
    JUndef
  | JNull
  | JBool bool
  | JNum int
  | JStr string
  | JArr "jval list"
  | JObj "(string \<times> jval) list"

section \<open>Property access, truthiness, \<open>||\<close>\<close>

text \<open>
  \<open>v.k\<close>: reading a property of \<open>undefined\<close> or \<open>null\<close> throws a \<open>TypeError\<close>
  (\<open>None\<close>); an object yields the member (the last one of that name) or
  \<open>undefined\<close>; the other primitives and arrays have none of the names the handlers
  read (\<open>timestamp\<close>, \<open>amount\<close>, \<open>sender\<close>, \<dots>), so they yield \<open>undefined\<close>.
\<close>

fun js_prop :: "jval \<Rightarrow> string \<Rightarrow> jval option" where
  "js_prop JUndef k = None"
| "js_prop JNull k = None"
| "js_prop (JObj kvs) k = Some (case map_of (rev kvs) k of None \<Rightarrow> JUndef | Some v \<Rightarrow> v)"
| "js_prop v k = Some JUndef"

fun truthy :: "jval \<Rightarrow> bool" where
  "truthy JUndef = False"
| "truthy JNull = False"
| "truthy (JBool b) = b"
| "truthy (JNum n) = (n \<noteq> 0)"
| "truthy (JStr s) = (s \<noteq> [])"
| "truthy (JArr xs) = True"
| "truthy (JObj kvs) = True"

text \<open>\<open>a || b\<close> returns \<open>a\<close> itself when it is truthy, else \<open>b\<close>.\<close>

definition js_or :: "jval \<Rightarrow> jval \<Rightarrow> jval" where
  "js_or a b = (if truthy a then a else b)"

fun is_array :: "jval \<Rightarrow> bool" where
  "is_array (JArr xs) = True"
| "is_array v = False"

section \<open>Decimal numerals\<close>

text \<open>
  \<open>Number.prototype.toString()\<close> of an integer below \<open>10^21\<close> prints its decimal
  digits with a leading \<open>-\<close> when negative; every integer the handlers print (counts,
  calendar years) is far below that bound.
\<close>

definition digit_char :: "nat \<Rightarrow> char" where
  "digit_char d = ''0123456789'' ! d"

fun show_nat :: "nat \<Rightarrow> string" where
  "show_nat n = (if n < 10 then [digit_char n] else show_nat (n div 10) @ [digit_char (n mod 10)])"

declare show_nat.simps [simp del]

definition show_int :: "int \<Rightarrow> string" where
  "show_int i = (if i < 0 then CHR ''-'' # show_nat (nat (- i)) else show_nat (nat i))"

text \<open>
  Reading decimal digits back: \<open>digit_val\<close> of a character, and the value of a digit
  string read left to right (an accumulator, as a hand-written parser does).
\<close>

definition digit_val :: "char \<Rightarrow> nat option" where
  "digit_val c = (let k = (of_char c :: nat) in if 48 \<le> k \<and> k \<le> 57 then Some (k - 48) else None)"

fun read_digits :: "nat \<Rightarrow> string \<Rightarrow> nat option" where
  "read_digits acc [] = Some acc"
| "read_digits acc (c # cs) =
     (case digit_val c of None \<Rightarrow> None | Some d \<Rightarrow> read_digits (10 * acc + d) cs)"

definition read_nat :: "string \<Rightarrow> nat option" where
  "read_nat s = (if s = [] then None else read_digits 0 s)"

text \<open>
  The white space \<open>String.prototype.trim\<close> and \<open>Number(s)\<close> strip, restricted to
  the 8-bit characters of the model: tab, line feed, vertical tab, form feed, carriage
  return, space and no-break space.
\<close>

definition js_space :: "char \<Rightarrow> bool" where
  "js_space c \<longleftrightarrow> of_char c \<in> {9, 10, 11, 12, 13, 32, 160 :: nat}"

definition js_trim :: "string \<Rightarrow> string" where
  "js_trim s = rev (dropWhile js_space (rev (dropWhile js_space s)))"

text \<open>
  \<open>Number(s)\<close> on a string, for the integer literals of the model: surrounding white
  space is ignored, the empty string is \<open>0\<close>, an optional sign precedes decimal
  digits; anything else (fractions, exponents, hex, text) is \<open>None\<close>.
\<close>

definition js_number_of_string :: "string \<Rightarrow> int option" where
  "js_number_of_string s =
     (let t = js_trim s in
      if t = [] then Some 0
      else case t of
        c # cs \<Rightarrow>
          if c = CHR ''-'' then map_option (\<lambda>n. - int n) (read_nat cs)
          else if c = CHR ''+'' then map_option int (read_nat cs)
          else map_option int (read_nat t))"

section \<open>ToString\<close>

text \<open>
  \<open>String(v)\<close>; \<open>Array.prototype.join\<close> prints \<open>null\<close> and \<open>undefined\<close>
  elements as the empty string.
\<close>

fun js_join :: "string list \<Rightarrow> string" where
  "js_join [] = []"
| "js_join [s] = s"
| "js_join (s # ss) = s @ '','' @ js_join ss"

fun js_to_string :: "jval \<Rightarrow> string" where
  "js_to_string JUndef = ''undefined''"
| "js_to_string JNull = ''null''"
| "js_to_string (JBool b) = (if b then ''true'' else ''false'')"
| "js_to_string (JNum n) = show_int n"
| "js_to_string (JStr s) = s"
| "js_to_string (JArr xs) =
     js_join (map (\<lambda>v. if v = JUndef \<or> v = JNull then [] else js_to_string v) xs)"
| "js_to_string (JObj kvs) = ''[object Object]''"

section \<open>\<open>new Date(v).getTime()\<close>\<close>

text \<open>
  ECMAScript's TimeClip: a time value outside \<open>\<plusminus>8.64 \<times> 10^15\<close> ms is \<open>NaN\<close>.
\<close>

definition max_time :: int where
  "max_time = 8640000000000000"

definition time_clip :: "int \<Rightarrow> millis option" where
  "time_clip t = (if \<bar>t\<bar> \<le> max_time then Some t else None)"

text \<open>
  The one-argument \<open>Date\<close> constructor: \<open>ToPrimitive\<close> first (arrays and objects
  become strings), then a string is parsed and anything else converted \<open>ToNumber\<close>
  (\<open>undefined\<close> is \<open>NaN\<close>, \<open>null\<close> is \<open>0\<close>, booleans are \<open>0\<close>/\<open>1\<close>), and the
  result is clipped.
\<close>

fun js_new_date :: "date_parser \<Rightarrow> jval \<Rightarrow> millis option" where
  "js_new_date P JUndef = None"
| "js_new_date P JNull = time_clip 0"
| "js_new_date P (JBool b) = time_clip (if b then 1 else 0)"
| "js_new_date P (JNum n) = time_clip n"
| "js_new_date P (JStr s) = Option.bind (P s) time_clip"
| "js_new_date P v = Option.bind (P (js_to_string v)) time_clip"

lemmas js_eval [js_simps] = js_or_def time_clip_def max_time_def

section \<open>Properties\<close>

lemma js_or_truthy [js_simps]: "truthy b \<Longrightarrow> truthy (js_or a b)"
  by (simp add: js_or_def)

lemma of_char_digit_char: "d < 10 \<Longrightarrow> (of_char (digit_char d) :: nat) = 48 + d"
  unfolding digit_char_def by (auto simp: less_Suc_eq numeral_eq_Suc)

lemma digit_val_digit_char [simp]: "d < 10 \<Longrightarrow> digit_val (digit_char d) = Some d"
  by (simp add: digit_val_def of_char_digit_char)

lemma read_digits_append:
  "read_digits acc (xs @ ys) = Option.bind (read_digits acc xs) (\<lambda>a. read_digits a ys)"
  by (induction acc xs rule: read_digits.induct) (auto split: option.splits)

lemma show_nat_nonempty: "show_nat n \<noteq> []"
  by (subst show_nat.simps) simp

lemma read_digits_show_nat: "read_digits acc (show_nat n) = Some (acc * 10 ^ length (show_nat n) + n)"
proof (induction n arbitrary: acc rule: show_nat.induct)
  case (1 n)
  show ?case
  proof (cases "n < 10")
    case True
    then show ?thesis by (simp add: show_nat.simps [of n])
  next
    case False
    let ?k = "length (show_nat (n div 10))"
    have "read_digits acc (show_nat n)
        = Option.bind (read_digits acc (show_nat (n div 10))) (\<lambda>a. read_digits a [digit_char (n mod 10)])"
      using False by (simp add: show_nat.simps [of n] read_digits_append)
    also have "\<dots> = Some (10 * (acc * 10 ^ ?k + n div 10) + n mod 10)"
      using False "1.IH" by simp
    also have "\<dots> = Some (acc * 10 ^ length (show_nat n) + n)"
      using False by (simp add: show_nat.simps [of n] algebra_simps)
    finally show ?thesis .
  qed
qed

text \<open>The decimal printer and reader are inverse: reading what was printed gives it back.\<close>

lemma read_nat_show_nat [js_simps]: "read_nat (show_nat n) = Some n"
  by (simp add: read_nat_def show_nat_nonempty read_digits_show_nat)

lemma time_clip_bound: "time_clip t = Some r \<Longrightarrow> r = t \<and> \<bar>r\<bar> \<le> max_time"
  by (simp add: time_clip_def split: if_splits)

end
