(* ===== verification/Store.thy ===== *)
theory Store
  imports Json
begin

text \<open>
  The storage collaborator as the handlers see it through Mongoose: the two schemas of
  \<open>src/src/models\<close> (\<open>Expense.ts\<close>, \<open>User.ts\<close>), the casting and validation Mongoose
  applies to a document before it is written, the unique indexes (\<open>(userId, date)\<close> on
  expenses, \<open>email\<close> on users, \<open>_id\<close> on both), and the writes the handlers issue:
  \<open>Model.create\<close> and the ordered \<open>Model.insertMany\<close>. The database is a record of
  the two collections in insertion (natural) order and the \<open>ObjectId\<close> generator.
  The invariant \<open>db_inv\<close> states the unique indexes and the freshness of identifiers;
  every write keeps it, whether it succeeds or fails half-way. \<open>docs_wf\<close> states
  that every stored document passes its schema's validators, and every write keeps it too.
\<close>

section \<open>Casting a JavaScript value to a schema type\<close>

text \<open>
  A cast either finds the path absent (\<open>null\<close>, \<open>undefined\<close>, and for \<open>Number\<close>
  and \<open>Date\<close> the empty string), yields a value, or fails with a \<open>CastError\<close>.
\<close>

datatype 'a cast = Absent | Cast 'a | CastFail

fun cast_opt :: "'a cast \<Rightarrow> 'a option" where
  "cast_opt (Cast v) = Some v"
| "cast_opt c = None"

text \<open>
  \<open>String\<close> paths (Mongoose's \<open>castString\<close>): primitives print, an object with a
  string \<open>_id\<close> gives that string, arrays and other objects do not cast.
\<close>

fun cast_string :: "jval \<Rightarrow> string cast" where
  "cast_string JUndef = Absent"
| "cast_string JNull = Absent"
| "cast_string (JStr s) = Cast s"
| "cast_string (JNum n) = Cast (show_int n)"
| "cast_string (JBool b) = Cast (js_to_string (JBool b))"
| "cast_string (JArr xs) = CastFail"
| "cast_string (JObj kvs) =
     (case map_of (rev kvs) ''_id'' of Some (JStr s) \<Rightarrow> Cast s | _ \<Rightarrow> CastFail)"

text \<open>\<open>Number\<close> paths (\<open>castNumber\<close>): strings and booleans go through \<open>Number()\<close>.\<close>

fun cast_number :: "jval \<Rightarrow> int cast" where
  "cast_number JUndef = Absent"
| "cast_number JNull = Absent"
| "cast_number (JNum n) = Cast n"
| "cast_number (JBool b) = Cast (if b then 1 else 0)"
| "cast_number (JStr s) =
     (if s = [] then Absent
      else case js_number_of_string s of Some n \<Rightarrow> Cast n | None \<Rightarrow> CastFail)"
| "cast_number (JArr xs) = CastFail"
| "cast_number (JObj kvs) = CastFail"

text \<open>
  A \<open>Date\<close> path receives either a \<open>Date\<close> object the handler built
  (\<open>new Date(txn.timestamp)\<close>, valid or not) or a JSON value from a request body.
\<close>

datatype date_in = DateObj "millis option" | DateJson jval

fun of_time :: "millis option \<Rightarrow> millis cast" where
  "of_time None = CastFail"
| "of_time (Some t) = Cast t"

text \<open>
  \<open>castDate\<close>: an invalid \<open>Date\<close> and a boolean fail; a number is a time value; a
  numeric string outside the range of plausible years is a time value too, any other
  string is parsed; other values go through the \<open>Date\<close> constructor.
\<close>

fun cast_date :: "date_parser \<Rightarrow> date_in \<Rightarrow> millis cast" where
  "cast_date P (DateObj t) = of_time t"
| "cast_date P (DateJson v) =
     (case v of
        JUndef \<Rightarrow> Absent
      | JNull \<Rightarrow> Absent
      | JBool b \<Rightarrow> CastFail
      | JNum n \<Rightarrow> of_time (time_clip n)
      | JStr s \<Rightarrow>
          (if s = [] then Absent
           else case js_number_of_string s of
             Some n \<Rightarrow>
               if 275761 \<le> n \<or> n < -271820 then of_time (time_clip n)
               else of_time (js_new_date P (JStr s))
           | None \<Rightarrow> of_time (js_new_date P (JStr s)))
      | _ \<Rightarrow> of_time (js_new_date P v))"

section \<open>Validation\<close>

datatype path_error = Required | CastFailed

text \<open>
  The errors of a storage call: a \<open>ValidationError\<close> listing the failing paths, the
  server's \<open>E11000\<close> duplicate-key error, a \<open>CastError\<close> of a query filter's path,
  the server's refusal to modify an immutable path (code 66), an update document that
  Mongoose rejects while casting it (an operator whose value is not an object), and the
  server's refusal of an update that both sets and unsets a path (code 40).
\<close>

datatype db_error =
    ValidationError "(string \<times> path_error) list"
  | DuplicateKey
  | CastError string
  | ImmutableField string
  | InvalidUpdate
  | UpdateConflict string

text \<open>
  The error a path contributes: a failed cast, or a \<open>required\<close> path that is absent
  (for strings, also the empty string: Mongoose's \<open>checkRequired\<close> for \<open>String\<close>
  wants a non-empty one).
\<close>

definition path_check :: "string \<Rightarrow> bool \<Rightarrow> ('a \<Rightarrow> bool) \<Rightarrow> 'a cast \<Rightarrow> (string \<times> path_error) list" where
  "path_check p req present c =
     (case c of
        CastFail \<Rightarrow> [(p, CastFailed)]
      | Absent \<Rightarrow> (if req then [(p, Required)] else [])
      | Cast v \<Rightarrow> (if req \<and> \<not> present v then [(p, Required)] else []))"

section \<open>The expense schema\<close>

text \<open>
  The object literal a handler passes to \<open>Expense.create\<close> or
  \<open>Expense.insertMany\<close>, one field per schema path the handlers write; the owner
  (\<open>userId\<close>, the verified token's id) is passed on its own.
\<close>

record expense_doc =
  doc_category :: jval
  doc_amount :: jval
  doc_description :: jval
  doc_date :: date_in
  doc_sender :: jval
  doc_senderReceiver :: jval
  doc_upiTransactionId :: jval
  doc_rawMessage :: jval

text \<open>A stored expense document (\<open>expenseSchema\<close> with \<open>timestamps: true\<close>).\<close>

record expense =
  eid :: oid
  userId :: oid
  category :: string
  amount :: int
  description :: "string option"
  date :: millis
  sender :: "string option"
  senderReceiver :: "string option"
  upiTransactionId :: "string option"
  rawMessage :: "string option"
  createdAt :: millis
  updatedAt :: millis

definition nonempty_str :: "string \<Rightarrow> bool" where
  "nonempty_str s \<longleftrightarrow> s \<noteq> []"

text \<open>The validation errors of a document, path by path in schema order.\<close>

definition doc_errors :: "date_parser \<Rightarrow> expense_doc \<Rightarrow> (string \<times> path_error) list" where
  "doc_errors P d =
      path_check ''category'' True nonempty_str (cast_string (doc_category d))
    @ path_check ''amount'' True (\<lambda>_. True) (cast_number (doc_amount d))
    @ path_check ''description'' False (\<lambda>_. True) (cast_string (doc_description d))
    @ path_check ''date'' True (\<lambda>_. True) (cast_date P (doc_date d))
    @ path_check ''sender'' False (\<lambda>_. True) (cast_string (doc_sender d))
    @ path_check ''senderReceiver'' False (\<lambda>_. True) (cast_string (doc_senderReceiver d))
    @ path_check ''upiTransactionId'' False (\<lambda>_. True) (cast_string (doc_upiTransactionId d))
    @ path_check ''rawMessage'' False (\<lambda>_. True) (cast_string (doc_rawMessage d))"

text \<open>
  \<open>new Expense(doc)\<close> followed by \<open>validate()\<close>: the document with identifier
  \<open>i\<close>, owner \<open>u\<close> and both timestamps \<open>now\<close>, or the \<open>ValidationError\<close>.
\<close>

definition new_expense :: "date_parser \<Rightarrow> oid \<Rightarrow> oid \<Rightarrow> millis \<Rightarrow> expense_doc \<Rightarrow> db_error + expense" where
  "new_expense P i u now d =
     (let errs = doc_errors P d in
      case (cast_opt (cast_string (doc_category d)), cast_opt (cast_number (doc_amount d)),
            cast_opt (cast_date P (doc_date d))) of
        (Some c, Some a, Some t) \<Rightarrow>
          if errs = [] then
            Inr \<lparr>eid = i, userId = u, category = c, amount = a,
                 description = cast_opt (cast_string (doc_description d)), date = t,
                 sender = cast_opt (cast_string (doc_sender d)),
                 senderReceiver = cast_opt (cast_string (doc_senderReceiver d)),
                 upiTransactionId = cast_opt (cast_string (doc_upiTransactionId d)),
                 rawMessage = cast_opt (cast_string (doc_rawMessage d)),
                 createdAt = now, updatedAt = now\<rparr>
          else Inl (ValidationError errs)
      | _ \<Rightarrow> Inl (ValidationError errs))"

section \<open>The user schema\<close>

record user =
  uid :: oid
  name :: string
  email :: string
  passwordHash :: string
  user_createdAt :: millis
  user_updatedAt :: millis

section \<open>The database\<close>

record db =
  expenses :: "expense list"
  users :: "user list"
  next_oid :: oid

text \<open>The key of the unique index \<open>{ userId: 1, date: 1 }\<close>.\<close>

definition expense_key :: "expense \<Rightarrow> oid \<times> millis" where
  "expense_key e = (userId e, date e)"

text \<open>
  The unique indexes hold, and every stored identifier was drawn from the generator
  before its current value (so that a new one is fresh).
\<close>

definition db_inv :: "db \<Rightarrow> bool" where
  "db_inv s \<longleftrightarrow>
     distinct (map expense_key (expenses s)) \<and> distinct (map eid (expenses s)) \<and>
     (\<forall>e \<in> set (expenses s). eid e < next_oid s) \<and>
     distinct (map email (users s)) \<and> distinct (map uid (users s)) \<and>
     (\<forall>u \<in> set (users s). uid u < next_oid s)"

definition empty_db :: db where
  "empty_db = \<lparr>expenses = [], users = [], next_oid = 0\<rparr>"

section \<open>Conformance to the schemas\<close>

text \<open>
  What the schemas promise of a stored document beyond the types of its fields: the
  required strings are non-empty, and a \<open>Date\<close> path holds a valid time value (within
  TimeClip's range). \<open>date_in_ok\<close> says the same of a \<open>Date\<close> object a handler
  passes in; a JSON value is cast, and the cast only yields valid time values.
\<close>

definition valid_time :: "millis \<Rightarrow> bool" where
  "valid_time t \<longleftrightarrow> \<bar>t\<bar> \<le> max_time"


definition date_in_ok :: "date_in \<Rightarrow> bool" where
  "date_in_ok di = (case di of DateObj t \<Rightarrow> pred_option valid_time t | DateJson v \<Rightarrow> True)"


definition expense_wf :: "expense \<Rightarrow> bool" where
  "expense_wf e \<longleftrightarrow> nonempty_str (category e) \<and> valid_time (date e)"


definition user_wf :: "user \<Rightarrow> bool" where
  "user_wf usr \<longleftrightarrow> nonempty_str (name usr) \<and> nonempty_str (email usr) \<and> nonempty_str (passwordHash usr)"


definition docs_wf :: "db \<Rightarrow> bool" where
  "docs_wf s \<longleftrightarrow> list_all expense_wf (expenses s) \<and> list_all user_wf (users s)"

section \<open>Writes\<close>

text \<open>
  One insert into the expense collection: rejected with \<open>E11000\<close> when it would
  duplicate a key of a unique index, appended otherwise.
\<close>

definition insert_expense :: "db \<Rightarrow> expense \<Rightarrow> db_error + db" where
  "insert_expense s e =
     (if expense_key e \<in> set (map expense_key (expenses s)) \<or> eid e \<in> set (map eid (expenses s))
      then Inl DuplicateKey
      else Inr (s\<lparr>expenses := expenses s @ [e]\<rparr>))"

text \<open>
  An ordered bulk insert (\<open>insertMany\<close> with the default \<open>ordered: true\<close>): the
  documents are written one after the other and the first write error stops the batch;
  the documents written before it stay written.
\<close>

fun insert_ordered :: "db \<Rightarrow> expense list \<Rightarrow> db \<times> (db_error + expense list)" where
  "insert_ordered s [] = (s, Inr [])"
| "insert_ordered s (e # es) =
     (case insert_expense s e of
        Inl err \<Rightarrow> (s, Inl err)
      | Inr s' \<Rightarrow>
          (case insert_ordered s' es of
             (s'', Inl err) \<Rightarrow> (s'', Inl err)
           | (s'', Inr ins) \<Rightarrow> (s'', Inr (e # ins))))"

text \<open>Fresh \<open>ObjectId\<close>s, drawn when the documents are constructed.\<close>

definition alloc_ids :: "db \<Rightarrow> nat \<Rightarrow> oid list \<times> db" where
  "alloc_ids s n = ([next_oid s ..< next_oid s + n], s\<lparr>next_oid := next_oid s + n\<rparr>)"

text \<open>
  \<open>Expense.create(doc)\<close>: construct (drawing an identifier), validate, insert.
\<close>

definition expense_create :: "date_parser \<Rightarrow> millis \<Rightarrow> oid \<Rightarrow> expense_doc \<Rightarrow> db \<Rightarrow> db \<times> (db_error + expense)" where
  "expense_create P now u d s =
     (let (ids, s1) = alloc_ids s 1 in
      case new_expense P (hd ids) u now d of
        Inl err \<Rightarrow> (s1, Inl err)
      | Inr e \<Rightarrow> (case insert_expense s1 e of Inl err \<Rightarrow> (s1, Inl err) | Inr s2 \<Rightarrow> (s2, Inr e)))"

text \<open>
  \<open>Expense.insertMany(docs)\<close>: every document is constructed and validated first;
  with \<open>ordered: true\<close> the first validation error rejects the call before anything is
  written. Otherwise the documents go to the ordered bulk insert.
\<close>

definition expense_insert_many ::
  "date_parser \<Rightarrow> millis \<Rightarrow> oid \<Rightarrow> expense_doc list \<Rightarrow> db \<Rightarrow> db \<times> (db_error + expense list)" where
  "expense_insert_many P now u docs s =
     (let (ids, s1) = alloc_ids s (length docs) in
      case all_right (map (\<lambda>(i, d). new_expense P i u now d) (zip ids docs)) of
        Inl err \<Rightarrow> (s1, Inl err)
      | Inr es \<Rightarrow> insert_ordered s1 es)"

section \<open>Reads\<close>

text \<open>\<open>Expense.find({ userId, date: { $in: ts } })\<close>, in natural order.\<close>

definition find_by_dates :: "oid \<Rightarrow> millis list \<Rightarrow> db \<Rightarrow> expense list" where
  "find_by_dates u ts s = filter (\<lambda>e. userId e = u \<and> date e \<in> set ts) (expenses s)"

text \<open>Whether user \<open>u\<close> has an expense stored at instant \<open>t\<close>.\<close>

definition has_expense_at :: "db \<Rightarrow> oid \<Rightarrow> millis \<Rightarrow> bool" where
  "has_expense_at s u t \<longleftrightarrow> (u, t) \<in> set (map expense_key (expenses s))"

section \<open>Responses\<close>

text \<open>
  What a handler sends: a status code with a JSON body (\<open>res.status(c).json(b)\<close>,
  200 when no status is set), a status code with \<open>{ message }\<close>, or a status code
  with \<open>{ message: err.message }\<close> for a caught storage error.
\<close>

datatype 'a response = Body nat 'a | Msg nat string | ErrMsg nat db_error

section \<open>Properties of construction and writes\<close>

lemma path_check_required: "cast_opt c = None \<Longrightarrow> path_check p True pr c \<noteq> []"
  by (cases c) (simp_all add: path_check_def)

text \<open>A failed construction is always a validation error that names at least one path.\<close>

lemma new_expense_Inl:
  "new_expense P i u now d = Inl err \<Longrightarrow> \<exists>errs. err = ValidationError errs \<and> errs \<noteq> [] \<and> errs = doc_errors P d"
  by (auto simp: new_expense_def Let_def doc_errors_def path_check_required
           split: option.splits if_splits)

lemma new_expense_date_fail:
  "cast_opt (cast_date P (doc_date d)) = None \<Longrightarrow> \<exists>err. new_expense P i u now d = Inl err"
  by (simp add: new_expense_def Let_def split: option.splits)

lemma new_expense_Inr:
  "new_expense P i u now d = Inr e \<Longrightarrow>
   doc_errors P d = [] \<and> eid e = i \<and> userId e = u \<and> cast_date P (doc_date d) = Cast (date e) \<and>
   cast_string (doc_category d) = Cast (category e) \<and> cast_number (doc_amount d) = Cast (amount e)"
  by (auto simp: new_expense_def Let_def elim!: cast_opt.elims split: option.splits if_splits)

lemma new_expense_valid:
  assumes "doc_errors P d = []"
  shows "\<exists>e. new_expense P i u now d = Inr e"
proof (cases "new_expense P i u now d")
  case (Inl err)
  from new_expense_Inl [OF this] assms show ?thesis by simp
qed simp

lemma insert_expense_Inr:
  "insert_expense s e = Inr s' \<Longrightarrow>
   s' = s\<lparr>expenses := expenses s @ [e]\<rparr> \<and> expense_key e \<notin> expense_key ` set (expenses s) \<and>
   eid e \<notin> eid ` set (expenses s)"
  by (auto simp: insert_expense_def split: if_splits)

lemma insert_expense_Inl: "insert_expense s e = Inl err \<Longrightarrow> err = DuplicateKey \<and> s = s"
  by (simp add: insert_expense_def split: if_splits)

lemma insert_expense_inv:
  assumes "db_inv s" and "eid e < next_oid s" and "insert_expense s e = Inr s'"
  shows "db_inv s'"
  using assms insert_expense_Inr [OF assms(3)] by (auto simp: db_inv_def)

text \<open>
  The shape of every outcome of an ordered bulk insert: some prefix of the batch is
  written; either all of it and the call succeeds, or the call fails with a duplicate
  key on the first document that is not written.
\<close>

lemma insert_ordered_outcome:
  "insert_ordered s es = (s', r) \<Longrightarrow>
   \<exists>k \<le> length es. s' = s\<lparr>expenses := expenses s @ take k es\<rparr> \<and>
     (r = Inr es \<and> k = length es \<or>
      r = Inl DuplicateKey \<and> k < length es \<and> insert_expense s' (es ! k) = Inl DuplicateKey)"
proof (induction s es arbitrary: s' r rule: insert_ordered.induct)
  case (1 s)
  then show ?case by simp
next
  case (2 s e es)
  show ?case
  proof (cases "insert_expense s e")
    case (Inl err)
    with "2.prems" insert_expense_Inl [OF Inl] show ?thesis by auto
  next
    case (Inr s1)
    note s1 = insert_expense_Inr [OF Inr]
    obtain s2 r2 where rec: "insert_ordered s1 es = (s2, r2)" by fastforce
    from "2.IH" [OF Inr rec] obtain k where k: "k \<le> length es"
      "s2 = s1\<lparr>expenses := expenses s1 @ take k es\<rparr>"
      "r2 = Inr es \<and> k = length es \<or>
       r2 = Inl DuplicateKey \<and> k < length es \<and> insert_expense s2 (es ! k) = Inl DuplicateKey"
      by blast
    from "2.prems" Inr rec have "s' = s2" and r: "r = (case r2 of Inl err \<Rightarrow> Inl err | Inr ins \<Rightarrow> Inr (e # ins))"
      by (auto split: sum.splits)
    with k s1 show ?thesis
      by (intro exI [of _ "Suc k"]) auto
  qed
qed

lemma insert_ordered_inv:
  "db_inv s \<Longrightarrow> \<forall>e \<in> set es. eid e < next_oid s \<Longrightarrow> insert_ordered s es = (s', r) \<Longrightarrow> db_inv s'"
proof (induction s es arbitrary: s' r rule: insert_ordered.induct)
  case (1 s)
  then show ?case by simp
next
  case (2 s e es)
  show ?case
  proof (cases "insert_expense s e")
    case (Inl err)
    with "2.prems" show ?thesis by simp
  next
    case (Inr s1)
    have inv1: "db_inv s1" using insert_expense_inv [OF "2.prems"(1) _ Inr] "2.prems"(2) by simp
    have "next_oid s1 = next_oid s" using insert_expense_Inr [OF Inr] by simp
    with "2.prems"(2) have "\<forall>e \<in> set es. eid e < next_oid s1" by simp
    moreover obtain s2 r2 where rec: "insert_ordered s1 es = (s2, r2)" by fastforce
    ultimately have "db_inv s2" using "2.IH" [OF Inr inv1] by blast
    moreover from "2.prems"(3) Inr rec have "s' = s2" by (auto split: sum.splits)
    ultimately show ?thesis by simp
  qed
qed

lemma alloc_ids_inv:
  "db_inv s \<Longrightarrow> alloc_ids s n = (ids, s1) \<Longrightarrow>
   db_inv s1 \<and> expenses s1 = expenses s \<and> users s1 = users s \<and> distinct ids \<and> length ids = n \<and>
   (\<forall>i \<in> set ids. next_oid s \<le> i \<and> i < next_oid s1)"
  by (auto simp: alloc_ids_def db_inv_def; force intro: trans_less_add1)

lemma new_expenses_ids:
  "all_right (map (\<lambda>(i, d). new_expense P i u now d) (zip ids docs)) = Inr es \<Longrightarrow>
   map eid es = take (length docs) ids \<and> length es = min (length ids) (length docs) \<and> (\<forall>e \<in> set es. userId e = u)"
proof (induction ids arbitrary: docs es)
  case Nil
  then show ?case by simp
next
  case (Cons i ids)
  note IH = Cons.IH and prems = Cons.prems
  show ?case
  proof (cases docs)
    case Nil
    with prems show ?thesis by simp
  next
    case (Cons d ds)
    with prems obtain e es' where ne: "new_expense P i u now d = Inr e"
      and rest: "all_right (map (\<lambda>(i, d). new_expense P i u now d) (zip ids ds)) = Inr es'"
      and es: "es = e # es'"
      by (cases "new_expense P i u now d") (auto split: sum.splits)
    from IH [OF rest] new_expense_Inr [OF ne] es Cons show ?thesis by simp
  qed
qed

text \<open>Each constructed expense comes from the document at its position.\<close>

lemma new_expenses_docs:
  "all_right (map (\<lambda>(i, d). new_expense P i u now d) (zip ids docs)) = Inr es \<Longrightarrow>
   length docs \<le> length ids \<Longrightarrow> list_all2 (\<lambda>d e. \<exists>i. new_expense P i u now d = Inr e) docs es"
proof (induction ids arbitrary: docs es)
  case Nil
  then show ?case by simp
next
  case (Cons i ids)
  note IH = Cons.IH and prems = Cons.prems
  show ?case
  proof (cases docs)
    case Nil
    with prems show ?thesis by simp
  next
    case (Cons d ds)
    with prems(1) obtain e es' where ne: "new_expense P i u now d = Inr e"
      and rest: "all_right (map (\<lambda>(i, d). new_expense P i u now d) (zip ids ds)) = Inr es'"
      and es: "es = e # es'"
      by (cases "new_expense P i u now d") (auto split: sum.splits)
    from IH [OF rest] prems(2) Cons have "list_all2 (\<lambda>d e. \<exists>i. new_expense P i u now d = Inr e) ds es'"
      by simp
    with ne es Cons show ?thesis by auto
  qed
qed

text \<open>
  A successful \<open>Expense.insertMany\<close> writes exactly the constructed documents, one per
  input document and in the same order.
\<close>

lemma expense_insert_many_Inr:
  "expense_insert_many P now u docs s = (s', Inr ins) \<Longrightarrow>
   expenses s' = expenses s @ ins \<and> list_all2 (\<lambda>d e. \<exists>i. new_expense P i u now d = Inr e) docs ins"
proof -
  assume run: "expense_insert_many P now u docs s = (s', Inr ins)"
  obtain ids s1 where al: "alloc_ids s (length docs) = (ids, s1)" by fastforce
  then have len: "length ids = length docs" and ex: "expenses s1 = expenses s"
    by (auto simp: alloc_ids_def)
  show ?thesis
  proof (cases "all_right (map (\<lambda>(i, d). new_expense P i u now d) (zip ids docs))")
    case (Inl err)
    with run al show ?thesis by (simp add: expense_insert_many_def)
  next
    case (Inr es)
    with run al have ins: "insert_ordered s1 es = (s', Inr ins)" by (simp add: expense_insert_many_def)
    from insert_ordered_outcome [OF ins] have "ins = es" "s' = s1\<lparr>expenses := expenses s1 @ es\<rparr>"
      by auto
    with new_expenses_docs [OF Inr] len ex show ?thesis by simp
  qed
qed

text \<open>
  The outcome of \<open>Expense.insertMany\<close>: the collection grows by a prefix of the
  constructed documents (nothing when validation fails), all owned by \<open>u\<close>; users are
  untouched and the invariant holds afterwards.
\<close>

lemma expense_insert_many_outcome:
  assumes inv: "db_inv s" and run: "expense_insert_many P now u docs s = (s', r)"
  shows "db_inv s' \<and> users s' = users s \<and>
         (\<exists>ins. expenses s' = expenses s @ ins \<and> (\<forall>e \<in> set ins. userId e = u) \<and>
                (\<forall>es. r = Inr es \<longrightarrow> ins = es))"
proof -
  obtain ids s1 where al: "alloc_ids s (length docs) = (ids, s1)" by fastforce
  note a = alloc_ids_inv [OF inv al]
  show ?thesis
  proof (cases "all_right (map (\<lambda>(i, d). new_expense P i u now d) (zip ids docs))")
    case (Inl err)
    with run al have "s' = s1" "r = Inl err" by (simp_all add: expense_insert_many_def)
    with a show ?thesis by (intro conjI exI [of _ "[]"]) auto
  next
    case (Inr es)
    with run al have ins: "insert_ordered s1 es = (s', r)" by (simp add: expense_insert_many_def)
    from new_expenses_ids [OF Inr] have own: "\<forall>e \<in> set es. userId e = u"
      and eids: "map eid es = take (length docs) ids" by simp_all
    have "eid e \<in> set ids" if "e \<in> set es" for e
      using that eids by (metis image_eqI in_set_takeD list.set_map)
    with a have ids: "\<forall>e \<in> set es. eid e < next_oid s1" by blast
    from insert_ordered_inv [OF _ ids ins] a have "db_inv s'" by simp
    moreover from insert_ordered_outcome [OF ins] obtain k where
      "s' = s1\<lparr>expenses := expenses s1 @ take k es\<rparr>" "r = Inr es \<and> k = length es \<or> r = Inl DuplicateKey"
      by blast
    ultimately show ?thesis using a own
      by (intro conjI exI [of _ "take k es"]) (auto dest: in_set_takeD)
  qed
qed

section \<open>Conformance of written documents\<close>

lemma time_clip_valid: "time_clip t = Some x \<Longrightarrow> valid_time x"
  by (simp add: time_clip_def valid_time_def split: if_splits)


lemma js_new_date_valid: "js_new_date P v = Some t \<Longrightarrow> valid_time t"
  by (cases v) (auto simp: time_clip_valid bind_eq_Some_conv)


lemma cast_date_valid: "cast_date P di = Cast t \<Longrightarrow> date_in_ok di \<Longrightarrow> valid_time t"
proof (cases di)
  case (DateObj x)
  then show "cast_date P di = Cast t \<Longrightarrow> date_in_ok di \<Longrightarrow> valid_time t"
    by (cases x) (auto simp: date_in_ok_def)
next
  case (DateJson v)
  have of: "of_time x = Cast t \<Longrightarrow> x = Some t" for x by (cases x) auto
  show "cast_date P di = Cast t \<Longrightarrow> date_in_ok di \<Longrightarrow> valid_time t"
    using DateJson by (auto simp: bind_eq_Some_conv split: jval.splits if_splits option.splits dest!: of
        intro: time_clip_valid)
qed


lemma cast_date_json_valid: "cast_date P (DateJson v) = Cast t \<Longrightarrow> valid_time t"
  using cast_date_valid [of P "DateJson v" t] by (simp add: date_in_ok_def del: cast_date.simps)


lemma new_expense_wf: "new_expense P i u now d = Inr e \<Longrightarrow> date_in_ok (doc_date d) \<Longrightarrow> expense_wf e"
proof -
  assume ne: "new_expense P i u now d = Inr e" and ok: "date_in_ok (doc_date d)"
  note r = new_expense_Inr [OF ne]
  then have "nonempty_str (category e)" by (clarsimp simp: doc_errors_def path_check_def split: if_splits)
  with r cast_date_valid [of P "doc_date d" "date e"] ok show "expense_wf e" by (simp add: expense_wf_def)
qed


lemma expense_insert_many_wf:
  assumes run: "expense_insert_many P now u docs s = (s', r)" and ok: "list_all (\<lambda>d. date_in_ok (doc_date d)) docs"
    and wf: "docs_wf s"
  shows "docs_wf s'"
proof -
  obtain ids s1 where al: "alloc_ids s (length docs) = (ids, s1)" by fastforce
  then have s1: "expenses s1 = expenses s" "users s1 = users s" "length ids = length docs"
    by (auto simp: alloc_ids_def)
  show ?thesis
  proof (cases "all_right (map (\<lambda>(i, d). new_expense P i u now d) (zip ids docs))")
    case (Inl err)
    with run al s1 wf show ?thesis by (simp add: expense_insert_many_def docs_wf_def)
  next
    case (Inr es)
    with run al have ins: "insert_ordered s1 es = (s', r)" by (simp add: expense_insert_many_def)
    from new_expenses_docs [OF Inr] s1 have "list_all2 (\<lambda>d e. \<exists>i. new_expense P i u now d = Inr e) docs es"
      by simp
    then have "list_all expense_wf es"
      using ok by (induction rule: list_all2_induct) (auto intro: new_expense_wf)
    moreover from insert_ordered_outcome [OF ins] obtain k where
      "s' = s1\<lparr>expenses := expenses s1 @ take k es\<rparr>" by blast
    ultimately show ?thesis using wf s1
      by (auto simp: docs_wf_def list_all_iff dest: in_set_takeD)
  qed
qed


lemma expense_create_wf:
  "expense_create P now u d s = (s', r) \<Longrightarrow> date_in_ok (doc_date d) \<Longrightarrow> docs_wf s \<Longrightarrow> docs_wf s'"
  by (auto simp: expense_create_def alloc_ids_def docs_wf_def insert_expense_def
      split: sum.splits if_splits dest: new_expense_wf)

lemma expense_create_inv:
  assumes "db_inv s" and "expense_create P now u d s = (s', r)"
  shows "db_inv s'"
proof -
  obtain ids s1 where al: "alloc_ids s 1 = (ids, s1)" by fastforce
  note a = alloc_ids_inv [OF assms(1) al]
  have lt: "hd ids < next_oid s1" using a by (cases ids) auto
  show ?thesis
  proof (cases "new_expense P (hd ids) u now d")
    case (Inr e)
    have "eid e < next_oid s1" using new_expense_Inr [OF Inr] lt by simp
    with assms(2) al Inr a insert_expense_inv [of s1 e] show ?thesis
      by (auto simp: expense_create_def split: sum.splits)
  qed (use assms(2) al a in \<open>auto simp: expense_create_def\<close>)
qed

lemmas store_defs [store_simps] =
  new_expense_def doc_errors_def path_check_def nonempty_str_def expense_key_def
  insert_expense_def alloc_ids_def expense_create_def expense_insert_many_def find_by_dates_def
  has_expense_at_def
  db_inv_def empty_db_def

end
