(* ===== verification/Expense_Sync.thy ===== *)
theory Expense_Sync
  imports Store
begin

text \<open>
  The sync and dedup engine: \<open>syncExpenses\<close> of
  \<open>src/src/controllers/expense.controller.ts\<close> (lines 75--139), the handler of
  \<open>POST /api/v1/expenses/sync\<close>. It reads \<open>transactions\<close> from the body, computes
  the timestamps of the batch, fetches the caller's stored expenses at those instants,
  splits the batch into new and already-entered transactions, builds one document per
  new transaction and writes them with one ordered \<open>insertMany\<close>. Any exception
  (a \<open>TypeError\<close> on a \<open>null\<close> element, a validation error, a duplicate key) is
  caught and answered with status 500.

  Each definition below is one step of the handler, in the order of the source, and
  \<open>syncExpenses\<close> composes them as the handler does. The theory proves that every
  outcome keeps the storage invariant and only appends the caller's rows, what a
  successful call returns, that repeating a successful call inserts nothing, and how
  the handler fails on a missing array, on a \<open>null\<close> element, on an unparseable
  timestamp and on a batch that repeats a timestamp.
\<close>

section \<open>The steps of the handler\<close>

text \<open>
  \<open>txn.k\<close> on an element that has passed the first \<open>map\<close> (line 87), which throws
  on \<open>null\<close> elements before any later access happens; on such an element the access
  cannot fail, and \<open>undefined\<close> stands for the impossible case.
\<close>

definition txn_prop :: "jval \<Rightarrow> string \<Rightarrow> jval" where
  "txn_prop v k = (case js_prop v k of Some x \<Rightarrow> x | None \<Rightarrow> JUndef)"

fun js_items :: "jval \<Rightarrow> jval list" where
  "js_items (JArr xs) = xs"
| "js_items v = []"

text \<open>Lines 86--88: the valid timestamps of the batch, \<open>NaN\<close>s dropped.\<close>

definition sync_timestamps :: "date_parser \<Rightarrow> jval list \<Rightarrow> millis list" where
  "sync_timestamps P tsv = List.map_filter (js_new_date P) tsv"

text \<open>Lines 91--98: the instants at which the caller already has an expense.\<close>

definition existing_times :: "oid \<Rightarrow> millis list \<Rightarrow> db \<Rightarrow> millis set" where
  "existing_times u ts s = set (map date (find_by_dates u ts s))"

text \<open>
  Lines 101--107: \<open>existingTimestamps.has(new Date(txn.timestamp).getTime())\<close>; a
  \<open>NaN\<close> time is never in the set, whose members are stored dates.
\<close>

definition txn_time :: "date_parser \<Rightarrow> jval \<Rightarrow> millis option" where
  "txn_time P txn = js_new_date P (txn_prop txn ''timestamp'')"

definition entered :: "date_parser \<Rightarrow> millis set \<Rightarrow> jval \<Rightarrow> bool" where
  "entered P ex txn = (case txn_time P txn of Some t \<Rightarrow> t \<in> ex | None \<Rightarrow> False)"

text \<open>Lines 110--119: the document built from a new transaction.\<close>

definition sync_doc :: "date_parser \<Rightarrow> jval \<Rightarrow> expense_doc" where
  "sync_doc P txn =
     \<lparr>doc_category = js_or (txn_prop txn ''transactionType'') (JStr ''unknown''),
      doc_amount = txn_prop txn ''amount'',
      doc_description = js_or (txn_prop txn ''rawMessage'') (txn_prop txn ''sender''),
      doc_date = DateObj (txn_time P txn),
      doc_sender = txn_prop txn ''sender'',
      doc_senderReceiver = js_or (txn_prop txn ''senderReceiver'') (JStr ''Unknown''),
      doc_upiTransactionId = js_or (txn_prop txn ''upiTransactionId'') JNull,
      doc_rawMessage = JUndef\<rparr>"

text \<open>Lines 126--131: the body of the 201 reply (\<open>success: true\<close> is implied).\<close>

record sync_result =
  saved :: "expense list"
  alreadyEntered :: "jval list"
  sync_message :: string

definition sync_reply :: "expense list \<Rightarrow> jval list \<Rightarrow> sync_result" where
  "sync_reply ins already =
     \<lparr>saved = ins, alreadyEntered = already,
      sync_message = show_nat (length ins) @ '' new transactions saved. '' @
                     show_nat (length already) @ '' already existed.''\<rparr>"

definition sync_server_error :: string where
  "sync_server_error = ''Server error while syncing messages''"

definition sync_array_required :: string where
  "sync_array_required = ''Transactions array is required''"

text \<open>
  The spec's notion of an already-entered transaction: its timestamp is valid and the
  caller has an expense stored at that instant.
\<close>

definition already_stored :: "date_parser \<Rightarrow> oid \<Rightarrow> db \<Rightarrow> jval \<Rightarrow> bool" where
  "already_stored P u s txn \<longleftrightarrow> (case txn_time P txn of Some t \<Rightarrow> has_expense_at s u t | None \<Rightarrow> False)"

section \<open>The handler\<close>

text \<open>
  Lines 85--131, once the batch is known to be an array whose elements all have a
  \<open>timestamp\<close> property (\<open>tsv\<close>, the values read by the first \<open>map\<close>).
\<close>

definition sync_batch ::
  "date_parser \<Rightarrow> millis \<Rightarrow> oid \<Rightarrow> jval list \<Rightarrow> jval list \<Rightarrow> db \<Rightarrow> db \<times> sync_result response" where
  "sync_batch P now u items tsv s =
     (let ex = existing_times u (sync_timestamps P tsv) s;
          newT = filter (\<lambda>txn. \<not> entered P ex txn) items;
          already = filter (entered P ex) items;
          docs = map (sync_doc P) newT
      in if docs = [] then (s, Body 201 (sync_reply [] already))
         else
           (case expense_insert_many P now u docs s of
              (s', Inl err) \<Rightarrow> (s', Msg 500 sync_server_error)
            | (s', Inr ins) \<Rightarrow> (s', Body 201 (sync_reply ins already))))"

text \<open>
  \<open>syncExpenses P now u body s\<close>: the request of user \<open>u\<close> with JSON body \<open>body\<close>
  at time \<open>now\<close>, on database \<open>s\<close>; the result is the database after the call and
  the response. Destructuring a \<open>null\<close> body throws (500); the guard of line 79
  answers 400; a \<open>null\<close> element throws in the first \<open>map\<close> (500).
\<close>

definition syncExpenses :: "date_parser \<Rightarrow> millis \<Rightarrow> oid \<Rightarrow> jval \<Rightarrow> db \<Rightarrow> db \<times> sync_result response" where
  "syncExpenses P now u body s =
     (case js_prop body ''transactions'' of
        None \<Rightarrow> (s, Msg 500 sync_server_error)
      | Some txs \<Rightarrow>
          if \<not> truthy txs \<or> \<not> is_array txs then (s, Msg 400 sync_array_required)
          else
            let items = js_items txs in
            case those (map (\<lambda>txn. js_prop txn ''timestamp'') items) of
              None \<Rightarrow> (s, Msg 500 sync_server_error)
            | Some tsv \<Rightarrow> sync_batch P now u items tsv s)"

lemmas sync_eval = syncExpenses_def sync_batch_def existing_times_def sync_timestamps_def entered_def
  txn_time_def txn_prop_def sync_doc_def sync_reply_def sync_server_error_def sync_array_required_def

section \<open>Lemmas: the handler's steps\<close>

lemma those_timestamps:
  "those (map (\<lambda>txn. js_prop txn ''timestamp'') items) = Some tsv \<Longrightarrow>
   tsv = map (\<lambda>txn. txn_prop txn ''timestamp'') items \<and> (\<forall>txn \<in> set items. txn \<noteq> JNull \<and> txn \<noteq> JUndef)"
proof (induction items arbitrary: tsv)
  case Nil
  then show ?case by simp
next
  case (Cons x xs)
  then show ?case
    by (cases x) (auto simp: txn_prop_def split: option.splits)
qed

lemma those_no_null:
  "\<forall>txn \<in> set items. txn \<noteq> JNull \<and> txn \<noteq> JUndef \<Longrightarrow>
   those (map (\<lambda>txn. js_prop txn ''timestamp'') items) = Some (map (\<lambda>txn. txn_prop txn ''timestamp'') items)"
proof (induction items)
  case Nil
  then show ?case by simp
next
  case (Cons x xs)
  then show ?case by (cases x) (auto simp: txn_prop_def)
qed

lemma set_sync_timestamps:
  "set (sync_timestamps P tsv) = {t. \<exists>v \<in> set tsv. js_new_date P v = Some t}"
  by (induction tsv) (auto simp: sync_timestamps_def split: option.splits)

text \<open>
  The lookup of lines 91--107 decides exactly the spec's notion: a transaction of the
  batch is entered iff the caller has an expense at its instant.
\<close>

lemma entered_iff:
  assumes "those (map (\<lambda>txn. js_prop txn ''timestamp'') items) = Some tsv" and "txn \<in> set items"
  shows "entered P (existing_times u (sync_timestamps P tsv) s) txn = already_stored P u s txn"
proof -
  from those_timestamps [OF assms(1)] have tsv: "tsv = map (\<lambda>txn. txn_prop txn ''timestamp'') items"
    by simp
  show ?thesis
  proof (cases "txn_time P txn")
    case None
    then show ?thesis by (simp add: entered_def already_stored_def)
  next
    case (Some t)
    with assms(2) tsv have "t \<in> set (sync_timestamps P tsv)"
      by (auto simp: set_sync_timestamps txn_time_def)
    with Some show ?thesis
      by (auto simp: entered_def already_stored_def existing_times_def find_by_dates_def
          has_expense_at_def expense_key_def image_iff)
  qed
qed

lemma sync_batch_eq:
  assumes "those (map (\<lambda>txn. js_prop txn ''timestamp'') items) = Some tsv"
  shows "sync_batch P now u items tsv s =
    (let newT = filter (\<lambda>txn. \<not> already_stored P u s txn) items;
         already = filter (already_stored P u s) items;
         docs = map (sync_doc P) newT
     in if docs = [] then (s, Body 201 (sync_reply [] already))
        else
          (case expense_insert_many P now u docs s of
             (s', Inl err) \<Rightarrow> (s', Msg 500 sync_server_error)
           | (s', Inr ins) \<Rightarrow> (s', Body 201 (sync_reply ins already))))"
proof -
  have "filter (\<lambda>txn. \<not> entered P (existing_times u (sync_timestamps P tsv) s) txn) items =
        filter (\<lambda>txn. \<not> already_stored P u s txn) items"
    by (rule filter_cong) (simp_all add: entered_iff [OF assms])
  moreover have "filter (entered P (existing_times u (sync_timestamps P tsv) s)) items =
        filter (already_stored P u s) items"
    by (rule filter_cong) (simp_all add: entered_iff [OF assms])
  ultimately show ?thesis by (simp add: sync_batch_def Let_def)
qed

lemma syncExpenses_Body:
  "syncExpenses P now u body s = (s', Body c res) \<Longrightarrow>
   \<exists>items tsv. js_prop body ''transactions'' = Some (JArr items) \<and>
     those (map (\<lambda>txn. js_prop txn ''timestamp'') items) = Some tsv \<and>
     sync_batch P now u items tsv s = (s', Body c res)"
  by (auto simp: syncExpenses_def Let_def elim!: is_array.elims split: option.splits if_splits)

lemma syncExpenses_batch:
  "js_prop body ''transactions'' = Some (JArr items) \<Longrightarrow>
   those (map (\<lambda>txn. js_prop txn ''timestamp'') items) = Some tsv \<Longrightarrow>
   syncExpenses P now u body s = sync_batch P now u items tsv s"
  by (simp add: syncExpenses_def)

lemma sync_doc_new_expense:
  "new_expense P i u now (sync_doc P txn) = Inr e \<Longrightarrow> txn_time P txn = Some (date e) \<and> userId e = u"
  using new_expense_Inr [of P i u now "sync_doc P txn" e]
  by (cases "txn_time P txn") (auto simp: sync_doc_def)

lemma has_expense_at_append:
  "has_expense_at s u t \<Longrightarrow> expenses s' = expenses s @ ins \<Longrightarrow> has_expense_at s' u t"
  by (simp add: has_expense_at_def)

lemma sync_batch_outcome:
  assumes "db_inv s" and "sync_batch P now u items tsv s = (s', r)"
  shows "db_inv s' \<and> users s' = users s \<and> (\<exists>ins. expenses s' = expenses s @ ins \<and> (\<forall>e \<in> set ins. userId e = u))"
proof (cases "expense_insert_many P now u (map (sync_doc P) (filter (\<lambda>txn. \<not> entered P (existing_times u (sync_timestamps P tsv) s) txn) items)) s")
  case (Pair s1 r1)
  from expense_insert_many_outcome [OF assms(1) Pair]
  have "db_inv s1 \<and> users s1 = users s \<and> (\<exists>ins. expenses s1 = expenses s @ ins \<and> (\<forall>e \<in> set ins. userId e = u))"
    by blast
  with assms Pair show ?thesis
    by (auto simp: sync_batch_def Let_def split: if_splits sum.splits intro: exI [of _ "[]"])
qed

lemma sync_doc_date_ok: "date_in_ok (doc_date (sync_doc P txn))"
  by (cases "txn_time P txn") (auto simp: sync_doc_def date_in_ok_def txn_time_def intro: js_new_date_valid)


lemma sync_batch_wf: "sync_batch P now u items tsv s = (s', r) \<Longrightarrow> docs_wf s \<Longrightarrow> docs_wf s'"
  by (auto simp: sync_batch_def Let_def list_all_iff sync_doc_date_ok split: if_splits prod.splits sum.splits
      elim!: expense_insert_many_wf)


lemma syncExpenses_wf: "syncExpenses P now u body s = (s', r) \<Longrightarrow> docs_wf s \<Longrightarrow> docs_wf s'"
  by (auto simp: syncExpenses_def Let_def split: option.splits if_splits elim!: sync_batch_wf)


lemma syncExpenses_db_inv: "db_inv s \<Longrightarrow> syncExpenses P now u body s = (s', r) \<Longrightarrow> db_inv s'"
  by (auto simp: syncExpenses_def Let_def split: option.splits if_splits dest: sync_batch_outcome)

text \<open>What a 201 reply of the batch step reports, in terms of the database before the call.\<close>

lemma sync_batch_Body:
  assumes th: "those (map (\<lambda>txn. js_prop txn ''timestamp'') items) = Some tsv"
    and sb: "sync_batch P now u items tsv s = (s', Body c res)"
  shows "c = 201 \<and> expenses s' = expenses s @ saved res \<and>
         alreadyEntered res = filter (already_stored P u s) items \<and>
         map (\<lambda>e. Some (date e)) (saved res) = map (txn_time P) (filter (\<lambda>txn. \<not> already_stored P u s txn) items) \<and>
         (\<forall>e \<in> set (saved res). userId e = u)"
proof -
  let ?newT = "filter (\<lambda>txn. \<not> already_stored P u s txn) items"
  let ?already = "filter (already_stored P u s) items"
  show ?thesis
  proof (cases "?newT = []")
    case True
    with sb show ?thesis by (auto simp: sync_batch_eq [OF th] sync_reply_def Let_def)
  next
    case False
    then obtain s1 ins where ins: "expense_insert_many P now u (map (sync_doc P) ?newT) s = (s1, Inr ins)"
      and res: "s' = s1" "c = 201" "res = sync_reply ins ?already"
      using sb by (auto simp: sync_batch_eq [OF th] Let_def split: prod.splits sum.splits)
    from expense_insert_many_Inr [OF ins] have ex: "expenses s1 = expenses s @ ins"
      and rel: "list_all2 (\<lambda>d e. \<exists>i. new_expense P i u now d = Inr e) (map (sync_doc P) ?newT) ins"
      by simp_all
    from rel have "list_all2 (\<lambda>txn e. txn_time P txn = Some (date e) \<and> userId e = u) ?newT ins"
      by (auto simp: list.rel_map elim!: list_all2_mono dest: sync_doc_new_expense)
    then have "list_all2 (\<lambda>txn e. txn_time P txn = Some (date e)) ?newT ins"
      and "\<forall>e \<in> set ins. userId e = u"
      by (auto elim: list_all2_mono simp: list_all2_conv_all_nth in_set_conv_nth)
    then have "map (txn_time P) ?newT = map (\<lambda>e. Some (date e)) ins" and "\<forall>e \<in> set ins. userId e = u"
      by (simp_all add: list_all2_map_eq)
    with ex res show ?thesis by (simp add: sync_reply_def)
  qed
qed

section \<open>Properties of the sync engine\<close>

text \<open>
  C1. Whatever a sync call does (succeed, reject the request, fail in validation or
  half-way through the bulk insert), the unique indexes still hold afterwards, no
  user changes, and the expense collection only grows by rows owned by the caller:
  nothing stored is updated or deleted.
\<close>

theorem syncExpenses_keeps_invariant:
  assumes "db_inv s" and "syncExpenses P now u body s = (s', r)"
  shows "db_inv s' \<and> users s' = users s \<and> (\<exists>ins. expenses s' = expenses s @ ins \<and> (\<forall>e \<in> set ins. userId e = u))"
  using assms sync_batch_outcome [OF assms(1)]
  by (auto simp: syncExpenses_def Let_def split: option.splits if_splits intro: exI [of _ "[]"])

text \<open>
  C2. Sync is idempotent: after a call that answered 201, the same request by the same
  user inserts nothing, leaves the database as it is and reports every transaction of
  the batch as already entered.
\<close>

theorem syncExpenses_idempotent:
  assumes run: "syncExpenses P now u body s = (s', Body c res)"
    and arr: "js_prop body ''transactions'' = Some (JArr items)"
  shows "syncExpenses P now' u body s' = (s', Body 201 (sync_reply [] items))"
proof -
  from syncExpenses_Body [OF run] arr obtain tsv where
    th: "those (map (\<lambda>txn. js_prop txn ''timestamp'') items) = Some tsv" and
    sb: "sync_batch P now u items tsv s = (s', Body c res)"
    by auto
  note ok = sync_batch_Body [OF th sb]
  have all: "already_stored P u s' txn" if txn: "txn \<in> set items" for txn
  proof (cases "already_stored P u s txn")
    case True
    then obtain t where "txn_time P txn = Some t" "has_expense_at s u t"
      by (auto simp: already_stored_def split: option.splits)
    with ok show ?thesis by (auto simp: already_stored_def intro: has_expense_at_append)
  next
    case False
    from ok have m: "map (\<lambda>e. Some (date e)) (saved res) =
        map (txn_time P) (filter (\<lambda>txn. \<not> already_stored P u s txn) items)"
      and own: "\<forall>e \<in> set (saved res). userId e = u"
      and ex: "expenses s' = expenses s @ saved res"
      by simp_all
    from txn False have "txn_time P txn \<in> set (map (txn_time P) (filter (\<lambda>txn. \<not> already_stored P u s txn) items))"
      by simp
    then have "txn_time P txn \<in> set (map (\<lambda>e. Some (date e)) (saved res))"
      by (simp only: m)
    then obtain e where e: "e \<in> set (saved res)" "txn_time P txn = Some (date e)"
      by auto
    with own ex have "has_expense_at s' u (date e)"
      by (auto simp: has_expense_at_def expense_key_def)
    with e show ?thesis by (simp add: already_stored_def)
  qed
  then have "filter (\<lambda>txn. \<not> already_stored P u s' txn) items = []" and
    "filter (already_stored P u s') items = items"
    by (simp_all add: filter_all_False)
  then show ?thesis
    by (simp add: syncExpenses_batch [OF arr th] sync_batch_eq [OF th] Let_def)
qed

text \<open>
  C3. A batch that repeats a timestamp the caller has no expense at: both copies pass
  the pre-check, the ordered bulk insert writes the first and fails with a duplicate
  key on the second, and the handler answers 500 although one row has been written.
  The spec's scenario expects one stored row and a report of one insertion.
\<close>

theorem syncExpenses_repeated_timestamp:
  assumes inv: "db_inv s" and fresh: "\<not> has_expense_at s u t" and rng: "\<bar>t\<bar> \<le> max_time"
  shows "syncExpenses P now u
      (JObj [(''transactions'', JArr [JObj [(''timestamp'', JNum t), (''amount'', JNum a)],
                                      JObj [(''timestamp'', JNum t), (''amount'', JNum a)]])]) s =
    (s\<lparr>expenses := expenses s @
         [\<lparr>eid = next_oid s, userId = u, category = ''unknown'', amount = a, description = None,
           date = t, sender = None, senderReceiver = Some ''Unknown'', upiTransactionId = None,
           rawMessage = None, createdAt = now, updatedAt = now\<rparr>],
       next_oid := next_oid s + 2\<rparr>,
     Msg 500 sync_server_error)"
proof -
  define tx where "tx = JObj [(''timestamp'', JNum t), (''amount'', JNum a)]"
  have tm: "txn_time P tx = Some t"
    using rng by (simp add: tx_def txn_time_def txn_prop_def time_clip_def)
  have ns: "\<not> already_stored P u s tx"
    using fresh tm by (simp add: already_stored_def)
  have th: "those (map (\<lambda>txn. js_prop txn ''timestamp'') [tx, tx]) = Some [JNum t, JNum t]"
    by (simp add: tx_def)
  have arr: "js_prop (JObj [(''transactions'', JArr [tx, tx])]) ''transactions'' = Some (JArr [tx, tx])"
    by simp
  have fresh_id: "next_oid s \<notin> eid ` set (expenses s)"
    using inv by (auto simp: db_inv_def)
  have "expense_insert_many P now u [sync_doc P tx, sync_doc P tx] s =
    (s\<lparr>expenses := expenses s @
         [\<lparr>eid = next_oid s, userId = u, category = ''unknown'', amount = a, description = None,
           date = t, sender = None, senderReceiver = Some ''Unknown'', upiTransactionId = None,
           rawMessage = None, createdAt = now, updatedAt = now\<rparr>],
       next_oid := next_oid s + 2\<rparr>, Inl DuplicateKey)"
    using tm fresh fresh_id
    by (simp add: expense_insert_many_def alloc_ids_def new_expense_def doc_errors_def path_check_def
        nonempty_str_def sync_doc_def js_or_def insert_expense_def expense_key_def has_expense_at_def
        upt_rec tx_def txn_prop_def image_iff) blast
  with ns have "syncExpenses P now u (JObj [(''transactions'', JArr [tx, tx])]) s =
    (s\<lparr>expenses := expenses s @
         [\<lparr>eid = next_oid s, userId = u, category = ''unknown'', amount = a, description = None,
           date = t, sender = None, senderReceiver = Some ''Unknown'', upiTransactionId = None,
           rawMessage = None, createdAt = now, updatedAt = now\<rparr>],
       next_oid := next_oid s + 2\<rparr>, Msg 500 sync_server_error)"
    by (simp add: syncExpenses_batch [OF arr th] sync_batch_eq [OF th] Let_def)
  then show ?thesis by (simp add: tx_def)
qed

text \<open>
  C6. A 201 reply of the sync handler: the new rows are exactly the reported ones,
  appended to the collection and owned by the caller; the echoed already-entered list is
  the batch's transactions whose instant the caller already had, in batch order; the
  saved rows are, in order, the other transactions, each stored at its timestamp.
\<close>

theorem syncExpenses_success:
  assumes run: "syncExpenses P now u body s = (s', Body c res)"
    and arr: "js_prop body ''transactions'' = Some (JArr items)"
  shows "c = 201 \<and> expenses s' = expenses s @ saved res \<and>
         alreadyEntered res = filter (already_stored P u s) items \<and>
         map (\<lambda>e. Some (date e)) (saved res) = map (txn_time P) (filter (\<lambda>txn. \<not> already_stored P u s txn) items) \<and>
         (\<forall>e \<in> set (saved res). userId e = u)"
proof -
  from syncExpenses_Body [OF run] arr obtain tsv where
    "those (map (\<lambda>txn. js_prop txn ''timestamp'') items) = Some tsv" and
    "sync_batch P now u items tsv s = (s', Body c res)"
    by auto
  then show ?thesis by (rule sync_batch_Body)
qed

text \<open>
  C7. A transaction of the batch whose timestamp does not parse is not silently
  dropped: it counts as new, its document fails validation (the \<open>date\<close> cast), and
  \<open>insertMany\<close> rejects the whole batch before writing anything; the handler answers
  500 and no expense is written, not even the valid transactions of the batch.
\<close>

theorem syncExpenses_unparseable_timestamp:
  assumes arr: "js_prop body ''transactions'' = Some (JArr items)"
    and nonnull: "\<forall>txn \<in> set items. txn \<noteq> JNull \<and> txn \<noteq> JUndef"
    and bad: "txn \<in> set items" "txn_time P txn = None"
  shows "\<exists>s'. syncExpenses P now u body s = (s', Msg 500 sync_server_error) \<and>
              expenses s' = expenses s \<and> users s' = users s"
proof -
  note th = those_no_null [OF nonnull]
  let ?newT = "filter (\<lambda>txn. \<not> already_stored P u s txn) items"
  let ?docs = "map (sync_doc P) ?newT"
  have new: "txn \<in> set ?newT" using bad by (simp add: already_stored_def)
  then have ne: "?docs \<noteq> []" by (auto simp: filter_empty_conv)
  obtain ids s1 where al: "alloc_ids s (length ?docs) = (ids, s1)" by fastforce
  then have len: "length ids = length ?docs" and s1: "expenses s1 = expenses s" "users s1 = users s"
    by (auto simp: alloc_ids_def)
  from new obtain k where k: "k < length ?newT" "?newT ! k = txn" by (meson in_set_conv_nth)
  have "zip ids ?docs ! k = (ids ! k, sync_doc P txn)" and "k < length (zip ids ?docs)"
    using k len by simp_all
  then have mem: "(ids ! k, sync_doc P txn) \<in> set (zip ids ?docs)"
    by (metis nth_mem)
  have "\<exists>err. new_expense P (ids ! k) u now (sync_doc P txn) = Inl err"
    using bad by (intro new_expense_date_fail) (simp add: sync_doc_def)
  then obtain err where "new_expense P (ids ! k) u now (sync_doc P txn) = Inl err"
    by blast
  with mem have "Inl err \<in> set (map (\<lambda>(i, d). new_expense P i u now d) (zip ids ?docs))"
    by force
  then obtain err' where "all_right (map (\<lambda>(i, d). new_expense P i u now d) (zip ids ?docs)) = Inl err'"
    by (blast dest: all_right_some_Inl)
  with al have "expense_insert_many P now u ?docs s = (s1, Inl err')"
    by (simp add: expense_insert_many_def)
  with ne s1 show ?thesis
    by (simp add: syncExpenses_batch [OF arr th] sync_batch_eq [OF th] Let_def)
qed

text \<open>
  A \<open>null\<close> element in the batch makes the first \<open>map\<close> throw a \<open>TypeError\<close>:
  the handler answers 500 and the database is untouched.
\<close>

theorem syncExpenses_null_element:
  assumes arr: "js_prop body ''transactions'' = Some (JArr items)" and nul: "JNull \<in> set items"
  shows "syncExpenses P now u body s = (s, Msg 500 sync_server_error)"
proof -
  from nul have "None \<in> set (map (\<lambda>txn. js_prop txn ''timestamp'') items)"
    by (metis image_eqI js_prop.simps(2) list.set_map)
  then have "those (map (\<lambda>txn. js_prop txn ''timestamp'') items) = None"
    by (simp add: those_None_iff)
  with arr show ?thesis by (simp add: syncExpenses_def)
qed

text \<open>
  C10. A body whose \<open>transactions\<close> is missing or not an array is rejected with 400
  and the database is untouched.
\<close>

theorem syncExpenses_array_required:
  "js_prop body ''transactions'' = Some txs \<Longrightarrow> \<not> is_array txs \<Longrightarrow>
   syncExpenses P now u body s = (s, Msg 400 sync_array_required)"
  by (simp add: syncExpenses_def)

section \<open>Witnesses\<close>

theorem syncExpenses_keeps_invariant_witness:
  "db_inv empty_db \<and>
   db_inv (fst (syncExpenses (\<lambda>_. None) 0 7
     (JObj [(''transactions'', JArr [JObj [(''timestamp'', JNum 5), (''amount'', JNum 100)]])]) empty_db))"
proof -
  have h: "db_inv empty_db" by (simp add: db_inv_def empty_db_def)
  from syncExpenses_keeps_invariant [OF h surjective_pairing] h show ?thesis by simp
qed

theorem syncExpenses_idempotent_witness:
  "syncExpenses (\<lambda>_. None) 0 7 (JObj [(''transactions'', JArr [JObj [(''timestamp'', JNum 5), (''amount'', JNum 100)]])]) empty_db =
     (\<lparr>expenses = [\<lparr>eid = 0, userId = 7, category = ''unknown'', amount = 100, description = None, date = 5,
         sender = None, senderReceiver = Some ''Unknown'', upiTransactionId = None, rawMessage = None,
         createdAt = 0, updatedAt = 0\<rparr>], users = [], next_oid = 1\<rparr>,
      Body 201 (sync_reply [\<lparr>eid = 0, userId = 7, category = ''unknown'', amount = 100, description = None,
         date = 5, sender = None, senderReceiver = Some ''Unknown'', upiTransactionId = None,
         rawMessage = None, createdAt = 0, updatedAt = 0\<rparr>] [])) \<and>
   syncExpenses (\<lambda>_. None) 1 7 (JObj [(''transactions'', JArr [JObj [(''timestamp'', JNum 5), (''amount'', JNum 100)]])])
     \<lparr>expenses = [\<lparr>eid = 0, userId = 7, category = ''unknown'', amount = 100, description = None, date = 5,
         sender = None, senderReceiver = Some ''Unknown'', upiTransactionId = None, rawMessage = None,
         createdAt = 0, updatedAt = 0\<rparr>], users = [], next_oid = 1\<rparr> =
     (\<lparr>expenses = [\<lparr>eid = 0, userId = 7, category = ''unknown'', amount = 100, description = None, date = 5,
         sender = None, senderReceiver = Some ''Unknown'', upiTransactionId = None, rawMessage = None,
         createdAt = 0, updatedAt = 0\<rparr>], users = [], next_oid = 1\<rparr>,
      Body 201 (sync_reply [] [JObj [(''timestamp'', JNum 5), (''amount'', JNum 100)]]))"
  (is "?run \<and> ?again")
proof
  show run: ?run by (simp add: sync_eval store_simps js_simps)
  show ?again by (rule syncExpenses_idempotent [OF run]) simp
qed

theorem syncExpenses_repeated_timestamp_witness:
  "syncExpenses (\<lambda>_. None) 0 7
      (JObj [(''transactions'', JArr [JObj [(''timestamp'', JNum 5), (''amount'', JNum 100)],
                                      JObj [(''timestamp'', JNum 5), (''amount'', JNum 100)]])]) empty_db =
    (\<lparr>expenses = [\<lparr>eid = 0, userId = 7, category = ''unknown'', amount = 100, description = None, date = 5,
        sender = None, senderReceiver = Some ''Unknown'', upiTransactionId = None, rawMessage = None,
        createdAt = 0, updatedAt = 0\<rparr>], users = [], next_oid = 2\<rparr>,
     Msg 500 sync_server_error)"
proof -
  have "db_inv empty_db" "\<not> has_expense_at empty_db 7 5" "\<bar>5 :: int\<bar> \<le> max_time"
    by (simp_all add: db_inv_def empty_db_def has_expense_at_def max_time_def)
  from syncExpenses_repeated_timestamp [OF this, of "\<lambda>_. None" 0 100] show ?thesis
    by (simp add: empty_db_def)
qed

theorem syncExpenses_success_witness:
  "expenses (fst (syncExpenses (\<lambda>_. None) 0 7
      (JObj [(''transactions'', JArr [JObj [(''timestamp'', JNum 5), (''amount'', JNum 100)]])]) empty_db)) =
   [\<lparr>eid = 0, userId = 7, category = ''unknown'', amount = 100, description = None, date = 5,
     sender = None, senderReceiver = Some ''Unknown'', upiTransactionId = None, rawMessage = None,
     createdAt = 0, updatedAt = 0\<rparr>]"
proof -
  have run: "syncExpenses (\<lambda>_. None) 0 7 (JObj [(''transactions'', JArr [JObj [(''timestamp'', JNum 5), (''amount'', JNum 100)]])]) empty_db =
     (\<lparr>expenses = [\<lparr>eid = 0, userId = 7, category = ''unknown'', amount = 100, description = None, date = 5,
         sender = None, senderReceiver = Some ''Unknown'', upiTransactionId = None, rawMessage = None,
         createdAt = 0, updatedAt = 0\<rparr>], users = [], next_oid = 1\<rparr>,
      Body 201 (sync_reply [\<lparr>eid = 0, userId = 7, category = ''unknown'', amount = 100, description = None,
         date = 5, sender = None, senderReceiver = Some ''Unknown'', upiTransactionId = None,
         rawMessage = None, createdAt = 0, updatedAt = 0\<rparr>] []))"
    by (simp add: sync_eval store_simps js_simps)
  have e0: "expenses empty_db = []" by (simp add: empty_db_def)
  from syncExpenses_success [OF run] show ?thesis
    by (simp add: run e0 sync_reply_def)
qed

theorem syncExpenses_unparseable_timestamp_witness:
  "\<exists>s'. syncExpenses (\<lambda>_. None) 0 7
      (JObj [(''transactions'', JArr [JObj [(''timestamp'', JNum 5), (''amount'', JNum 100)],
                                      JObj [(''timestamp'', JStr ''yesterday''), (''amount'', JNum 7)]])]) empty_db =
     (s', Msg 500 sync_server_error) \<and> expenses s' = [] \<and> users s' = []"
proof -
  have "txn_time (\<lambda>_. None) (JObj [(''timestamp'', JStr ''yesterday''), (''amount'', JNum 7)]) = None"
    by (simp add: txn_time_def txn_prop_def)
  from syncExpenses_unparseable_timestamp [OF _ _ _ this, of _ _ 0 7 empty_db] show ?thesis
    by (simp add: empty_db_def)
qed

theorem syncExpenses_null_element_witness:
  "syncExpenses (\<lambda>_. None) 0 7 (JObj [(''transactions'', JArr [JObj [(''timestamp'', JNum 5)], JNull])]) empty_db =
   (empty_db, Msg 500 sync_server_error)"
  by (rule syncExpenses_null_element [where items = "[JObj [(''timestamp'', JNum 5)], JNull]"]) simp_all

theorem syncExpenses_array_required_witness:
  "syncExpenses (\<lambda>_. None) 0 7 (JObj [(''transactions'', JStr ''none'')]) empty_db =
   (empty_db, Msg 400 sync_array_required)"
  by (rule syncExpenses_array_required [where txs = "JStr ''none''"]) simp_all

end
