(* ===== verification/Sync_Concurrent.thy ===== *)
theory Sync_Concurrent
  imports Expense_Sync
begin

text \<open>
  Concurrent sync requests. \<open>syncExpenses\<close> awaits the storage twice: the
  \<open>find\<close> of line 91 and the \<open>insertMany\<close> of line 121, whose documents the server
  inserts one at a time. Requests of the same or of different users run concurrently
  between these points (Node's event loop and the server's per-document atomicity), so
  a request is a process with three phases (\<open>sync_proc\<close>) and the system is an
  interleaving of the processes' atomic steps (\<open>sync_step\<close>). The theory proves that
  every interleaving keeps the unique indexes, that saved rows stay saved, that a
  process alone behaves as the atomic model \<open>syncExpenses\<close>, that every interleaving
  ends, and that two identical requests can race: both read before either writes, and
  the second one answers 500 although its transaction is stored.
\<close>

section \<open>Processes\<close>

text \<open>
  A request before its \<open>find\<close> (its time, caller, items and the timestamps its first
  \<open>map\<close> read), during its ordered insert (the caller, the already-entered items,
  the documents still to insert and those inserted), and answered.
\<close>

datatype sync_proc =
    SReady millis oid "jval list" "jval list"
  | SInserting oid "jval list" "expense list" "expense list"
  | SDone "sync_result response"

text \<open>The synchronous prefix of the handler, up to the first \<open>await\<close> (lines 77--88).\<close>

definition sync_start :: "date_parser \<Rightarrow> millis \<Rightarrow> oid \<Rightarrow> jval \<Rightarrow> sync_proc" where
  "sync_start P now u body =
     (case js_prop body ''transactions'' of
        None \<Rightarrow> SDone (Msg 500 sync_server_error)
      | Some txs \<Rightarrow>
          if \<not> truthy txs \<or> \<not> is_array txs then SDone (Msg 400 sync_array_required)
          else
            let items = js_items txs in
            case those (map (\<lambda>txn. js_prop txn ''timestamp'') items) of
              None \<Rightarrow> SDone (Msg 500 sync_server_error)
            | Some tsv \<Rightarrow> SReady now u items tsv)"

text \<open>
  The \<open>find\<close> and what follows it up to the first write (lines 90--121): the
  partition, the documents, their identifiers and their validation.
\<close>

definition sync_read ::
  "date_parser \<Rightarrow> millis \<Rightarrow> oid \<Rightarrow> jval list \<Rightarrow> jval list \<Rightarrow> db \<Rightarrow> sync_proc \<times> db" where
  "sync_read P now u items tsv s =
     (let ex = existing_times u (sync_timestamps P tsv) s;
          newT = filter (\<lambda>txn. \<not> entered P ex txn) items;
          already = filter (entered P ex) items;
          docs = map (sync_doc P) newT
      in if docs = [] then (SDone (Body 201 (sync_reply [] already)), s)
         else
           let (ids, s1) = alloc_ids s (length docs) in
           case all_right (map (\<lambda>(i, d). new_expense P i u now d) (zip ids docs)) of
             Inl err \<Rightarrow> (SDone (Msg 500 sync_server_error), s1)
           | Inr es \<Rightarrow> (SInserting u already es [], s1))"

text \<open>One document of the ordered insert, or the acknowledgement of the whole batch.\<close>

fun sync_insert :: "oid \<Rightarrow> jval list \<Rightarrow> expense list \<Rightarrow> expense list \<Rightarrow> db \<Rightarrow> sync_proc \<times> db" where
  "sync_insert u already [] ins s = (SDone (Body 201 (sync_reply ins already)), s)"
| "sync_insert u already (e # es) ins s =
     (case insert_expense s e of
        Inl err \<Rightarrow> (SDone (Msg 500 sync_server_error), s)
      | Inr s' \<Rightarrow> (SInserting u already es (ins @ [e]), s'))"

fun proc_step :: "date_parser \<Rightarrow> sync_proc \<Rightarrow> db \<Rightarrow> sync_proc \<times> db" where
  "proc_step P (SReady now u items tsv) s = sync_read P now u items tsv s"
| "proc_step P (SInserting u already es ins) s = sync_insert u already es ins s"
| "proc_step P (SDone r) s = (SDone r, s)"

fun is_done :: "sync_proc \<Rightarrow> bool" where
  "is_done (SDone r) = True"
| "is_done p = False"

section \<open>Interleavings\<close>

inductive sync_step :: "date_parser \<Rightarrow> db \<times> sync_proc list \<Rightarrow> db \<times> sync_proc list \<Rightarrow> bool"
  for P :: date_parser where
  step: "i < length ps \<Longrightarrow> \<not> is_done (ps ! i) \<Longrightarrow> proc_step P (ps ! i) s = (p', s') \<Longrightarrow>
         sync_step P (s, ps) (s', ps[i := p'])"

inductive_cases sync_stepE: "sync_step P st st'"

text \<open>
  The documents a process still has to insert, the rows it has inserted, and the work
  it has left (every step lowers it).
\<close>

fun pending :: "sync_proc \<Rightarrow> expense list" where
  "pending (SInserting u already es ins) = es"
| "pending p = []"

fun inserted :: "sync_proc \<Rightarrow> expense list" where
  "inserted (SInserting u already es ins) = ins"
| "inserted (SDone (Body c r)) = saved r"
| "inserted p = []"

fun work :: "sync_proc \<Rightarrow> nat" where
  "work (SReady now u items tsv) = length items + 2"
| "work (SInserting u already es ins) = length es + 1"
| "work (SDone r) = 0"

definition conc_inv :: "db \<times> sync_proc list \<Rightarrow> bool" where
  "conc_inv st \<longleftrightarrow> db_inv (fst st) \<and> list_all (\<lambda>p. list_all (\<lambda>e. eid e < next_oid (fst st)) (pending p)) (snd st)"

definition durable :: "db \<times> sync_proc list \<Rightarrow> bool" where
  "durable st \<longleftrightarrow> list_all (\<lambda>p. set (inserted p) \<subseteq> set (expenses (fst st))) (snd st)"

text \<open>
  The identifiers of the stored rows and of the documents waiting to be inserted; each
  occurs once (a fresh \<open>ObjectId\<close> is never reused), so an insert never fails on
  \<open>_id\<close>.
\<close>

definition all_ids :: "db \<times> sync_proc list \<Rightarrow> oid multiset" where
  "all_ids st = mset (map eid (expenses (fst st))) + sum_list (map (\<lambda>p. mset (map eid (pending p))) (snd st))"

section \<open>Identical requests racing\<close>

text \<open>
  The states a request with one transaction (instant \<open>t\<close>, caller \<open>u\<close>) can be in
  while copies of it run concurrently: before its \<open>find\<close> (\<open>r\<close>), holding the
  document for \<open>(u, t)\<close>, having written it, or answered. While no row for
  \<open>(u, t)\<close> is stored every copy is still waiting; once it is stored, some copy wrote
  it and answers, or has answered, 201.
\<close>

definition race_ok :: "oid \<Rightarrow> millis \<Rightarrow> sync_proc \<Rightarrow> sync_proc \<Rightarrow> bool" where
  "race_ok u t r p \<longleftrightarrow>
     p = r \<or> (\<exists>e. p = SInserting u [] [e] [] \<and> expense_key e = (u, t)) \<or> (\<exists>e. p = SInserting u [] [] [e]) \<or>
     p = SDone (Msg 500 sync_server_error) \<or> (\<exists>res. p = SDone (Body 201 res))"

definition race_waiting :: "oid \<Rightarrow> millis \<Rightarrow> sync_proc \<Rightarrow> sync_proc \<Rightarrow> bool" where
  "race_waiting u t r p \<longleftrightarrow> p = r \<or> (\<exists>e. p = SInserting u [] [e] [] \<and> expense_key e = (u, t))"

definition race_winner :: "sync_proc \<Rightarrow> bool" where
  "race_winner p \<longleftrightarrow> (\<exists>u e. p = SInserting u [] [] [e]) \<or> (\<exists>res. p = SDone (Body 201 res))"

definition race_inv :: "oid \<Rightarrow> millis \<Rightarrow> sync_proc \<Rightarrow> db \<times> sync_proc list \<Rightarrow> bool" where
  "race_inv u t r st \<longleftrightarrow>
     conc_inv st \<and> (\<forall>x. count (all_ids st) x \<le> 1) \<and> list_all (race_ok u t r) (snd st) \<and>
     (has_expense_at (fst st) u t \<or> list_all (race_waiting u t r) (snd st)) \<and>
     (has_expense_at (fst st) u t \<longrightarrow> list_ex race_winner (snd st))"

section \<open>Lemmas: one step of one process\<close>

lemma sync_read_cases:
  assumes "sync_read P now u items tsv s = (p', s')"
  shows "(s' = s \<and> pending p' = [] \<and> inserted p' = []) \<or>
         (\<exists>ids es. alloc_ids s (length (filter (\<lambda>txn. \<not> entered P (existing_times u (sync_timestamps P tsv) s) txn) items)) = (ids, s') \<and>
            (p' = SDone (Msg 500 sync_server_error) \<or>
             (\<exists>already. p' = SInserting u already es [] \<and>
                all_right (map (\<lambda>(i, d). new_expense P i u now d)
                  (zip ids (map (sync_doc P) (filter (\<lambda>txn. \<not> entered P (existing_times u (sync_timestamps P tsv) s) txn) items)))) = Inr es)))"
  using assms by (auto simp: sync_read_def Let_def sync_reply_def split: if_splits prod.splits sum.splits)

lemma proc_step_inv:
  assumes inv: "db_inv s" and pend: "list_all (\<lambda>e. eid e < next_oid s) (pending p)"
    and run: "proc_step P p s = (p', s')"
  shows "db_inv s' \<and> next_oid s \<le> next_oid s' \<and> list_all (\<lambda>e. eid e < next_oid s') (pending p') \<and>
         (\<exists>xs. expenses s' = expenses s @ xs \<and> set (inserted p') \<subseteq> set (inserted p) \<union> set xs)"
proof (cases p)
  case (SReady now u items tsv)
  with run have r: "sync_read P now u items tsv s = (p', s')" by simp
  show ?thesis
    using sync_read_cases [OF r]
  proof
    assume "s' = s \<and> pending p' = [] \<and> inserted p' = []"
    with inv show ?thesis by auto
  next
    let ?n = "length (filter (\<lambda>txn. \<not> entered P (existing_times u (sync_timestamps P tsv) s) txn) items)"
    assume "\<exists>ids es. alloc_ids s ?n = (ids, s') \<and>
            (p' = SDone (Msg 500 sync_server_error) \<or>
             (\<exists>already. p' = SInserting u already es [] \<and>
                all_right (map (\<lambda>(i, d). new_expense P i u now d)
                  (zip ids (map (sync_doc P) (filter (\<lambda>txn. \<not> entered P (existing_times u (sync_timestamps P tsv) s) txn) items)))) = Inr es))"
    then obtain ids es where al: "alloc_ids s ?n = (ids, s')"
      and p': "p' = SDone (Msg 500 sync_server_error) \<or>
             (\<exists>already. p' = SInserting u already es [] \<and>
                all_right (map (\<lambda>(i, d). new_expense P i u now d)
                  (zip ids (map (sync_doc P) (filter (\<lambda>txn. \<not> entered P (existing_times u (sync_timestamps P tsv) s) txn) items)))) = Inr es)"
      by blast
    note a = alloc_ids_inv [OF inv al]
    have le: "next_oid s \<le> next_oid s'" using al by (auto simp: alloc_ids_def)
    have "list_all (\<lambda>e. eid e < next_oid s') (pending p')"
      using p'
    proof
      assume "\<exists>already. p' = SInserting u already es [] \<and>
                all_right (map (\<lambda>(i, d). new_expense P i u now d)
                  (zip ids (map (sync_doc P) (filter (\<lambda>txn. \<not> entered P (existing_times u (sync_timestamps P tsv) s) txn) items)))) = Inr es"
      then obtain already where pe: "p' = SInserting u already es []"
        and ar: "all_right (map (\<lambda>(i, d). new_expense P i u now d)
                  (zip ids (map (sync_doc P) (filter (\<lambda>txn. \<not> entered P (existing_times u (sync_timestamps P tsv) s) txn) items)))) = Inr es"
        by blast
      from new_expenses_ids [OF ar] have "eid ` set es \<subseteq> set ids"
        by (metis image_set set_take_subset)
      with a pe show ?thesis by (auto simp: list_all_iff)
    qed simp
    moreover have "set (inserted p') \<subseteq> set (inserted p) \<union> set []" using p' by auto
    ultimately show ?thesis using a le by simp
  qed
next
  case (SInserting u already es ins)
  show ?thesis
  proof (cases es)
    case Nil
    with SInserting run inv show ?thesis by (auto simp: sync_reply_def)
  next
    case (Cons e es')
    show ?thesis
    proof (cases "insert_expense s e")
      case (Inl err)
      with SInserting Cons run inv show ?thesis by auto
    next
      case (Inr s1)
      with SInserting Cons run have s': "s' = s1" and p': "p' = SInserting u already es' (ins @ [e])" by auto
      have lt: "eid e < next_oid s" using pend SInserting Cons by simp
      from insert_expense_inv [OF inv lt Inr] have "db_inv s1" .
      moreover note insert_expense_Inr [OF Inr]
      ultimately show ?thesis using s' p' pend SInserting Cons by auto
    qed
  qed
next
  case (SDone r)
  with run inv pend show ?thesis by auto
qed

lemma sync_step_conc_inv:
  assumes "sync_step P st st'" and "conc_inv st"
  shows "conc_inv st'"
  using assms(1)
proof cases
  case (step i ps s p s')
  have inv: "db_inv s" and pall: "list_all (\<lambda>p. list_all (\<lambda>e. eid e < next_oid s) (pending p)) ps"
    using assms(2) step(1) by (simp_all add: conc_inv_def)
  have "list_all (\<lambda>e. eid e < next_oid s) (pending (ps ! i))"
    using pall step(3) by (simp add: list_all_length)
  note r = proc_step_inv [OF inv this step(5)]
  have "list_all (\<lambda>p. list_all (\<lambda>e. eid e < next_oid s') (pending p)) ps"
    using pall r by (fastforce simp: list_all_iff)
  then have "list_all (\<lambda>p. list_all (\<lambda>e. eid e < next_oid s') (pending p)) (ps[i := p])"
    using r by (simp add: list_all_update_weaken)
  with r step(2) show ?thesis by (simp add: conc_inv_def)
qed

lemma sync_step_durable:
  assumes "sync_step P st st'" and "conc_inv st" and "durable st"
  shows "durable st'"
  using assms(1)
proof cases
  case (step i ps s p s')
  have inv: "db_inv s" and pall: "list_all (\<lambda>p. list_all (\<lambda>e. eid e < next_oid s) (pending p)) ps"
    using assms(2) step(1) by (simp_all add: conc_inv_def)
  have "list_all (\<lambda>e. eid e < next_oid s) (pending (ps ! i))"
    using pall step(3) by (simp add: list_all_length)
  from proc_step_inv [OF inv this step(5)] obtain xs where
    grow: "expenses s' = expenses s @ xs" and ins: "set (inserted p) \<subseteq> set (inserted (ps ! i)) \<union> set xs"
    by blast
  have dur: "list_all (\<lambda>p. set (inserted p) \<subseteq> set (expenses s)) ps"
    using assms(3) step(1) by (simp add: durable_def)
  then have "set (inserted (ps ! i)) \<subseteq> set (expenses s)" using step(3) by (simp add: list_all_length)
  with ins grow have "set (inserted p) \<subseteq> set (expenses s')" by auto
  moreover have "list_all (\<lambda>p. set (inserted p) \<subseteq> set (expenses s')) ps"
    using dur grow by (auto simp: list_all_iff)
  ultimately have "list_all (\<lambda>p. set (inserted p) \<subseteq> set (expenses s')) (ps[i := p])"
    by (simp add: list_all_update_weaken)
  with step(2) show ?thesis by (simp add: durable_def)
qed

lemma sync_reach_inv:
  "(sync_step P)\<^sup>*\<^sup>* st st' \<Longrightarrow> conc_inv st \<Longrightarrow> conc_inv st' \<and> (durable st \<longrightarrow> durable st')"
  by (induction rule: rtranclp_induct) (auto intro: sync_step_conc_inv sync_step_durable)

lemma proc_step_work:
  assumes "\<not> is_done p" and "proc_step P p s = (p', s')"
  shows "work p' < work p"
proof (cases p)
  case (SReady now u items tsv)
  with assms(2) have r: "sync_read P now u items tsv s = (p', s')" by simp
  show ?thesis
  proof (cases p')
    case (SInserting u' already es ins)
    with r obtain ids where
      ar: "all_right (map (\<lambda>(i, d). new_expense P i u now d)
             (zip ids (map (sync_doc P) (filter (\<lambda>txn. \<not> entered P (existing_times u (sync_timestamps P tsv) s) txn) items)))) = Inr es"
      by (auto simp: sync_read_def Let_def split: if_splits prod.splits sum.splits)
    from new_expenses_ids [OF ar] have "length es \<le> length items"
      by (metis (no_types, lifting) le_trans length_filter_le length_map min.cobounded2)
    with SReady SInserting show ?thesis by simp
  qed (use SReady r in \<open>auto simp: sync_read_def Let_def split: if_splits prod.splits sum.splits\<close>)
next
  case (SInserting u already es ins)
  with assms(2) show ?thesis by (cases es) (auto split: sum.splits)
qed (use assms(1) in simp)

lemma sync_step_work:
  "sync_step P st st' \<Longrightarrow> sum_list (map work (snd st')) < sum_list (map work (snd st))"
proof (induction rule: sync_step.induct)
  case (step i ps s p' s')
  from proc_step_work [OF step(2,3)] sum_list_update [OF step(1), of work p'] show ?case by simp
qed

lemma sync_step_length: "sync_step P st st' \<Longrightarrow> length (snd st') = length (snd st)"
  by (induction rule: sync_step.induct) simp

lemma sync_alone_step: "\<not> is_done p \<Longrightarrow> proc_step P p s = (p', s') \<Longrightarrow> sync_step P (s, [p]) (s', [p'])"
  using sync_step.step [of 0 "[p]" P s p' s'] by simp

lemma sync_step_at:
  "i < length ps \<Longrightarrow> \<not> is_done (ps ! i) \<Longrightarrow> proc_step P (ps ! i) s = (p', s') \<Longrightarrow> ps' = ps[i := p'] \<Longrightarrow>
   sync_step P (s, ps) (s', ps')"
  using sync_step.step by blast

lemma insert_run:
  "insert_ordered s es = (s', r) \<Longrightarrow>
   (sync_step P)\<^sup>*\<^sup>* (s, [SInserting u already es ins])
     (s', [SDone (case r of Inl err \<Rightarrow> Msg 500 sync_server_error | Inr es' \<Rightarrow> Body 201 (sync_reply (ins @ es') already))])"
proof (induction s es arbitrary: ins s' r rule: insert_ordered.induct)
  case (1 s)
  then show ?case using sync_alone_step [of "SInserting u already [] ins" P s] by auto
next
  case (2 s e es)
  show ?case
  proof (cases "insert_expense s e")
    case (Inl err)
    with "2.prems" show ?thesis using sync_alone_step [of "SInserting u already (e # es) ins" P s] by auto
  next
    case (Inr s1)
    obtain s2 r2 where rec: "insert_ordered s1 es = (s2, r2)" by fastforce
    have first: "sync_step P (s, [SInserting u already (e # es) ins]) (s1, [SInserting u already es (ins @ [e])])"
      using Inr sync_alone_step [of "SInserting u already (e # es) ins" P s] by simp
    from "2.IH" [OF Inr rec, of "ins @ [e]"] have
      "(sync_step P)\<^sup>*\<^sup>* (s1, [SInserting u already es (ins @ [e])])
         (s2, [SDone (case r2 of Inl err \<Rightarrow> Msg 500 sync_server_error | Inr es' \<Rightarrow> Body 201 (sync_reply ((ins @ [e]) @ es') already))])" .
    moreover have "s' = s2" "r = (case r2 of Inl err \<Rightarrow> Inl err | Inr es' \<Rightarrow> Inr (e # es'))"
      using "2.prems" Inr rec by (auto split: sum.splits)
    ultimately show ?thesis using first by (auto split: sum.splits intro: converse_rtranclp_into_rtranclp)
  qed
qed

lemma sync_batch_run:
  "(sync_step P)\<^sup>*\<^sup>* (s, [SReady now u items tsv])
     (fst (sync_batch P now u items tsv s), [SDone (snd (sync_batch P now u items tsv s))])"
proof -
  define ex where "ex = existing_times u (sync_timestamps P tsv) s"
  define docs where "docs = map (sync_doc P) (filter (\<lambda>txn. \<not> entered P ex txn) items)"
  define already where "already = filter (entered P ex) items"
  obtain ids s1 where al: "alloc_ids s (length docs) = (ids, s1)" by fastforce
  show ?thesis
  proof (cases "docs = []")
    case True
    then have "sync_step P (s, [SReady now u items tsv]) (s, [SDone (Body 201 (sync_reply [] already))])"
      using sync_alone_step [of "SReady now u items tsv" P s]
      by (simp add: sync_read_def Let_def ex_def docs_def already_def)
    moreover have "sync_batch P now u items tsv s = (s, Body 201 (sync_reply [] already))"
      using True by (simp add: sync_batch_def Let_def ex_def docs_def already_def)
    ultimately show ?thesis by simp
  next
    case False
    show ?thesis
    proof (cases "all_right (map (\<lambda>(i, d). new_expense P i u now d) (zip ids docs))")
      case (Inl err)
      have "sync_step P (s, [SReady now u items tsv]) (s1, [SDone (Msg 500 sync_server_error)])"
        using sync_alone_step [of "SReady now u items tsv" P s] False al Inl
        by (simp add: sync_read_def Let_def ex_def docs_def already_def)
      moreover have "sync_batch P now u items tsv s = (s1, Msg 500 sync_server_error)"
        using False al Inl by (simp add: sync_batch_def expense_insert_many_def Let_def ex_def docs_def already_def)
      ultimately show ?thesis by simp
    next
      case (Inr es)
      obtain s' r where ins: "insert_ordered s1 es = (s', r)" by fastforce
      have first: "sync_step P (s, [SReady now u items tsv]) (s1, [SInserting u already es []])"
        using sync_alone_step [of "SReady now u items tsv" P s] False al Inr
        by (simp add: sync_read_def Let_def ex_def docs_def already_def)
      have b: "sync_batch P now u items tsv s =
          (s', case r of Inl err \<Rightarrow> Msg 500 sync_server_error | Inr ins \<Rightarrow> Body 201 (sync_reply ins already))"
        using False al Inr ins
        by (simp add: sync_batch_def expense_insert_many_def Let_def ex_def docs_def already_def split: sum.splits)
      from insert_run [OF ins, of P u already "[]"] first b show ?thesis
        by (auto intro: converse_rtranclp_into_rtranclp split: sum.splits)
    qed
  qed
qed

section \<open>Lemmas: identical requests\<close>

lemma proc_step_ids:
  assumes run: "proc_step P p s = (p', s')"
  shows "(mset (map eid (expenses s')) + mset (map eid (pending p')) \<subseteq>#
            mset (map eid (expenses s)) + mset (map eid (pending p))) \<or>
         (\<exists>ids. expenses s' = expenses s \<and> pending p = [] \<and> mset (map eid (pending p')) = mset ids \<and> distinct ids \<and>
            (\<forall>i \<in> set ids. next_oid s \<le> i))"
proof (cases p)
  case (SReady now u items tsv)
  with run have r: "sync_read P now u items tsv s = (p', s')" by simp
  show ?thesis
  proof (cases p')
    case (SInserting u' already es ins)
    with r obtain ids where al: "alloc_ids s (length (filter (\<lambda>txn. \<not> entered P (existing_times u (sync_timestamps P tsv) s) txn) items)) = (ids, s')"
      and ar: "all_right (map (\<lambda>(i, d). new_expense P i u now d)
             (zip ids (map (sync_doc P) (filter (\<lambda>txn. \<not> entered P (existing_times u (sync_timestamps P tsv) s) txn) items)))) = Inr es"
      by (auto simp: sync_read_def Let_def split: if_splits prod.splits sum.splits)
    from new_expenses_ids [OF ar] al have "map eid es = ids"
      by (auto simp: alloc_ids_def)
    moreover have "expenses s' = expenses s" "distinct ids" "\<forall>i \<in> set ids. next_oid s \<le> i"
      using al by (auto simp: alloc_ids_def)
    ultimately show ?thesis using SReady SInserting by auto
  qed (use SReady r in \<open>auto simp: sync_read_def Let_def alloc_ids_def split: if_splits prod.splits sum.splits\<close>)
next
  case (SInserting u already es ins)
  show ?thesis
  proof (cases es)
    case Nil
    with SInserting run show ?thesis by auto
  next
    case (Cons e es')
    with SInserting run show ?thesis
      by (cases "insert_expense s e") (auto dest!: insert_expense_Inr)
  qed
qed (use run in auto)

lemma all_ids_bound:
  assumes "conc_inv st"
  shows "\<forall>x \<in># all_ids st. x < next_oid (fst st)"
  using assms by (auto simp: all_ids_def conc_inv_def db_inv_def set_mset_sum_list list_all_iff)

lemma sync_step_ids:
  assumes "sync_step P st st'" and "conc_inv st" and "\<forall>x. count (all_ids st) x \<le> 1"
  shows "\<forall>x. count (all_ids st') x \<le> 1"
  using assms(1)
proof cases
  case (step i ps s p' s')
  let ?f = "\<lambda>p. mset (map eid (pending p))"
  let ?E = "mset (map eid (expenses s))" and ?E' = "mset (map eid (expenses s'))"
  let ?A = "sum_list (map ?f ps)" and ?A' = "sum_list (map ?f (ps[i := p']))"
  have upd: "?A' + ?f (ps ! i) = ?A + ?f p'" using sum_list_update [OF step(3), of ?f p'] .
  have old: "all_ids st = ?E + ?A" and new: "all_ids st' = ?E' + ?A'" using step(1,2) by (simp_all add: all_ids_def)
  show ?thesis
    using proc_step_ids [OF step(5)]
  proof
    assume sub: "?E' + ?f p' \<subseteq># ?E + ?f (ps ! i)"
    have "(?E' + ?A') + ?f (ps ! i) = (?E' + ?f p') + ?A" using upd by (simp add: add_ac)
    also have "\<dots> \<subseteq># (?E + ?f (ps ! i)) + ?A" using sub by (rule subset_mset.add_right_mono)
    finally have "?E' + ?A' \<subseteq># ?E + ?A" by (simp add: add_ac)
    with assms(3) old new show ?thesis by (metis subseteq_mset_def order_trans)
  next
    assume "\<exists>ids. expenses s' = expenses s \<and> pending (ps ! i) = [] \<and> ?f p' = mset ids \<and> distinct ids \<and>
              (\<forall>i \<in> set ids. next_oid s \<le> i)"
    then obtain ids where e: "expenses s' = expenses s" and z: "pending (ps ! i) = []" and f: "?f p' = mset ids"
      and d: "distinct ids" and ge: "\<forall>i \<in> set ids. next_oid s \<le> i" by blast
    have eq: "all_ids st' = all_ids st + mset ids" using old new upd e z f by (simp add: add_ac)
    have "\<forall>x \<in># all_ids st. x < next_oid s" using all_ids_bound [OF assms(2)] step(1) by simp
    with ge have out: "x \<in> set ids \<Longrightarrow> count (all_ids st) x = 0" for x
      by (meson count_eq_zero_iff leD)
    have "count (all_ids st') x \<le> 1" for x
    proof (cases "x \<in> set ids")
      case True
      with d out show ?thesis by (simp add: eq distinct_count_atmost_1)
    next
      case False
      then have c: "count (mset ids) x = 0" by simp
      show ?thesis unfolding eq count_union c using assms(3) by simp
    qed
    then show ?thesis by blast
  qed
qed

lemma pending_count:
  assumes "p \<in> set ps" and "e \<in> set (pending p)"
  shows "count (mset (map eid (expenses s))) (eid e) + 1 \<le> count (all_ids (s, ps)) (eid e)"
proof -
  let ?f = "\<lambda>p. mset (map eid (pending p))"
  have eq: "sum_list (map ?f ps) = ?f p + sum_list (map ?f (remove1 p ps))"
    using assms(1) by (rule sum_list_map_remove1)
  have c: "1 \<le> count (?f p) (eid e)" using assms(2) by (simp add: Suc_le_eq)
  show ?thesis using c by (simp only: all_ids_def fst_conv snd_conv count_union eq)
qed

lemma sync_start_single:
  "js_prop txn ''timestamp'' = Some tv \<Longrightarrow>
   sync_start P now u (JObj [(''transactions'', JArr [txn])]) = SReady now u [txn] [tv]"
  by (simp add: sync_start_def)

lemma race_read:
  assumes tv: "js_prop txn ''timestamp'' = Some tv" and t: "js_new_date P tv = Some t"
    and ok: "doc_errors P (sync_doc P txn) = []"
  shows "(has_expense_at s u t \<longrightarrow> sync_read P now u [txn] [tv] s = (SDone (Body 201 (sync_reply [] [txn])), s)) \<and>
         (\<not> has_expense_at s u t \<longrightarrow> (\<exists>e. sync_read P now u [txn] [tv] s = (SInserting u [] [e] [], s\<lparr>next_oid := next_oid s + 1\<rparr>) \<and>
              expense_key e = (u, t) \<and> eid e = next_oid s))"
proof -
  have tt: "txn_time P txn = Some t" using tv t by (simp add: txn_time_def txn_prop_def)
  have ex: "existing_times u (sync_timestamps P [tv]) s = (if has_expense_at s u t then {t} else {})"
    using t by (auto simp: existing_times_def sync_timestamps_def find_by_dates_def has_expense_at_def
                          expense_key_def image_iff)
  obtain e where ne: "new_expense P (next_oid s) u now (sync_doc P txn) = Inr e"
    using new_expense_valid [OF ok] by blast
  from new_expense_Inr [OF ne] tt have e: "eid e = next_oid s" "userId e = u" "date e = t"
    by (simp_all add: sync_doc_def)
  show ?thesis
    using ex ne e tt by (auto simp: sync_read_def entered_def alloc_ids_def expense_key_def)
qed

lemma race_step:
  assumes tv: "js_prop txn ''timestamp'' = Some tv" and t: "js_new_date P tv = Some t"
    and ok: "doc_errors P (sync_doc P txn) = []"
    and inv: "race_inv u t (SReady now u [txn] [tv]) st" and st: "sync_step P st st'"
  shows "race_inv u t (SReady now u [txn] [tv]) st'"
  using st
proof cases
  case (step i ps s p' s')
  let ?R = "SReady now u [txn] [tv]"
  have ci: "conc_inv (s, ps)" and cnt: "\<forall>x. count (all_ids (s, ps)) x \<le> 1"
    and oks: "list_all (race_ok u t ?R) ps"
    and wait: "has_expense_at s u t \<or> list_all (race_waiting u t ?R) ps"
    and win: "has_expense_at s u t \<longrightarrow> list_ex race_winner ps"
    using inv step(1) by (simp_all add: race_inv_def)
  have ci0: "conc_inv st" and cnt0: "\<forall>x. count (all_ids st) x \<le> 1" using inv by (simp_all add: race_inv_def)
  have ci': "conc_inv (s', ps[i := p'])" using sync_step_conc_inv [OF st ci0] step(2) by simp
  have cnt': "\<forall>x. count (all_ids (s', ps[i := p'])) x \<le> 1" using sync_step_ids [OF st ci0 cnt0] step(2) by simp
  have inv_s: "db_inv s" and pend: "list_all (\<lambda>e. eid e < next_oid s) (pending (ps ! i))"
    using ci step(3) by (simp_all add: conc_inv_def list_all_length)
  obtain xs where grow: "expenses s' = expenses s @ xs"
    using proc_step_inv [OF inv_s pend step(5)] by blast
  have keep: "has_expense_at s u t \<Longrightarrow> has_expense_at s' u t"
    using grow by (simp add: has_expense_at_def)
  have pi: "race_ok u t ?R (ps ! i)" using oks step(3) by (simp add: list_all_length)
  have other: "p \<in> set ps \<Longrightarrow> race_winner p \<Longrightarrow> \<not> race_winner (ps ! i) \<Longrightarrow> list_ex race_winner (ps[i := p'])" for p
    using in_set_update_other [of p ps i p'] by (auto simp: list_ex_iff)
  have new_at: "p' \<in> set (ps[i := p'])" using step(3) by (simp add: set_update_memI)
  show ?thesis
    using pi
  proof (simp only: race_ok_def, elim disjE exE conjE)
    assume R: "ps ! i = ?R"
    show ?thesis
    proof (cases "has_expense_at s u t")
      case True
      with race_read [OF tv t ok] R step(5) have "p' = SDone (Body 201 (sync_reply [] [txn]))" "s' = s" by auto
      moreover have "list_all (race_ok u t ?R) (ps[i := p'])"
        using oks by (rule list_all_update_weaken) (simp add: race_ok_def calculation)
      moreover have "list_ex race_winner (ps[i := p'])"
        using new_at calculation(1) by (auto simp: list_ex_iff race_winner_def)
      ultimately show ?thesis using ci' cnt' True step(2) by (simp add: race_inv_def)
    next
      case False
      with race_read [OF tv t ok, of s u now] R step(5) obtain e where
        pe: "p' = SInserting u [] [e] []" "s' = s\<lparr>next_oid := next_oid s + 1\<rparr>" "expense_key e = (u, t)" by auto
      have "list_all (race_ok u t ?R) (ps[i := p'])"
        using oks by (rule list_all_update_weaken) (simp add: race_ok_def pe)
      moreover have "list_all (race_waiting u t ?R) (ps[i := p'])"
      proof (rule list_all_update_weaken)
        show "list_all (race_waiting u t ?R) ps" using wait False by simp
        show "race_waiting u t ?R p'" using pe by (simp add: race_waiting_def)
      qed
      moreover have "\<not> has_expense_at s' u t" using False pe by (simp add: has_expense_at_def)
      ultimately show ?thesis using ci' cnt' step(2) by (simp add: race_inv_def)
    qed
  next
    fix e assume P1: "ps ! i = SInserting u [] [e] []" and key: "expense_key e = (u, t)"
    show ?thesis
    proof (cases "insert_expense s e")
      case (Inl err)
      with P1 step(5) have pe: "p' = SDone (Msg 500 sync_server_error)" "s' = s" by auto
      have "ps ! i \<in> set ps" using step(3) by simp
      moreover have "e \<in> set (pending (ps ! i))" using P1 by simp
      ultimately have "count (mset (map eid (expenses s))) (eid e) + 1 \<le> count (all_ids (s, ps)) (eid e)"
        by (rule pending_count)
      moreover have "count (all_ids (s, ps)) (eid e) \<le> 1" using cnt by blast
      ultimately have "count (mset (map eid (expenses s))) (eid e) = 0" by linarith
      then have "eid e \<notin> set (map eid (expenses s))" by (metis count_mset_0_iff)
      with Inl have "has_expense_at s u t" using key by (auto simp: insert_expense_def has_expense_at_def split: if_splits)
      moreover have "list_all (race_ok u t ?R) (ps[i := p'])"
        using oks by (rule list_all_update_weaken) (simp add: race_ok_def pe)
      moreover have "list_ex race_winner (ps[i := p'])"
      proof -
        from win calculation(1) obtain p where "p \<in> set ps" "race_winner p" by (auto simp: list_ex_iff)
        moreover have "\<not> race_winner (ps ! i)" using P1 by (simp add: race_winner_def)
        ultimately show ?thesis by (rule other)
      qed
      ultimately show ?thesis using ci' cnt' pe step(2) by (simp add: race_inv_def)
    next
      case (Inr s1)
      with P1 step(5) have pe: "p' = SInserting u [] [] [e]" "s' = s1" by auto
      have hs: "has_expense_at s' u t" using insert_expense_Inr [OF Inr] pe key by (simp add: has_expense_at_def)
      have "list_all (race_ok u t ?R) (ps[i := p'])"
        using oks by (rule list_all_update_weaken) (simp add: race_ok_def pe)
      moreover have "list_ex race_winner (ps[i := p'])" using new_at pe by (auto simp: list_ex_iff race_winner_def)
      ultimately show ?thesis using ci' cnt' hs step(2) by (simp add: race_inv_def)
    qed
  next
    fix e assume P2: "ps ! i = SInserting u [] [] [e]"
    with step(5) have pe: "p' = SDone (Body 201 (sync_reply [e] []))" "s' = s" by auto
    have "has_expense_at s u t"
      using wait step(3) P2 by (auto simp: list_all_length race_waiting_def)
    moreover have "list_all (race_ok u t ?R) (ps[i := p'])"
      using oks by (rule list_all_update_weaken) (simp add: race_ok_def pe)
    moreover have "list_ex race_winner (ps[i := p'])" using new_at pe by (auto simp: list_ex_iff race_winner_def)
    ultimately show ?thesis using ci' cnt' pe step(2) by (simp add: race_inv_def)
  next
    assume "ps ! i = SDone (Msg 500 sync_server_error)"
    with step(4) show ?thesis by simp
  next
    fix res assume "ps ! i = SDone (Body 201 res)"
    with step(4) show ?thesis by simp
  qed
qed

section \<open>Properties of concurrent syncs\<close>

text \<open>
  C21. Whatever the interleaving of concurrent sync requests (of one user or of several), the unique indexes and the freshness of identifiers hold in every reachable state, and a row a request has inserted, or reported as saved, stays stored.
\<close>

theorem sync_concurrent_invariant:
  assumes "db_inv s" and "list_all (\<lambda>p. pending p = [] \<and> inserted p = []) ps"
    and "(sync_step P)\<^sup>*\<^sup>* (s, ps) (s', ps')"
  shows "db_inv s' \<and> list_all (\<lambda>p. set (inserted p) \<subseteq> set (expenses s')) ps'"
proof -
  have "conc_inv (s, ps)" "durable (s, ps)" using assms(1,2) by (auto simp: conc_inv_def durable_def list_all_iff)
  with sync_reach_inv [OF assms(3)] show ?thesis by (simp add: conc_inv_def durable_def)
qed




text \<open>
  C25. Two identical requests can race: both read before either writes, the first one stores the row and answers 201, and the second fails on the unique index and answers the generic 500. The spec asks for a \<open>ConflictError\<close> that the caller can tell apart from a server error.
\<close>

theorem concurrent_sync_conflict:
  "(sync_step (\<lambda>_. None))\<^sup>*\<^sup>*
     (empty_db, [sync_start (\<lambda>_. None) 0 7 (JObj [(''transactions'', JArr [JObj [(''timestamp'', JNum 5), (''amount'', JNum 100)]])]),
                 sync_start (\<lambda>_. None) 0 7 (JObj [(''transactions'', JArr [JObj [(''timestamp'', JNum 5), (''amount'', JNum 100)]])])])
     (\<lparr>expenses = [\<lparr>eid = 0, userId = 7, category = ''unknown'', amount = 100, description = None, date = 5,
         sender = None, senderReceiver = Some ''Unknown'', upiTransactionId = None, rawMessage = None,
         createdAt = 0, updatedAt = 0\<rparr>], users = [], next_oid = 2\<rparr>,
      [SDone (Body 201 (sync_reply [\<lparr>eid = 0, userId = 7, category = ''unknown'', amount = 100, description = None, date = 5,
         sender = None, senderReceiver = Some ''Unknown'', upiTransactionId = None, rawMessage = None,
         createdAt = 0, updatedAt = 0\<rparr>] [])),
       SDone (Msg 500 sync_server_error)])"
  (is "(sync_step ?P)\<^sup>*\<^sup>* (empty_db, [?p, ?p]) ?fin")
proof -
  let ?T = "JObj [(''timestamp'', JNum 5), (''amount'', JNum 100)]"
  let ?e = "\<lambda>i. \<lparr>eid = i, userId = 7, category = ''unknown'', amount = 100, description = None, date = 5,
         sender = None, senderReceiver = Some ''Unknown'', upiTransactionId = None, rawMessage = None,
         createdAt = 0, updatedAt = 0\<rparr>"
  have p: "?p = SReady 0 7 [?T] [JNum 5]" by (simp add: sync_start_def txn_prop_def)
  have s1: "sync_step ?P (empty_db, [?p, ?p])
             (\<lparr>expenses = [], users = [], next_oid = 1\<rparr>, [SInserting 7 [] [?e 0] [], ?p])"
    by (rule sync_step_at [of 0]) (simp_all add: p empty_db_def sync_read_def sync_eval store_simps js_simps)
  have s2: "sync_step ?P (\<lparr>expenses = [], users = [], next_oid = 1\<rparr>, [SInserting 7 [] [?e 0] [], ?p])
             (\<lparr>expenses = [], users = [], next_oid = 2\<rparr>, [SInserting 7 [] [?e 0] [], SInserting 7 [] [?e 1] []])"
    by (rule sync_step_at [of 1]) (simp_all add: p sync_read_def sync_eval store_simps js_simps)
  have s3: "sync_step ?P (\<lparr>expenses = [], users = [], next_oid = 2\<rparr>, [SInserting 7 [] [?e 0] [], SInserting 7 [] [?e 1] []])
             (\<lparr>expenses = [?e 0], users = [], next_oid = 2\<rparr>, [SInserting 7 [] [] [?e 0], SInserting 7 [] [?e 1] []])"
    by (rule sync_step_at [of 0]) (simp_all add: store_simps)
  have s4: "sync_step ?P (\<lparr>expenses = [?e 0], users = [], next_oid = 2\<rparr>, [SInserting 7 [] [] [?e 0], SInserting 7 [] [?e 1] []])
             (\<lparr>expenses = [?e 0], users = [], next_oid = 2\<rparr>, [SDone (Body 201 (sync_reply [?e 0] [])), SInserting 7 [] [?e 1] []])"
    by (rule sync_step_at [of 0]) simp_all
  have s5: "sync_step ?P (\<lparr>expenses = [?e 0], users = [], next_oid = 2\<rparr>, [SDone (Body 201 (sync_reply [?e 0] [])), SInserting 7 [] [?e 1] []])
             ?fin"
    by (rule sync_step_at [of 1]) (simp_all add: store_simps expense_key_def)
  from s1 s2 s3 s4 s5 show ?thesis
    by (meson converse_rtranclp_into_rtranclp rtranclp.rtrancl_refl)
qed

text \<open>
  C26. However n identical one-transaction requests interleave, once all of them are answered exactly one row is stored for the transaction, at least one request answered 201, and every other answered 201 or 500. Nothing is duplicated and nothing is lost.
\<close>

theorem concurrent_identical_syncs:
  assumes tv: "js_prop txn ''timestamp'' = Some tv" and t: "js_new_date P tv = Some t"
    and ok: "doc_errors P (sync_doc P txn) = []"
    and inv: "db_inv s" and fresh: "\<not> has_expense_at s u t" and n: "0 < n"
    and run: "(sync_step P)\<^sup>*\<^sup>* (s, replicate n (sync_start P now u (JObj [(''transactions'', JArr [txn])]))) (s', ps')"
    and fin: "list_all is_done ps'"
  shows "length (filter (\<lambda>e. expense_key e = (u, t)) (expenses s')) = 1 \<and>
         list_ex (\<lambda>p. \<exists>res. p = SDone (Body 201 res)) ps' \<and>
         list_all (\<lambda>p. p = SDone (Msg 500 sync_server_error) \<or> (\<exists>res. p = SDone (Body 201 res))) ps'"
proof -
  let ?R = "SReady now u [txn] [tv]"
  have start: "replicate n (sync_start P now u (JObj [(''transactions'', JArr [txn])])) = replicate n ?R"
    by (simp add: sync_start_single [OF tv])
  have z: "sum_list (replicate n ({#} :: oid multiset)) = {#}"
    by (induction n) simp_all
  have "distinct (map eid (expenses s))" using inv by (simp add: db_inv_def)
  then have "\<forall>x. count (all_ids (s, replicate n ?R)) x \<le> 1"
    by (simp add: all_ids_def z distinct_count_atmost_1)
  then have i0: "race_inv u t ?R (s, replicate n ?R)"
    using inv fresh by (auto simp: race_inv_def conc_inv_def list_all_iff race_ok_def race_waiting_def)
  have reach: "race_inv u t ?R st \<and> length (snd st) = n"
    if "(sync_step P)\<^sup>*\<^sup>* (s, replicate n ?R) st" for st
    using that
  proof (induction rule: rtranclp_induct)
    case base
    with i0 show ?case by simp
  next
    case (step y z)
    then show ?case using race_step [OF tv t ok] sync_step_length by metis
  qed
  have "race_inv u t ?R (s', ps') \<and> length ps' = n"
    using reach [OF run [unfolded start]] by simp
  then have ri: "race_inv u t ?R (s', ps')" and len: "length ps' = n" by simp_all
  have nw: "\<not> list_all (race_waiting u t ?R) ps'"
    using fin len n by (cases ps') (auto simp: race_waiting_def)
  then have has: "has_expense_at s' u t" using ri by (auto simp: race_inv_def)
  have "db_inv s'" using ri by (simp add: race_inv_def conc_inv_def)
  then have one: "length (filter (\<lambda>e. expense_key e = (u, t)) (expenses s')) = 1"
    using has by (intro filter_key_unique) (auto simp: db_inv_def has_expense_at_def)
  have "list_ex race_winner ps'" using ri has by (simp add: race_inv_def)
  then have win: "list_ex (\<lambda>p. \<exists>res. p = SDone (Body 201 res)) ps'"
    using fin by (auto simp: list_ex_iff list_all_iff race_winner_def)
  have "list_all (race_ok u t ?R) ps'" using ri by (simp add: race_inv_def)
  then have "list_all (\<lambda>p. p = SDone (Msg 500 sync_server_error) \<or> (\<exists>res. p = SDone (Body 201 res))) ps'"
    using fin by (auto simp: list_all_iff race_ok_def) (metis is_done.simps(2,3))
  with one win show ?thesis by simp
qed

section \<open>Witnesses\<close>

theorem sync_concurrent_invariant_witness:
  "db_inv (fst (sync_batch (\<lambda>_. None) 0 7 [JObj [(''timestamp'', JNum 5), (''amount'', JNum 100)]] [JNum 5] empty_db))"
proof -
  have "db_inv empty_db" by (simp add: db_inv_def empty_db_def)
  moreover have "list_all (\<lambda>p. pending p = [] \<and> inserted p = []) [SReady 0 7 [JObj [(''timestamp'', JNum 5), (''amount'', JNum 100)]] [JNum 5]]"
    by simp
  ultimately show ?thesis using sync_concurrent_invariant [OF _ _ sync_batch_run] by blast
qed


theorem concurrent_identical_syncs_witness:
  "length (filter (\<lambda>e. expense_key e = (7, 5))
      (expenses \<lparr>expenses = [\<lparr>eid = 0, userId = 7, category = ''unknown'', amount = 100, description = None, date = 5,
         sender = None, senderReceiver = Some ''Unknown'', upiTransactionId = None, rawMessage = None,
         createdAt = 0, updatedAt = 0\<rparr>], users = [], next_oid = 1\<rparr>)) = 1"
proof -
  let ?P = "\<lambda>_ :: string. None :: millis option"
  let ?T = "JObj [(''timestamp'', JNum 5), (''amount'', JNum 100)]"
  let ?B = "JObj [(''transactions'', JArr [?T])]"
  let ?e = "\<lparr>eid = 0, userId = 7, category = ''unknown'', amount = 100, description = None, date = 5,
         sender = None, senderReceiver = Some ''Unknown'', upiTransactionId = None, rawMessage = None,
         createdAt = 0, updatedAt = 0\<rparr>"
  let ?s1 = "\<lparr>expenses = [], users = [], next_oid = 1\<rparr>"
  let ?s2 = "\<lparr>expenses = [?e], users = [], next_oid = 1\<rparr>"
  have p: "sync_start ?P 0 7 ?B = SReady 0 7 [?T] [JNum 5]" by (simp add: sync_start_def)
  have s1: "sync_step ?P (empty_db, [sync_start ?P 0 7 ?B, sync_start ?P 0 7 ?B]) (?s1, [SInserting 7 [] [?e] [], sync_start ?P 0 7 ?B])"
    by (rule sync_step_at [of 0]) (simp_all add: p empty_db_def sync_read_def sync_eval store_simps js_simps)
  have s2: "sync_step ?P (?s1, [SInserting 7 [] [?e] [], sync_start ?P 0 7 ?B]) (?s2, [SInserting 7 [] [] [?e], sync_start ?P 0 7 ?B])"
    by (rule sync_step_at [of 0]) (simp_all add: store_simps)
  have s3: "sync_step ?P (?s2, [SInserting 7 [] [] [?e], sync_start ?P 0 7 ?B]) (?s2, [SDone (Body 201 (sync_reply [?e] [])), sync_start ?P 0 7 ?B])"
    by (rule sync_step_at [of 0]) simp_all
  have s4: "sync_step ?P (?s2, [SDone (Body 201 (sync_reply [?e] [])), sync_start ?P 0 7 ?B])
      (?s2, [SDone (Body 201 (sync_reply [?e] [])), SDone (Body 201 (sync_reply [] [?T]))])"
    by (rule sync_step_at [of 1]) (simp_all add: p sync_read_def sync_eval store_simps js_simps expense_key_def)
  have run: "(sync_step ?P)\<^sup>*\<^sup>* (empty_db, replicate 2 (sync_start ?P 0 7 ?B))
      (?s2, [SDone (Body 201 (sync_reply [?e] [])), SDone (Body 201 (sync_reply [] [?T]))])"
    using s1 s2 s3 s4 by (simp add: numeral_2_eq_2)
  have h: "js_prop ?T ''timestamp'' = Some (JNum 5)" "js_new_date ?P (JNum 5) = Some 5"
    "doc_errors ?P (sync_doc ?P ?T) = []" "db_inv empty_db" "\<not> has_expense_at empty_db 7 5"
    by (simp_all add: js_simps doc_errors_def path_check_def sync_doc_def txn_prop_def txn_time_def
        nonempty_str_def db_inv_def empty_db_def has_expense_at_def)
  from concurrent_identical_syncs [OF h _ run] show ?thesis by simp
qed

end
