(* ===== verification/Calendar.thy ===== *)
theory Calendar
  imports Prelude
begin

text \<open>
  The calendar arithmetic behind the aggregation operators \<open>$year\<close> and \<open>$month\<close>
  that \<open>getMonthlyExpenses\<close> (\<open>src/src/controllers/expense.controller.ts\<close>, line 44)
  applies to the stored \<open>date\<close>: the proleptic Gregorian calendar in UTC, computed
  from a millisecond time value. The computation reduces the day count modulo a 400-year
  era (146097 days), walks the years of the era and then the months of the year. The
  theory proves that both walks terminate, that the month lies in \<open>1..12\<close> and the
  day in \<open>1..31\<close>, which is what the month-name lookup of the report relies on.
\<close>

section \<open>Years and months\<close>

definition is_leap :: "int \<Rightarrow> bool" where
  "is_leap y \<longleftrightarrow> (y mod 4 = 0 \<and> y mod 100 \<noteq> 0) \<or> y mod 400 = 0"

definition year_days :: "int \<Rightarrow> int" where
  "year_days y = (if is_leap y then 366 else 365)"

definition month_days :: "int \<Rightarrow> int list" where
  "month_days y = [31, if is_leap y then 29 else 28, 31, 30, 31, 30, 31, 31, 30, 31, 30, 31]"

definition ms_per_day :: int where
  "ms_per_day = 86400000"

definition era_days :: int where
  "era_days = 146097"

section \<open>The walks\<close>

text \<open>
  \<open>year_walk y r\<close>: \<open>r\<close> days after January 1 of year \<open>y\<close>; skip whole years
  while \<open>r\<close> covers one. The day count shrinks by at least 365 in every call.
\<close>

function year_walk :: "int \<Rightarrow> int \<Rightarrow> int \<times> int" where
  "year_walk y r = (if year_days y \<le> r then year_walk (y + 1) (r - year_days y) else (y, r))"
  by pat_completeness auto
termination
  by (relation "measure (\<lambda>(y, r). nat r)") (auto simp: year_days_def split: if_splits)

declare year_walk.simps [simp del]

text \<open>\<open>month_walk ls r m\<close>: \<open>r\<close> days into month \<open>m\<close>, whose length heads \<open>ls\<close>.\<close>

fun month_walk :: "int list \<Rightarrow> int \<Rightarrow> nat \<Rightarrow> nat \<times> int" where
  "month_walk [] r m = (m, r)"
| "month_walk (l # ls) r m = (if r < l then (m, r) else month_walk ls (r - l) (Suc m))"

text \<open>
  Year, month (1 to 12) and day of month (1 to 31) of a time value, in UTC; days are
  counted with floor division, so instants before 1970 fall on the right day.
\<close>

definition utc_civil :: "millis \<Rightarrow> int \<times> nat \<times> int" where
  "utc_civil t =
     (let d = t div ms_per_day;
          (y, r) = year_walk (1970 + 400 * (d div era_days)) (d mod era_days);
          (m, rd) = month_walk (month_days y) r 1
      in (y, m, rd + 1))"

definition utc_year :: "millis \<Rightarrow> int" where
  "utc_year t = fst (utc_civil t)"

definition utc_month :: "millis \<Rightarrow> nat" where
  "utc_month t = fst (snd (utc_civil t))"

lemmas calendar_eval [store_simps] =
  utc_year_def utc_month_def utc_civil_def year_walk.simps year_days_def is_leap_def
  month_days_def ms_per_day_def era_days_def

section \<open>Ranges\<close>

lemma sum_month_days: "sum_list (month_days y) = year_days y"
  by (simp add: month_days_def year_days_def)

lemma year_walk_range: "0 \<le> r \<Longrightarrow> year_walk y r = (y', r') \<Longrightarrow> 0 \<le> r' \<and> r' < year_days y'"
proof (induction y r rule: year_walk.induct)
  case (1 y r)
  show ?case
  proof (cases "year_days y \<le> r")
    case True
    with "1.prems" show ?thesis by (simp add: year_walk.simps [of y r] "1.IH")
  next
    case False
    with "1.prems" show ?thesis by (simp add: year_walk.simps [of y r])
  qed
qed

lemma month_walk_range:
  "0 \<le> r \<Longrightarrow> r < sum_list ls \<Longrightarrow> month_walk ls r m = (m', r') \<Longrightarrow>
   m \<le> m' \<and> m' < m + length ls \<and> 0 \<le> r' \<and> r' < ls ! (m' - m)"
proof (induction ls r m rule: month_walk.induct)
  case (1 r m)
  then show ?case by simp
next
  case (2 l ls r m)
  show ?case
  proof (cases "r < l")
    case True
    with "2.prems" show ?thesis by simp
  next
    case False
    with "2.prems" have "m' = fst (month_walk ls (r - l) (Suc m))" "0 \<le> r - l" "r - l < sum_list ls"
      by simp_all
    with "2.IH" [OF False] "2.prems"(3) False
    have "Suc m \<le> m' \<and> m' < Suc m + length ls \<and> 0 \<le> r' \<and> r' < ls ! (m' - Suc m)"
      by simp
    then show ?thesis by (simp add: Suc_diff_Suc)
  qed
qed

lemma utc_civil_range:
  "utc_civil t = (y, m, d) \<Longrightarrow> 1 \<le> m \<and> m \<le> 12 \<and> 1 \<le> d \<and> d \<le> 31"
proof -
  assume eq: "utc_civil t = (y, m, d)"
  define dd where "dd = t div ms_per_day"
  obtain y' r where yw: "year_walk (1970 + 400 * (dd div era_days)) (dd mod era_days) = (y', r)"
    by fastforce
  obtain m' rd where mw: "month_walk (month_days y') r 1 = (m', rd)"
    by fastforce
  from eq yw mw have res: "y = y'" "m = m'" "d = rd + 1"
    by (simp_all add: utc_civil_def dd_def)
  have "0 \<le> dd mod era_days" by (simp add: era_days_def)
  from year_walk_range [OF this yw] have "0 \<le> r" "r < sum_list (month_days y')"
    by (simp_all add: sum_month_days)
  from month_walk_range [OF this mw]
  have m: "1 \<le> m' \<and> m' < 13" and r: "0 \<le> rd" "rd < month_days y' ! (m' - 1)"
    by (simp_all add: month_days_def)
  have all: "\<forall>i < 12. month_days y' ! i \<le> 31"
    by (simp add: month_days_def nth_Cons split: nat.splits)
  have "m' - 1 < 12" using m by arith
  with all have "month_days y' ! (m' - 1) \<le> 31" by blast
  with res m r show ?thesis by simp
qed

lemma utc_month_range [store_simps]: "1 \<le> utc_month t \<and> utc_month t \<le> 12"
  using utc_civil_range [of t] by (cases "utc_civil t") (simp add: utc_month_def)

end
