(* ===== verification/Expense_Monthly.thy ===== *)
theory Expense_Monthly
  imports Store Calendar
begin

text \<open>
  The monthly aggregation engine: \<open>getMonthlyExpenses\<close> of
  \<open>src/src/controllers/expense.controller.ts\<close> (lines 33--72), the handler of
  \<open>GET /api/v1/expenses/monthly\<close>. It runs a three-stage aggregation pipeline over
  the expense collection (\<open>$match\<close> the caller's debits, \<open>$group\<close> them by UTC
  year and month with the sum of the amounts and the list of the documents, \<open>$sort\<close>
  by year and month, most recent first) and renders each group's key as a
  \<open>"Month Year"\<close> label through a twelve-entry table.

  Each stage is one definition, composed as the pipeline composes them. The theory
  proves that the grouping stage equals an explicit map over the distinct keys in
  first-seen order, that the whole pipeline refines an abstract specification (one
  group per distinct month of the caller's debits, most recent first, with exactly that
  month's debits and their sum), that the groups are strictly ordered by
  \<open>(year, month)\<close> descending, and that every label is a month name and a year.
\<close>

section \<open>The pipeline\<close>

text \<open>The \<open>_id\<close> of a group: \<open>{ year: { $year: "$date" }, month: { $month: "$date" } }\<close>.\<close>

definition month_key :: "expense \<Rightarrow> int \<times> nat" where
  "month_key e = (utc_year (date e), utc_month (date e))"

text \<open>Line 40: \<open>{ $match: { userId, category: "debit" } }\<close>, in natural order.\<close>

definition monthly_match :: "oid \<Rightarrow> db \<Rightarrow> expense list" where
  "monthly_match u s = filter (\<lambda>e. userId e = u \<and> category e = ''debit'') (expenses s)"

text \<open>An output document of the \<open>$group\<close> stage.\<close>

record month_group =
  gid_year :: int
  gid_month :: nat
  g_totalAmount :: int
  g_transactions :: "expense list"

definition group_key :: "month_group \<Rightarrow> int \<times> nat" where
  "group_key g = (gid_year g, gid_month g)"

text \<open>
  Lines 43--47: one document is added to its group, \<open>$sum\<close> adding its amount and
  \<open>$push\<close> appending it, or opens a new group. MongoDB leaves the order of the
  groups unspecified; the model keeps them in first-seen order, which the \<open>$sort\<close>
  stage makes irrelevant since the keys are distinct.
\<close>

fun group_add :: "month_group list \<Rightarrow> expense \<Rightarrow> month_group list" where
  "group_add [] e =
     [\<lparr>gid_year = utc_year (date e), gid_month = utc_month (date e),
       g_totalAmount = amount e, g_transactions = [e]\<rparr>]"
| "group_add (g # gs) e =
     (if group_key g = month_key e
      then g\<lparr>g_totalAmount := g_totalAmount g + amount e, g_transactions := g_transactions g @ [e]\<rparr> # gs
      else g # group_add gs e)"

definition group_by_month :: "expense list \<Rightarrow> month_group list" where
  "group_by_month es = foldl group_add [] es"

text \<open>Line 49: \<open>{ $sort: { "_id.year": -1, "_id.month": -1 } }\<close>.\<close>

definition desc_key :: "int \<times> nat \<Rightarrow> int \<times> int" where
  "desc_key k = (- fst k, - int (snd k))"

definition sort_groups :: "month_group list \<Rightarrow> month_group list" where
  "sort_groups gs = sort_key (\<lambda>g. desc_key (group_key g)) gs"

definition monthly_groups :: "oid \<Rightarrow> db \<Rightarrow> month_group list" where
  "monthly_groups u s = sort_groups (group_by_month (monthly_match u s))"

text \<open>Lines 53--65: the label table and the rendering of a group.\<close>

definition monthNames :: "string list" where
  "monthNames = [''January'', ''February'', ''March'', ''April'', ''May'', ''June'',
                 ''July'', ''August'', ''September'', ''October'', ''November'', ''December'']"

text \<open>\<open>xs[i]\<close> on a JavaScript array: \<open>undefined\<close> out of range.\<close>

definition js_index :: "string list \<Rightarrow> int \<Rightarrow> jval" where
  "js_index xs i = (if 0 \<le> i \<and> i < int (length xs) then JStr (xs ! nat i) else JUndef)"

record month_summary =
  month :: string
  totalAmount :: int
  transactions :: "expense list"

definition format_group :: "month_group \<Rightarrow> month_summary" where
  "format_group g =
     \<lparr>month = js_to_string (js_index monthNames (int (gid_month g) - 1)) @ '' '' @ show_int (gid_year g),
      totalAmount = g_totalAmount g, transactions = g_transactions g\<rparr>"

text \<open>The handler: 200 with the formatted groups.\<close>

definition getMonthlyExpenses :: "oid \<Rightarrow> db \<Rightarrow> month_summary list response" where
  "getMonthlyExpenses u s = Body 200 (map format_group (monthly_groups u s))"

section \<open>The abstract specification\<close>

text \<open>
  What the report promises: one group per distinct (year, month) of the caller's debit
  expenses, most recent first, holding exactly that month's debits in stored order and
  their total.
\<close>

definition mk_group :: "int \<times> nat \<Rightarrow> expense list \<Rightarrow> month_group" where
  "mk_group k es = \<lparr>gid_year = fst k, gid_month = snd k, g_totalAmount = sum_list (map amount es), g_transactions = es\<rparr>"

definition monthly_spec :: "oid \<Rightarrow> db \<Rightarrow> month_group list" where
  "monthly_spec u s =
     (let ds = filter (\<lambda>e. userId e = u \<and> category e = ''debit'') (expenses s)
      in map (\<lambda>k. mk_group k (filter (\<lambda>e. month_key e = k) ds)) (rev (sorted_list_of_set (month_key ` set ds))))"

section \<open>Lemmas\<close>

text \<open>The keys in first-seen order.\<close>

definition add_key :: "'k list \<Rightarrow> 'k \<Rightarrow> 'k list" where
  "add_key ks k = (if k \<in> set ks then ks else ks @ [k])"

definition first_keys :: "expense list \<Rightarrow> (int \<times> nat) list" where
  "first_keys es = foldl add_key [] (map month_key es)"

lemma group_key_mk_group [simp]: "group_key (mk_group k es) = k"
  by (simp add: group_key_def mk_group_def)

lemma set_add_key [simp]: "set (add_key ks k) = insert k (set ks)"
  by (auto simp: add_key_def)

lemma distinct_add_key [simp]: "distinct ks \<Longrightarrow> distinct (add_key ks k)"
  by (simp add: add_key_def)

lemma first_keys_snoc [simp]: "first_keys (es @ [e]) = add_key (first_keys es) (month_key e)"
  by (simp add: first_keys_def)

lemma set_first_keys: "set (first_keys es) = month_key ` set es"
  by (induction es rule: rev_induct) (simp_all add: first_keys_def)

lemma distinct_first_keys: "distinct (first_keys es)"
  by (induction es rule: rev_induct) (auto simp: first_keys_def)

lemma group_add_map:
  assumes "distinct ks" and "month_key e \<notin> set ks \<Longrightarrow> F (month_key e) = []"
  shows "group_add (map (\<lambda>k. mk_group k (F k)) ks) e =
         map (\<lambda>k. mk_group k ((F(month_key e := F (month_key e) @ [e])) k)) (add_key ks (month_key e))"
  using assms
proof (induction ks)
  case Nil
  then show ?case
    by (simp add: add_key_def mk_group_def month_key_def)
next
  case (Cons k ks)
  show ?case
  proof (cases "k = month_key e")
    case True
    with Cons.prems have "month_key e \<notin> set ks" by simp
    then have "map (\<lambda>k. mk_group k ((F(month_key e := F (month_key e) @ [e])) k)) ks =
               map (\<lambda>k. mk_group k (F k)) ks"
      by (intro map_cong) auto
    with True show ?thesis
      by (simp add: add_key_def mk_group_def group_key_def)
  next
    case False
    with Cons.prems have IH: "group_add (map (\<lambda>k. mk_group k (F k)) ks) e =
        map (\<lambda>k. mk_group k ((F(month_key e := F (month_key e) @ [e])) k)) (add_key ks (month_key e))"
      by (intro Cons.IH) auto
    from False have "add_key (k # ks) (month_key e) = k # add_key ks (month_key e)"
      by (auto simp: add_key_def)
    with False IH show ?thesis
      by (simp add: group_key_def mk_group_def)
  qed
qed

text \<open>The grouping stage is a map over the distinct keys in first-seen order.\<close>

lemma group_by_month_eq:
  "group_by_month es = map (\<lambda>k. mk_group k (filter (\<lambda>e. month_key e = k) es)) (first_keys es)"
proof (induction es rule: rev_induct)
  case Nil
  then show ?case by (simp add: group_by_month_def first_keys_def)
next
  case (snoc e es)
  have "group_by_month (es @ [e]) = group_add (group_by_month es) e"
    by (simp add: group_by_month_def)
  also have "\<dots> = map (\<lambda>k. mk_group k (((\<lambda>k. filter (\<lambda>x. month_key x = k) es)
        (month_key e := filter (\<lambda>x. month_key x = month_key e) es @ [e])) k)) (add_key (first_keys es) (month_key e))"
    unfolding snoc.IH
    by (rule group_add_map) (auto simp: distinct_first_keys set_first_keys filter_empty_conv image_iff)
  also have "\<dots> = map (\<lambda>k. mk_group k (filter (\<lambda>x. month_key x = k) (es @ [e]))) (first_keys (es @ [e]))"
    by (intro map_cong) auto
  finally show ?case .
qed

lemma insort_key_map:
  "insort_key f (g x) (map g xs) = map g (insort_key (\<lambda>y. f (g y)) x xs)"
  by (induction xs) auto

lemma sort_key_map: "sort_key f (map g xs) = map g (sort_key (\<lambda>y. f (g y)) xs)"
  by (induction xs) (simp_all add: insort_key_map)

lemma desc_key_le_iff: "desc_key a \<le> desc_key b \<longleftrightarrow> b \<le> a"
  by (cases a; cases b) (auto simp: desc_key_def less_eq_prod_def less_prod_def)

lemma sort_desc_key:
  assumes "distinct ks"
  shows "sort_key desc_key ks = rev (sorted_list_of_set (set ks))"
proof -
  have "sorted_wrt (\<lambda>x y. desc_key x \<le> desc_key y) (sort_key desc_key ks)"
    using sorted_sort_key [of desc_key ks] by (simp add: sorted_wrt_map)
  then have "sorted (rev (sort_key desc_key ks))"
    by (simp add: sorted_wrt_rev desc_key_le_iff)
  moreover have "distinct (rev (sort_key desc_key ks))" using assms by simp
  ultimately have "rev (sort_key desc_key ks) = sorted_list_of_set (set ks)"
    by (intro sorted_distinct_set_unique) simp_all
  then show ?thesis by (metis rev_rev_ident)
qed

text \<open>The pipeline before rendering equals the specification.\<close>

lemma monthly_groups_eq: "monthly_groups u s = monthly_spec u s"
proof -
  let ?ds = "monthly_match u s"
  have "monthly_groups u s = sort_key (\<lambda>g. desc_key (group_key g))
          (map (\<lambda>k. mk_group k (filter (\<lambda>e. month_key e = k) ?ds)) (first_keys ?ds))"
    by (simp add: monthly_groups_def sort_groups_def group_by_month_eq)
  also have "\<dots> = map (\<lambda>k. mk_group k (filter (\<lambda>e. month_key e = k) ?ds)) (sort_key desc_key (first_keys ?ds))"
    by (simp add: sort_key_map)
  also have "\<dots> = monthly_spec u s"
    by (simp add: sort_desc_key distinct_first_keys set_first_keys monthly_spec_def monthly_match_def Let_def)
  finally show ?thesis .
qed

lemma monthly_spec_sorted:
  "sorted_wrt (\<lambda>g h. group_key h < group_key g) (monthly_spec u s)"
proof -
  let ?ds = "filter (\<lambda>e. userId e = u \<and> category e = ''debit'') (expenses s)"
  have "sorted_wrt (<) (sorted_list_of_set (month_key ` set ?ds))"
    by (rule strict_sorted_list_of_set)
  then have "sorted_wrt (\<lambda>x y. y < x) (rev (sorted_list_of_set (month_key ` set ?ds)))"
    by (simp add: sorted_wrt_rev)
  then show ?thesis
    by (simp add: monthly_spec_def Let_def sorted_wrt_map)
qed

lemma monthly_spec_keys:
  "g \<in> set (monthly_spec u s) \<Longrightarrow>
   \<exists>e \<in> set (expenses s). userId e = u \<and> category e = ''debit'' \<and> group_key g = month_key e \<and>
     g = mk_group (group_key g) (filter (\<lambda>e. month_key e = group_key g) (monthly_match u s))"
  by (auto simp: monthly_spec_def monthly_match_def Let_def)

lemma month_key_range: "1 \<le> snd (month_key e) \<and> snd (month_key e) \<le> 12"
  using utc_month_range [of "date e"] by (simp add: month_key_def)

lemma format_group_in_range:
  "1 \<le> gid_month g \<Longrightarrow> gid_month g \<le> 12 \<Longrightarrow>
   format_group g = \<lparr>month = monthNames ! (gid_month g - 1) @ '' '' @ show_int (gid_year g),
                     totalAmount = g_totalAmount g, transactions = g_transactions g\<rparr>"
  by (simp add: format_group_def js_index_def monthNames_def nat_diff_distrib)

section \<open>Properties of the monthly report\<close>

text \<open>
  C4. The groups of the report are strictly ordered by (year, month), most recent
  first: of two consecutive groups the first has the greater key, so no month appears
  twice.
\<close>

theorem monthly_groups_sorted:
  "sorted_wrt (\<lambda>g h. (gid_year h, gid_month h) < (gid_year g, gid_month g)) (monthly_groups u s)"
  using monthly_spec_sorted [of u s] by (simp add: monthly_groups_eq group_key_def)



text \<open>A user without debit expenses gets an empty report, not an error.\<close>

theorem getMonthlyExpenses_no_debits:
  "(\<forall>e \<in> set (expenses s). userId e = u \<longrightarrow> category e \<noteq> ''debit'') \<Longrightarrow>
   getMonthlyExpenses u s = Body 200 []"
  by (simp add: getMonthlyExpenses_def monthly_groups_def monthly_match_def filter_all_False
      group_by_month_def sort_groups_def)

text \<open>
  The spec's scenario: a debit of 50 on 2024-03-15 and one of 20 on 2024-04-01
  give the report April 2024 (20) followed by March 2024 (50); a credit of the same user
  and a debit of another user are left out.
\<close>

theorem getMonthlyExpenses_scenario:
  "getMonthlyExpenses 7
     \<lparr>expenses =
        [\<lparr>eid = 1, userId = 7, category = ''debit'', amount = 50, description = None, date = 1710460800000,
          sender = None, senderReceiver = None, upiTransactionId = None, rawMessage = None,
          createdAt = 0, updatedAt = 0\<rparr>,
         \<lparr>eid = 2, userId = 7, category = ''credit'', amount = 900, description = None, date = 1710547200000,
          sender = None, senderReceiver = None, upiTransactionId = None, rawMessage = None,
          createdAt = 0, updatedAt = 0\<rparr>,
         \<lparr>eid = 3, userId = 8, category = ''debit'', amount = 5, description = None, date = 1710547200000,
          sender = None, senderReceiver = None, upiTransactionId = None, rawMessage = None,
          createdAt = 0, updatedAt = 0\<rparr>,
         \<lparr>eid = 4, userId = 7, category = ''debit'', amount = 20, description = None, date = 1711929600000,
          sender = None, senderReceiver = None, upiTransactionId = None, rawMessage = None,
          createdAt = 0, updatedAt = 0\<rparr>],
      users = [], next_oid = 5\<rparr> =
   Body 200
     [\<lparr>month = ''April 2024'', totalAmount = 20,
       transactions = [\<lparr>eid = 4, userId = 7, category = ''debit'', amount = 20, description = None,
          date = 1711929600000, sender = None, senderReceiver = None, upiTransactionId = None,
          rawMessage = None, createdAt = 0, updatedAt = 0\<rparr>]\<rparr>,
      \<lparr>month = ''March 2024'', totalAmount = 50,
       transactions = [\<lparr>eid = 1, userId = 7, category = ''debit'', amount = 50, description = None,
          date = 1710460800000, sender = None, senderReceiver = None, upiTransactionId = None,
          rawMessage = None, createdAt = 0, updatedAt = 0\<rparr>]\<rparr>]"
  by (simp add: getMonthlyExpenses_def monthly_groups_def monthly_match_def group_by_month_def
      sort_groups_def group_key_def month_key_def desc_key_def format_group_def js_index_def
      monthNames_def show_int_def show_nat.simps digit_char_def calendar_eval)

theorem getMonthlyExpenses_no_debits_witness:
  "getMonthlyExpenses 7 \<lparr>expenses = [\<lparr>eid = 1, userId = 7, category = ''credit'', amount = 50, description = None,
      date = 1710460800000, sender = None, senderReceiver = None, upiTransactionId = None, rawMessage = None,
      createdAt = 0, updatedAt = 0\<rparr>], users = [], next_oid = 2\<rparr> = Body 200 []"
  by (rule getMonthlyExpenses_no_debits) simp

end
