(* ===== verification/ObjectId.thy ===== *)
theory ObjectId
  imports Store
begin

text \<open>
  The textual form of a MongoDB \<open>ObjectId\<close>: the 24 hexadecimal digits of its 12 bytes.
  Route parameters (\<open>req.params.id\<close>) and \<open>ObjectId\<close> paths of an update body reach
  the database as strings, which Mongoose casts with \<open>castObjectId\<close> (Mongoose 7/8,
  whose BSON library accepts a string only when it is exactly 24 hexadecimal digits, in
  either case). The theory defines that cast, the printer \<open>toHexString\<close>, and proves
  the two inverse on the identifiers of 12 bytes.
\<close>

section \<open>Hexadecimal digits\<close>

definition hex_digits :: string where
  "hex_digits = ''0123456789abcdef''"

definition hex_val :: "char \<Rightarrow> nat option" where
  "hex_val c =
     (let k = (of_char c :: nat) in
      if 48 \<le> k \<and> k \<le> 57 then Some (k - 48)
      else if 97 \<le> k \<and> k \<le> 102 then Some (k - 87)
      else if 65 \<le> k \<and> k \<le> 70 then Some (k - 55)
      else None)"

fun read_hex :: "nat \<Rightarrow> string \<Rightarrow> nat option" where
  "read_hex acc [] = Some acc"
| "read_hex acc (c # cs) = (case hex_val c of None \<Rightarrow> None | Some d \<Rightarrow> read_hex (16 * acc + d) cs)"

text \<open>\<open>new ObjectId(s)\<close> on a string: exactly 24 hexadecimal digits.\<close>

definition oid_of_hex :: "string \<Rightarrow> oid option" where
  "oid_of_hex s = (if length s = 24 then read_hex 0 s else None)"

text \<open>\<open>ObjectId.prototype.toHexString\<close>: \<open>n\<close> lower-case digits, most significant first.\<close>

fun hex_digits_of :: "nat \<Rightarrow> nat \<Rightarrow> string" where
  "hex_digits_of 0 i = []"
| "hex_digits_of (Suc n) i = hex_digits_of n (i div 16) @ [hex_digits ! (i mod 16)]"

definition hex_of_oid :: "oid \<Rightarrow> string" where
  "hex_of_oid i = hex_digits_of 24 i"

section \<open>Casting to \<open>ObjectId\<close>\<close>

definition oid_cast_str :: "string \<Rightarrow> oid cast" where
  "oid_cast_str s = (case oid_of_hex s of Some i \<Rightarrow> Cast i | None \<Rightarrow> CastFail)"

text \<open>
  \<open>castObjectId\<close>: \<open>null\<close> and \<open>undefined\<close> stay absent; an object with a truthy
  \<open>_id\<close> is cast through the string of its \<open>_id\<close>; anything else through its own
  string (\<open>toString\<close>), so numbers, booleans and other objects fail.
\<close>

definition cast_oid :: "jval \<Rightarrow> oid cast" where
  "cast_oid v =
     (case v of
        JUndef \<Rightarrow> Absent
      | JNull \<Rightarrow> Absent
      | JObj kvs \<Rightarrow>
          (case map_of (rev kvs) ''_id'' of
             Some w \<Rightarrow> if truthy w then oid_cast_str (js_to_string w) else oid_cast_str (js_to_string v)
           | None \<Rightarrow> oid_cast_str (js_to_string v))
      | _ \<Rightarrow> oid_cast_str (js_to_string v))"

section \<open>Properties\<close>

lemma of_char_hex_digit: "d < 16 \<Longrightarrow> hex_val (hex_digits ! d) = Some d"
  unfolding hex_digits_def hex_val_def by (auto simp: less_Suc_eq numeral_eq_Suc)

lemma length_hex_digits_of [simp]: "length (hex_digits_of n i) = n"
  by (induction n arbitrary: i) auto

lemma read_hex_append:
  "read_hex acc (xs @ ys) = Option.bind (read_hex acc xs) (\<lambda>a. read_hex a ys)"
  by (induction acc xs rule: read_hex.induct) (auto split: option.splits)

lemma read_hex_digits_of:
  "read_hex acc (hex_digits_of n i) = Some (acc * 16 ^ n + i mod 16 ^ n)"
proof (induction n arbitrary: acc i)
  case 0
  then show ?case by simp
next
  case (Suc n)
  have "i mod 16 ^ Suc n = 16 * (i div 16 mod 16 ^ n) + i mod 16"
    by (simp add: mod_mult2_eq mult.commute)
  then show ?case
    using Suc by (simp add: read_hex_append of_char_hex_digit algebra_simps)
qed

text \<open>Reading back the printed form of an identifier of 12 bytes gives it back.\<close>

lemma oid_of_hex_of_oid [simp]: "i < 16 ^ 24 \<Longrightarrow> oid_of_hex (hex_of_oid i) = Some i"
  by (simp add: oid_of_hex_def hex_of_oid_def read_hex_digits_of)

lemma cast_oid_hex [simp]: "i < 16 ^ 24 \<Longrightarrow> cast_oid (JStr (hex_of_oid i)) = Cast i"
  by (simp add: cast_oid_def oid_cast_str_def)

end
