(* ===== verification/Store_Docs.thy ===== *)
theory Store_Docs
  imports ObjectId
begin

text \<open>
  The single-document operations of the expense collection the CRUD handlers of
  \<open>src/src/controllers/expense.controller.ts\<close> issue: \<open>find\<close> of the caller's
  expenses sorted by date, \<open>findOne\<close>, \<open>findOneAndDelete\<close> and
  \<open>findOneAndUpdate\<close> with the filter \<open>{ _id, userId }\<close>. An update goes through
  Mongoose's \<open>castUpdate\<close> (strict: unknown paths are dropped, \<open>createdAt\<close> is
  immutable, \<open>updatedAt\<close> is set by the \<open>timestamps\<close> option; top-level keys are
  moved into \<open>$set\<close>, and \<open>$unset\<close> removes paths) and, with
  \<open>runValidators: true\<close>, through the update validators of the paths it sets and
  unsets; then the
  server applies it and enforces the unique indexes. The theory proves that every
  operation keeps \<open>db_inv\<close> and that no operation touches a document the filter does
  not select.
\<close>

section \<open>Selecting by identifier and owner\<close>

definition owned :: "oid \<Rightarrow> oid \<Rightarrow> expense \<Rightarrow> bool" where
  "owned i u e \<longleftrightarrow> eid e = i \<and> userId e = u"

text \<open>\<open>Expense.findOne({ _id: i, userId: u })\<close>: the first match in natural order.\<close>

definition find_owned :: "oid \<Rightarrow> oid \<Rightarrow> db \<Rightarrow> expense option" where
  "find_owned i u s = find (owned i u) (expenses s)"

text \<open>
  \<open>Expense.find({ userId: u }).sort({ date: -1 })\<close>. The server's sort is not
  stable; under \<open>db_inv\<close> no two of a user's expenses share a date, so the order is
  determined.
\<close>

definition find_user_sorted :: "oid \<Rightarrow> db \<Rightarrow> expense list" where
  "find_user_sorted u s = sort_key (\<lambda>e. - date e) (filter (\<lambda>e. userId e = u) (expenses s))"

text \<open>\<open>Expense.findOneAndDelete({ _id: i, userId: u })\<close>: the removed document.\<close>

definition delete_owned :: "oid \<Rightarrow> oid \<Rightarrow> db \<Rightarrow> db \<times> expense option" where
  "delete_owned i u s =
     (case find_owned i u s of
        None \<Rightarrow> (s, None)
      | Some e \<Rightarrow> (s\<lparr>expenses := filter (\<lambda>x. eid x \<noteq> eid e) (expenses s)\<rparr>, Some e))"

section \<open>Casting and validating an update\<close>

text \<open>
  The body of \<open>PUT /:id\<close> is the update document: its keys in order of first
  appearance, each with its last value (as \<open>JSON.parse\<close> builds the object). A key
  starting with \<open>$\<close> is an update operator.
\<close>

definition upd_keys :: "(string \<times> jval) list \<Rightarrow> string list" where
  "upd_keys kvs = remdups (map fst kvs)"

definition upd_val :: "(string \<times> jval) list \<Rightarrow> string \<Rightarrow> jval" where
  "upd_val kvs k = (case map_of (rev kvs) k of Some v \<Rightarrow> v | None \<Rightarrow> JUndef)"

definition is_operator :: "string \<Rightarrow> bool" where
  "is_operator k \<longleftrightarrow> take 1 k = ''$''"

definition opt_string_paths :: "string list" where
  "opt_string_paths = [''description'', ''sender'', ''senderReceiver'', ''upiTransactionId'', ''rawMessage'']"

text \<open>
  The errors a key of the update contributes: its cast error, or the failure of a
  \<open>required\<close> validator when it sets a required path to \<open>null\<close> (or a required
  string to the empty string). \<open>_id\<close> is cast but has no validator; \<open>createdAt\<close>,
  \<open>updatedAt\<close> and paths outside the schema contribute nothing.
\<close>

definition upd_check :: "date_parser \<Rightarrow> string \<Rightarrow> jval \<Rightarrow> (string \<times> path_error) list" where
  "upd_check P k v =
     (if k = ''userId'' then path_check k True (\<lambda>_. True) (cast_oid v)
      else if k = ''category'' then path_check k True nonempty_str (cast_string v)
      else if k = ''amount'' then path_check k True (\<lambda>_. True) (cast_number v)
      else if k = ''date'' then path_check k True (\<lambda>_. True) (cast_date P (DateJson v))
      else if k \<in> set opt_string_paths then path_check k False (\<lambda>_. True) (cast_string v)
      else if k = ''_id'' then path_check k False (\<lambda>_. True) (cast_oid v)
      else [])"

definition upd_errors :: "date_parser \<Rightarrow> (string \<times> jval) list \<Rightarrow> (string \<times> path_error) list" where
  "upd_errors P kvs = concat (map (\<lambda>k. upd_check P k (upd_val kvs k)) (upd_keys kvs))"

text \<open>\<open>$set\<close> of one key on the stored document (the cast value).\<close>

definition upd_field :: "date_parser \<Rightarrow> string \<Rightarrow> jval \<Rightarrow> expense \<Rightarrow> expense" where
  "upd_field P k v e =
     (if k = ''userId'' then (case cast_oid v of Cast i \<Rightarrow> e\<lparr>userId := i\<rparr> | _ \<Rightarrow> e)
      else if k = ''category'' then (case cast_string v of Cast c \<Rightarrow> e\<lparr>category := c\<rparr> | _ \<Rightarrow> e)
      else if k = ''amount'' then (case cast_number v of Cast a \<Rightarrow> e\<lparr>amount := a\<rparr> | _ \<Rightarrow> e)
      else if k = ''date'' then (case cast_date P (DateJson v) of Cast t \<Rightarrow> e\<lparr>date := t\<rparr> | _ \<Rightarrow> e)
      else if k = ''description'' then e\<lparr>description := cast_opt (cast_string v)\<rparr>
      else if k = ''sender'' then e\<lparr>sender := cast_opt (cast_string v)\<rparr>
      else if k = ''senderReceiver'' then e\<lparr>senderReceiver := cast_opt (cast_string v)\<rparr>
      else if k = ''upiTransactionId'' then e\<lparr>upiTransactionId := cast_opt (cast_string v)\<rparr>
      else if k = ''rawMessage'' then e\<lparr>rawMessage := cast_opt (cast_string v)\<rparr>
      else e)"

definition apply_update :: "date_parser \<Rightarrow> millis \<Rightarrow> (string \<times> jval) list \<Rightarrow> expense \<Rightarrow> expense" where
  "apply_update P now kvs e =
     (foldl (\<lambda>x k. upd_field P k (upd_val kvs k) x) e (upd_keys kvs))\<lparr>updatedAt := now\<rparr>"

text \<open>
  Whether the update keeps the document's \<open>_id\<close>: the server refuses to change it.
\<close>

definition keeps_id :: "(string \<times> jval) list \<Rightarrow> expense \<Rightarrow> bool" where
  "keeps_id kvs e \<longleftrightarrow> ''_id'' \<notin> set (upd_keys kvs) \<or> cast_oid (upd_val kvs ''_id'') = Cast (eid e)"

section \<open>Update operators\<close>

text \<open>
  Mongoose's \<open>castUpdate\<close> reads the update document: keys that are not operators are
  sugar for \<open>$set\<close>, added to the \<open>$set\<close> object (and winning over its keys). The
  model covers the operators \<open>$set\<close> and \<open>$unset\<close>; any other operator, an operator
  key inside them, an array as their value, and \<open>$unset\<close> of a timestamp are outside the
  model (\<open>None\<close>). A value that is not an object is rejected, with one exception the
  sugar loop makes: with sugar keys present, a falsy \<open>$set\<close> value is replaced by a
  fresh object.
\<close>

definition op_set :: "(string \<times> jval) list \<Rightarrow> (db_error + (string \<times> jval) list) option" where
  "op_set kvs =
     (let sugar = filter (\<lambda>kv. \<not> is_operator (fst kv)) kvs in
      if ''$set'' \<notin> set (map fst kvs) then Some (Inr sugar)
      else case upd_val kvs ''$set'' of
        JObj skvs \<Rightarrow> if list_ex is_operator (map fst skvs) then None else Some (Inr (skvs @ sugar))
      | JArr xs \<Rightarrow> None
      | v \<Rightarrow> if sugar \<noteq> [] \<and> \<not> truthy v then Some (Inr sugar) else Some (Inl InvalidUpdate))"

definition op_unset :: "(string \<times> jval) list \<Rightarrow> (db_error + string list) option" where
  "op_unset kvs =
     (if ''$unset'' \<notin> set (map fst kvs) then Some (Inr [])
      else case upd_val kvs ''$unset'' of
        JObj ukvs \<Rightarrow>
          if list_ex (\<lambda>k. is_operator k \<or> k = ''createdAt'' \<or> k = ''updatedAt'') (map fst ukvs) then None
          else Some (Inr (upd_keys ukvs))
      | JArr xs \<Rightarrow> None
      | v \<Rightarrow> Some (Inl InvalidUpdate))"

text \<open>The update document as the paths it sets (with their values) and the paths it unsets.\<close>

definition cast_update :: "(string \<times> jval) list \<Rightarrow> (db_error + (string \<times> jval) list \<times> string list) option" where
  "cast_update kvs =
     (if \<not> list_all (\<lambda>k. \<not> is_operator k \<or> k = ''$set'' \<or> k = ''$unset'') (map fst kvs) then None
      else case (op_set kvs, op_unset kvs) of
        (Some (Inr st), Some (Inr us)) \<Rightarrow> Some (Inr (st, us))
      | (Some (Inl err), Some _) \<Rightarrow> Some (Inl err)
      | (Some _, Some (Inl err)) \<Rightarrow> Some (Inl err)
      | _ \<Rightarrow> None)"

text \<open>
  \<open>$unset\<close> of a path: the \<open>required\<close> validator of a required path fails (update
  validators run on \<open>$unset\<close>); an optional string path is removed; other paths are
  dropped by strict mode, and \<open>_id\<close> is refused by the server.
\<close>

definition required_paths :: "string list" where
  "required_paths = [''userId'', ''category'', ''amount'', ''date'']"

definition unset_check :: "string \<Rightarrow> (string \<times> path_error) list" where
  "unset_check k = (if k \<in> set required_paths then [(k, Required)] else [])"

definition unset_field :: "string \<Rightarrow> expense \<Rightarrow> expense" where
  "unset_field k e =
     (if k = ''description'' then e\<lparr>description := None\<rparr>
      else if k = ''sender'' then e\<lparr>sender := None\<rparr>
      else if k = ''senderReceiver'' then e\<lparr>senderReceiver := None\<rparr>
      else if k = ''upiTransactionId'' then e\<lparr>upiTransactionId := None\<rparr>
      else if k = ''rawMessage'' then e\<lparr>rawMessage := None\<rparr>
      else e)"

definition apply_unset :: "string list \<Rightarrow> expense \<Rightarrow> expense" where
  "apply_unset uks e = foldl (\<lambda>x k. unset_field k x) e uks"

text \<open>The schema paths on which setting and unsetting together is a conflict.\<close>

definition conflict_paths :: "string list" where
  "conflict_paths = ''_id'' # required_paths @ opt_string_paths"

section \<open>\<open>findOneAndUpdate\<close>\<close>

text \<open>
  \<open>Expense.findOneAndUpdate({ _id: i, userId: u }, body, { new: true,
  runValidators: true })\<close> once the filter is cast: the cast errors of the update, if
  any, reject it; then the validators' errors; then the server selects the document
  (\<open>Inr None\<close> when none matches), refuses a change of \<open>_id\<close>, checks the unique
  index on \<open>(userId, date)\<close> against the other documents, and replaces the document
  in place. The result is the updated document.
\<close>

definition update_owned ::
  "date_parser \<Rightarrow> millis \<Rightarrow> oid \<Rightarrow> oid \<Rightarrow> (string \<times> jval) list \<Rightarrow> string list \<Rightarrow> db \<Rightarrow>
   db \<times> (db_error + expense option)" where
  "update_owned P now i u kvs uks s =
     (let errs = upd_errors P kvs @ concat (map unset_check uks);
          cast_errs = filter (\<lambda>pe. snd pe = CastFailed) errs;
          req_errs = filter (\<lambda>pe. snd pe = Required) errs in
      if cast_errs \<noteq> [] then (s, Inl (ValidationError cast_errs))
      else if req_errs \<noteq> [] then (s, Inl (ValidationError req_errs))
      else case find (\<lambda>k. k \<in> set (upd_keys kvs) \<and> k \<in> set conflict_paths) uks of
        Some k \<Rightarrow> (s, Inl (UpdateConflict k))
      | None \<Rightarrow>
          (case find_owned i u s of
            None \<Rightarrow> (s, Inr None)
          | Some e \<Rightarrow>
              if \<not> keeps_id kvs e \<or> ''_id'' \<in> set uks then (s, Inl (ImmutableField ''_id''))
              else
                let e' = apply_unset uks (apply_update P now kvs e);
                    others = filter (\<lambda>x. eid x \<noteq> eid e) (expenses s) in
                if expense_key e' \<in> set (map expense_key others) then (s, Inl DuplicateKey)
                else (s\<lparr>expenses := map (\<lambda>x. if eid x = eid e then e' else x) (expenses s)\<rparr>, Inr (Some e'))))"

section \<open>Properties\<close>

lemma find_owned_Some: "find_owned i u s = Some e \<Longrightarrow> e \<in> set (expenses s) \<and> eid e = i \<and> userId e = u"
  by (auto simp: find_owned_def owned_def find_Some_iff nth_mem)

lemma find_owned_None: "find_owned i u s = None \<longleftrightarrow> (\<forall>e \<in> set (expenses s). \<not> (eid e = i \<and> userId e = u))"
  by (auto simp: find_owned_def owned_def find_None_iff)

lemma eid_upd_field [simp]: "eid (upd_field P k v e) = eid e"
  by (simp add: upd_field_def split: cast.splits)

lemma eid_apply_update [simp]: "eid (apply_update P now kvs e) = eid e"
proof -
  have "\<And>x. eid (foldl (\<lambda>x k. upd_field P k (upd_val kvs k) x) x ks) = eid x" for ks
    by (induction ks) auto
  then show ?thesis by (simp add: apply_update_def)
qed

lemma apply_unset_fields [simp]:
  "eid (apply_unset uks e) = eid e" "userId (apply_unset uks e) = userId e"
  "date (apply_unset uks e) = date e" "category (apply_unset uks e) = category e"
  "amount (apply_unset uks e) = amount e" "updatedAt (apply_unset uks e) = updatedAt e"
  by (induction uks arbitrary: e) (simp_all add: apply_unset_def unset_field_def)

lemma expense_key_apply_unset [simp]: "expense_key (apply_unset uks e) = expense_key e"
  by (simp add: expense_key_def)

lemma apply_unset_Nil [simp]: "apply_unset [] e = e"
  by (simp add: apply_unset_def)

lemma cast_update_plain [simp]:
  "\<not> list_ex is_operator (map fst kvs) \<Longrightarrow> cast_update kvs = Some (Inr (kvs, []))"
proof -
  assume no: "\<not> list_ex is_operator (map fst kvs)"
  have "is_operator ''$set''" "is_operator ''$unset''" by (simp_all add: is_operator_def)
  with no have "''$set'' \<notin> set (map fst kvs)" "''$unset'' \<notin> set (map fst kvs)"
    by (force simp: list_ex_iff)+
  moreover have "filter (\<lambda>kv. \<not> is_operator (fst kv)) kvs = kvs"
    using no by (auto simp: list_ex_iff filter_id_conv)
  ultimately show ?thesis using no
    by (simp add: cast_update_def op_set_def op_unset_def list_all_iff list_ex_iff)
qed

lemma delete_owned_inv: "db_inv s \<Longrightarrow> delete_owned i u s = (s', r) \<Longrightarrow> db_inv s'"
  by (auto simp: delete_owned_def db_inv_def distinct_map_filter split: option.splits)

lemma update_owned_cases:
  assumes "update_owned P now i u kvs uks s = (s', r)"
  shows "(s' = s \<and> (r = Inr None \<or> (\<exists>err. r = Inl err))) \<or>
         (\<exists>e. find_owned i u s = Some e \<and> keeps_id kvs e \<and>
              r = Inr (Some (apply_unset uks (apply_update P now kvs e))) \<and>
              expense_key (apply_unset uks (apply_update P now kvs e)) \<notin> set (map expense_key (filter (\<lambda>x. eid x \<noteq> eid e) (expenses s))) \<and>
              s' = s\<lparr>expenses := map (\<lambda>x. if eid x = eid e then apply_unset uks (apply_update P now kvs e) else x) (expenses s)\<rparr>)"
  using assms by (auto simp: update_owned_def Let_def split: if_splits option.splits)

lemma update_owned_unowned:
  "find_owned i u s = None \<Longrightarrow> update_owned P now i u kvs uks s = (s', r) \<Longrightarrow> s' = s \<and> (r = Inr None \<or> (\<exists>err. r = Inl err))"
  using update_owned_cases by fastforce

lemma update_owned_inv:
  assumes inv: "db_inv s" and run: "update_owned P now i u kvs uks s = (s', r)"
  shows "db_inv s'"
  using update_owned_cases [OF run]
proof
  assume "s' = s \<and> (r = Inr None \<or> (\<exists>err. r = Inl err))"
  with inv show ?thesis by simp
next
  assume "\<exists>e. find_owned i u s = Some e \<and> keeps_id kvs e \<and>
              r = Inr (Some (apply_unset uks (apply_update P now kvs e))) \<and>
              expense_key (apply_unset uks (apply_update P now kvs e)) \<notin> set (map expense_key (filter (\<lambda>x. eid x \<noteq> eid e) (expenses s))) \<and>
              s' = s\<lparr>expenses := map (\<lambda>x. if eid x = eid e then apply_unset uks (apply_update P now kvs e) else x) (expenses s)\<rparr>"
  then obtain e where key: "expense_key (apply_unset uks (apply_update P now kvs e)) \<notin> expense_key ` {x \<in> set (expenses s). eid x \<noteq> eid e}"
    and s': "s' = s\<lparr>expenses := map (\<lambda>x. if eid x = eid e then apply_unset uks (apply_update P now kvs e) else x) (expenses s)\<rparr>"
    by auto
  let ?e' = "apply_unset uks (apply_update P now kvs e)"
  have ids: "map eid (expenses s') = map eid (expenses s)"
    using s' map_replace_key [of eid ?e' "eid e"] by simp
  have d1: "distinct (map expense_key (expenses s'))"
    using s' distinct_map_replace [of eid "expenses s" expense_key ?e' "eid e"] inv key
    by (simp add: db_inv_def)
  have d2: "distinct (map eid (expenses s'))"
    by (subst ids) (use inv in \<open>simp add: db_inv_def\<close>)
  have d3: "\<forall>x \<in> set (expenses s'). eid x < next_oid s'"
  proof
    fix x assume "x \<in> set (expenses s')"
    then have "eid x \<in> set (map eid (expenses s'))" by simp
    then have "eid x \<in> eid ` set (expenses s)" using ids by simp
    then show "eid x < next_oid s'" using inv s' by (auto simp: db_inv_def)
  qed
  have "users s' = users s" "next_oid s' = next_oid s" using s' by simp_all
  with d1 d2 d3 inv show ?thesis unfolding db_inv_def by simp
qed

lemma distinct_keys_dates:
  "distinct (map expense_key xs) \<Longrightarrow> \<forall>x \<in> set xs. userId x = u \<Longrightarrow> distinct (map date xs)"
  by (induction xs) (auto simp: expense_key_def)

lemma find_user_sorted_set: "set (find_user_sorted u s) = {e \<in> set (expenses s). userId e = u}"
  by (auto simp: find_user_sorted_def)

lemma find_user_sorted_desc:
  assumes "db_inv s"
  shows "sorted_wrt (\<lambda>a b. date b < date a) (find_user_sorted u s)"
proof -
  let ?ys = "filter (\<lambda>e. userId e = u) (expenses s)"
  let ?zs = "sort_key (\<lambda>e. - date e) ?ys"
  have "distinct (map expense_key ?ys)"
    using assms by (simp add: db_inv_def distinct_map_filter)
  then have "distinct (map date ?ys)" by (rule distinct_keys_dates [where u = u]) simp
  moreover have "mset (map date ?zs) = mset (map date ?ys)"
    by (simp only: mset_map mset_sort)
  ultimately have "distinct (map date ?zs)"
    using mset_eq_imp_distinct_iff by blast
  then have "distinct (map (\<lambda>e. - date e) ?zs)"
    by (simp add: distinct_map inj_on_def)
  moreover have "sorted (map (\<lambda>e. - date e) ?zs)" by simp
  ultimately have "sorted_wrt (<) (map (\<lambda>e. - date e) ?zs)"
    by (simp add: strict_sorted_iff)
  then show ?thesis by (simp add: find_user_sorted_def sorted_wrt_map)
qed

lemma find_owned_unique:
  "distinct (map eid (expenses s)) \<Longrightarrow> e \<in> set (expenses s) \<Longrightarrow> find_owned (eid e) (userId e) s = Some e"
proof -
  have "distinct (map eid xs) \<Longrightarrow> e \<in> set xs \<Longrightarrow> find (owned (eid e) (userId e)) xs = Some e" for xs
    by (induction xs) (auto simp: owned_def image_iff)
  then show "distinct (map eid (expenses s)) \<Longrightarrow> e \<in> set (expenses s) \<Longrightarrow> ?thesis"
    by (simp add: find_owned_def)
qed


lemma delete_owned_wf: "delete_owned i u s = (s', r) \<Longrightarrow> docs_wf s \<Longrightarrow> docs_wf s'"
  by (auto simp: delete_owned_def docs_wf_def list_all_iff split: option.splits)


lemma upd_field_wf: "expense_wf e \<Longrightarrow> upd_check P k v = [] \<Longrightarrow> expense_wf (upd_field P k v e)"
  by (auto simp: upd_field_def upd_check_def path_check_def expense_wf_def simp del: cast_date.simps
      split: cast.splits if_splits dest: cast_date_json_valid)


lemma apply_update_wf:
  assumes "expense_wf e" and "upd_errors P kvs = []"
  shows "expense_wf (apply_update P now kvs e)"
proof -
  have "\<forall>k \<in> set ks. upd_check P k (upd_val kvs k) = [] \<Longrightarrow> expense_wf x \<Longrightarrow>
        expense_wf (foldl (\<lambda>x k. upd_field P k (upd_val kvs k) x) x ks)" for ks x
    by (induction ks arbitrary: x) (auto intro: upd_field_wf)
  moreover have "\<forall>k \<in> set (upd_keys kvs). upd_check P k (upd_val kvs k) = []"
    using assms(2) by (simp add: upd_errors_def)
  ultimately show ?thesis using assms(1) by (simp add: apply_update_def expense_wf_def)
qed


lemma errors_split: "filter (\<lambda>pe. snd pe = CastFailed) errs = [] \<Longrightarrow> filter (\<lambda>pe. snd pe = Required) errs = [] \<Longrightarrow> errs = []"
proof (induction errs)
  case (Cons pe errs)
  then show ?case by (cases "snd pe") (auto split: if_splits)
qed simp


lemma update_owned_wf:
  assumes run: "update_owned P now i u kvs uks s = (s', r)" and wf: "docs_wf s"
  shows "docs_wf s'"
proof (cases "s' = s")
  case False
  then have ok: "upd_errors P kvs = []" using run
    by (auto simp: update_owned_def Let_def intro: errors_split split: if_splits)
  from update_owned_cases [OF run] False obtain e where e: "find_owned i u s = Some e"
    and s': "s' = s\<lparr>expenses := map (\<lambda>x. if eid x = eid e then apply_unset uks (apply_update P now kvs e) else x) (expenses s)\<rparr>"
    by blast
  have "expense_wf e" using find_owned_Some [OF e] wf by (auto simp: docs_wf_def list_all_iff)
  then have "expense_wf (apply_update P now kvs e)" using ok by (rule apply_update_wf)
  then have "expense_wf (apply_unset uks (apply_update P now kvs e))" by (simp add: expense_wf_def)
  with wf s' show ?thesis by (auto simp: docs_wf_def list_all_iff)
qed (use wf in simp)


lemma cast_update_set_sugar:
  assumes "\<not> list_ex is_operator (map fst a)" and "\<not> list_ex is_operator (map fst b)"
  shows "cast_update ((''$set'', JObj a) # b) = Some (Inr (a @ b, []))"
proof -
  have op: "is_operator ''$set''" "is_operator ''$unset''" by (simp_all add: is_operator_def)
  with assms(2) have nb: "''$set'' \<notin> set (map fst b)" "''$unset'' \<notin> set (map fst b)"
    by (force simp: list_ex_iff)+
  have f: "filter (\<lambda>kv. \<not> is_operator (fst kv)) b = b"
    using assms(2) by (auto simp: list_ex_iff filter_id_conv)
  have "map_of (rev b) ''$set'' = None" using nb by (simp add: map_of_eq_None_iff)
  then have "upd_val ((''$set'', JObj a) # b) ''$set'' = JObj a"
    by (simp add: upd_val_def map_add_def)
  with assms nb f op show ?thesis
    by (simp add: cast_update_def op_set_def op_unset_def list_all_iff list_ex_iff)
qed

lemma other_key:
  "distinct (map expense_key xs) \<Longrightarrow> e \<in> set xs \<Longrightarrow> expense_key e \<notin> set (map expense_key (filter (\<lambda>x. eid x \<noteq> eid e) xs))"
  by (induction xs) (auto simp: image_iff)

lemma unset_field_updatedAt: "unset_field k (e\<lparr>updatedAt := t\<rparr>) = (unset_field k e)\<lparr>updatedAt := t\<rparr>"
  by (simp add: unset_field_def)

lemma cast_update_unset:
  "k \<in> set required_paths \<or> k \<in> set opt_string_paths \<Longrightarrow> cast_update [(''$unset'', JObj [(k, v)])] = Some (Inr ([], [k]))"
  by (auto simp: cast_update_def op_set_def op_unset_def required_paths_def opt_string_paths_def
      is_operator_def upd_val_def upd_keys_def)

end
