(* ===== verification/Expense_Crud.thy ===== *)
theory Expense_Crud
  imports Store_Docs
begin

text \<open>
  The CRUD handlers of \<open>src/src/controllers/expense.controller.ts\<close>:
  \<open>createExpense\<close> (lines 8--20), \<open>getUserExpenses\<close> (22--30),
  \<open>getExpenseById\<close> (143--152), \<open>updateExpense\<close> (154--167) and
  \<open>deleteExpense\<close> (169--178). The theory proves that \<open>createExpense\<close> never
  succeeds (its document has no \<open>date\<close>, a required path), that no update or delete
  touches an expense of another user, that updates keep the unique indexes but may hand
  an expense over to another user, and that the list is newest first.
\<close>

section \<open>The handler\<close>

text \<open>
  The message of the \<open>TypeError\<close> V8 throws when a property of \<open>null\<close> or
  \<open>undefined\<close> is read.
\<close>

definition type_error_msg :: "jval \<Rightarrow> string \<Rightarrow> string" where
  "type_error_msg v k =
     ''Cannot read properties of '' @ js_to_string v @ '' (reading '' @ [CHR 0x27] @ k @ [CHR 0x27] @ '')''"

text \<open>The object literal of lines 10--15; the keys it does not list are \<open>undefined\<close>.\<close>

definition create_doc :: "jval \<Rightarrow> jval \<Rightarrow> jval \<Rightarrow> expense_doc" where
  "create_doc c a d =
     \<lparr>doc_category = c, doc_amount = a, doc_description = d, doc_date = DateJson JUndef,
      doc_sender = JUndef, doc_senderReceiver = JUndef, doc_upiTransactionId = JUndef,
      doc_rawMessage = JUndef\<rparr>"

definition createExpense :: "date_parser \<Rightarrow> millis \<Rightarrow> oid \<Rightarrow> jval \<Rightarrow> db \<Rightarrow> db \<times> expense response" where
  "createExpense P now u body s =
     (case (js_prop body ''category'', js_prop body ''amount'', js_prop body ''description'') of
        (Some c, Some a, Some d) \<Rightarrow>
          (case expense_create P now u (create_doc c a d) s of
             (s', Inl err) \<Rightarrow> (s', ErrMsg 400 err)
           | (s', Inr e) \<Rightarrow> (s', Body 201 e))
      | _ \<Rightarrow> (s, Msg 400 (type_error_msg body ''category'')))"

section \<open>Reading, updating and deleting one expense\<close>

text \<open>The fixed messages of lines 147, 150, 162, 173, 174 and 176.\<close>

definition not_found :: string where
  "not_found = ''Expense not found''"

definition server_error :: string where
  "server_error = ''Server error''"

definition deleted_msg :: string where
  "deleted_msg = ''Expense deleted successfully''"

text \<open>Lines 22--30; the query cannot fail once the caller's id is an \<open>ObjectId\<close>.\<close>

definition getUserExpenses :: "oid \<Rightarrow> db \<Rightarrow> expense list response" where
  "getUserExpenses u s = Body 200 (find_user_sorted u s)"

text \<open>
  Lines 143--152. The route parameter is cast when the query runs; a \<open>CastError\<close>
  lands in the \<open>catch\<close> and is answered 500.
\<close>

definition getExpenseById :: "oid \<Rightarrow> string \<Rightarrow> db \<Rightarrow> expense response" where
  "getExpenseById u p s =
     (case cast_oid (JStr p) of
        Cast i \<Rightarrow> (case find_owned i u s of None \<Rightarrow> Msg 404 not_found | Some e \<Rightarrow> Body 200 e)
      | _ \<Rightarrow> Msg 500 server_error)"

text \<open>Lines 169--178.\<close>

definition deleteExpense :: "oid \<Rightarrow> string \<Rightarrow> db \<Rightarrow> db \<times> 'a response" where
  "deleteExpense u p s =
     (case cast_oid (JStr p) of
        Cast i \<Rightarrow>
          (case delete_owned i u s of
             (s', None) \<Rightarrow> (s', Msg 404 not_found)
           | (s', Some e) \<Rightarrow> (s', Msg 200 deleted_msg))
      | _ \<Rightarrow> (s, Msg 500 server_error))"

text \<open>
  Lines 154--167. The body must be a JSON object; Mongoose casts it as an update
  document (\<open>cast_update\<close>), and bodies it reads outside the model give \<open>None\<close>. A
  \<open>CastError\<close> of the route parameter comes first; it, a rejected update document, and
  every error of \<open>update_owned\<close> land in the \<open>catch\<close> and are answered 400 with the
  error.
\<close>

definition updateExpense :: "date_parser \<Rightarrow> millis \<Rightarrow> oid \<Rightarrow> string \<Rightarrow> jval \<Rightarrow> db \<Rightarrow> (db \<times> expense response) option" where
  "updateExpense P now u p body s =
     (case body of
        JObj kvs \<Rightarrow>
          (case cast_update kvs of
             None \<Rightarrow> None
           | Some cu \<Rightarrow> Some (case cast_oid (JStr p) of
              Cast i \<Rightarrow>
                (case cu of
                   Inl err \<Rightarrow> (s, ErrMsg 400 err)
                 | Inr (st, us) \<Rightarrow>
                     (case update_owned P now i u st us s of
                        (s', Inl err) \<Rightarrow> (s', ErrMsg 400 err)
                      | (s', Inr None) \<Rightarrow> (s', Msg 404 not_found)
                      | (s', Inr (Some e)) \<Rightarrow> (s', Body 200 e)))
            | _ \<Rightarrow> (s, ErrMsg 400 (CastError ''_id''))))
      | _ \<Rightarrow> None)"

section \<open>Properties\<close>

lemma createExpense_wf: "createExpense P now u body s = (s', r) \<Longrightarrow> docs_wf s \<Longrightarrow> docs_wf s'"
  by (auto simp: createExpense_def create_doc_def date_in_ok_def split: option.splits prod.splits sum.splits
      elim!: expense_create_wf)


lemma deleteExpense_wf: "deleteExpense u p s = (s', r) \<Longrightarrow> docs_wf s \<Longrightarrow> docs_wf s'"
  by (auto simp: deleteExpense_def split: cast.splits prod.splits option.splits elim!: delete_owned_wf)


lemma updateExpense_Some:
  assumes "updateExpense P now u p body s = Some (s', r)"
  shows "(s' = s \<and> (\<exists>err. r = ErrMsg 400 err)) \<or>
         (\<exists>kvs i st us r'. body = JObj kvs \<and> cast_update kvs = Some (Inr (st, us)) \<and>
            cast_oid (JStr p) = Cast i \<and> update_owned P now i u st us s = (s', r') \<and>
            r = (case r' of Inl err \<Rightarrow> ErrMsg 400 err | Inr None \<Rightarrow> Msg 404 not_found | Inr (Some e) \<Rightarrow> Body 200 e))"
  using assms by (auto simp: updateExpense_def split: jval.splits option.splits cast.splits sum.splits prod.splits)

lemma updateExpense_wf: "updateExpense P now u p body s = Some (s', r) \<Longrightarrow> docs_wf s \<Longrightarrow> docs_wf s'"
  by (drule updateExpense_Some) (auto elim!: update_owned_wf)

lemma createExpense_db_inv: "db_inv s \<Longrightarrow> createExpense P now u body s = (s', r) \<Longrightarrow> db_inv s'"
  by (auto simp: createExpense_def split: option.splits prod.splits sum.splits intro: expense_create_inv)


lemma deleteExpense_db_inv: "db_inv s \<Longrightarrow> deleteExpense u p s = (s', r) \<Longrightarrow> db_inv s'"
  by (auto simp: deleteExpense_def split: cast.splits prod.splits option.splits intro: delete_owned_inv)


lemma updateExpense_db_inv: "db_inv s \<Longrightarrow> updateExpense P now u p body s = Some (s', r) \<Longrightarrow> db_inv s'"
  by (drule updateExpense_Some) (auto intro: update_owned_inv)

lemma create_doc_errors: "(''date'', Required) \<in> set (doc_errors P (create_doc c a d))"
  by (simp add: doc_errors_def path_check_def create_doc_def)

lemma js_prop_object: "body \<noteq> JNull \<Longrightarrow> body \<noteq> JUndef \<Longrightarrow> \<exists>v. js_prop body k = Some v"
  by (cases body) simp_all

lemma update_userId_errors [simp]:
  "v < 16 ^ 24 \<Longrightarrow> upd_errors P [(''userId'', JStr (hex_of_oid v))] = []"
  by (simp add: upd_errors_def upd_keys_def upd_val_def upd_check_def path_check_def)

lemma update_userId_apply [simp]:
  "v < 16 ^ 24 \<Longrightarrow> apply_update P now [(''userId'', JStr (hex_of_oid v))] e = e\<lparr>userId := v, updatedAt := now\<rparr>"
  by (simp add: apply_update_def upd_keys_def upd_val_def upd_field_def)


text \<open>
  C12. \<open>$unset\<close> on the owner's expense: unsetting a required path (\<open>userId\<close>,
  \<open>category\<close>, \<open>amount\<close>, \<open>date\<close>) fails its \<open>required\<close> validator and is
  answered 400 with the database unchanged; unsetting an optional string path removes it
  from the stored document, which is returned with 200 and a new \<open>updatedAt\<close>.
\<close>

theorem updateExpense_unset:
  assumes inv: "db_inv s" and e: "e \<in> set (expenses s)" and bnd: "eid e < 16 ^ 24"
  shows "(k \<in> set required_paths \<longrightarrow>
           updateExpense P now (userId e) (hex_of_oid (eid e)) (JObj [(''$unset'', JObj [(k, v)])]) s =
           Some (s, ErrMsg 400 (ValidationError [(k, Required)]))) \<and>
         (k \<in> set opt_string_paths \<longrightarrow>
           updateExpense P now (userId e) (hex_of_oid (eid e)) (JObj [(''$unset'', JObj [(k, v)])]) s =
           Some (s\<lparr>expenses := map (\<lambda>x. if eid x = eid e then (unset_field k e)\<lparr>updatedAt := now\<rparr> else x) (expenses s)\<rparr>,
                 Body 200 ((unset_field k e)\<lparr>updatedAt := now\<rparr>)))"
proof (intro conjI impI)
  assume k: "k \<in> set required_paths"
  then show "updateExpense P now (userId e) (hex_of_oid (eid e)) (JObj [(''$unset'', JObj [(k, v)])]) s =
           Some (s, ErrMsg 400 (ValidationError [(k, Required)]))"
    using bnd cast_update_unset [of k v]
    by (simp add: updateExpense_def update_owned_def unset_check_def upd_errors_def upd_keys_def Let_def)
next
  assume k: "k \<in> set opt_string_paths"
  have d: "distinct (map eid (expenses s))" "distinct (map expense_key (expenses s))"
    using inv by (simp_all add: db_inv_def)
  have fo: "find_owned (eid e) (userId e) s = Some e" by (rule find_owned_unique [OF d(1) e])
  have nr: "k \<notin> set required_paths" "k \<notin> set conflict_paths \<or> True" "k \<noteq> ''_id''"
    using k by (auto simp: required_paths_def opt_string_paths_def)
  have "expense_key e \<notin> set (map expense_key (filter (\<lambda>x. eid x \<noteq> eid e) (expenses s)))"
    by (rule other_key [OF d(2) e])
  moreover have "expense_key ((unset_field k e)\<lparr>updatedAt := now\<rparr>) = expense_key e"
    by (simp add: unset_field_def expense_key_def)
  ultimately have key: "expense_key ((unset_field k e)\<lparr>updatedAt := now\<rparr>) \<notin>
      set (map expense_key (filter (\<lambda>x. eid x \<noteq> eid e) (expenses s)))" by simp
  show "updateExpense P now (userId e) (hex_of_oid (eid e)) (JObj [(''$unset'', JObj [(k, v)])]) s =
           Some (s\<lparr>expenses := map (\<lambda>x. if eid x = eid e then (unset_field k e)\<lparr>updatedAt := now\<rparr> else x) (expenses s)\<rparr>,
                 Body 200 ((unset_field k e)\<lparr>updatedAt := now\<rparr>))"
    using bnd k nr fo key cast_update_unset [of k v]
    by (simp add: updateExpense_def update_owned_def unset_check_def upd_errors_def upd_keys_def Let_def
        keeps_id_def apply_update_def apply_unset_def unset_field_updatedAt)
qed

text \<open>
  C13. \<open>POST /api/v1/expenses\<close> can never store an expense: whatever the body, the
  document lacks the required \<open>date\<close>, \<open>Expense.create\<close> rejects it with a
  validation error naming \<open>date\<close>, the handler answers 400 and no expense is written
  (only an identifier is drawn). The spec's interface table promises 201.
\<close>

theorem createExpense_always_rejected:
  assumes "body \<noteq> JNull" and "body \<noteq> JUndef"
  shows "\<exists>errs. createExpense P now u body s =
           (s\<lparr>next_oid := next_oid s + 1\<rparr>, ErrMsg 400 (ValidationError errs)) \<and>
           (''date'', Required) \<in> set errs"
proof -
  from js_prop_object [OF assms] obtain c a d where
    p: "js_prop body ''category'' = Some c" "js_prop body ''amount'' = Some a"
       "js_prop body ''description'' = Some d"
    by metis
  have "\<exists>err. new_expense P (next_oid s) u now (create_doc c a d) = Inl err"
    by (intro new_expense_date_fail) (simp add: create_doc_def)
  then obtain err where ne: "new_expense P (next_oid s) u now (create_doc c a d) = Inl err"
    by blast
  from new_expense_Inl [OF ne] have err: "err = ValidationError (doc_errors P (create_doc c a d))"
    by blast
  have "createExpense P now u body s = (s\<lparr>next_oid := next_oid s + 1\<rparr>, ErrMsg 400 err)"
    using p ne by (simp add: createExpense_def expense_create_def alloc_ids_def)
  with err create_doc_errors show ?thesis by blast
qed

text \<open>
  C14. Ownership of updates: when the identifier does not name an expense of the caller (it names none, or one of another user), \<open>PUT /:id\<close> leaves the database unchanged and answers 404 or, when the body does not cast or validate, 400; it never answers 200. The spec asks for \<open>NotFoundError\<close> in every such case.
\<close>

theorem updateExpense_not_owner:
  assumes "\<forall>e \<in> set (expenses s). cast_oid (JStr p) = Cast (eid e) \<longrightarrow> userId e \<noteq> u"
    and "updateExpense P now u p body s = Some (s', r)"
  shows "s' = s \<and> (r = Msg 404 not_found \<or> (\<exists>err. r = ErrMsg 400 err))"
  using updateExpense_Some [OF assms(2)]
proof
  assume "\<exists>kvs i st us r'. body = JObj kvs \<and> cast_update kvs = Some (Inr (st, us)) \<and>
            cast_oid (JStr p) = Cast i \<and> update_owned P now i u st us s = (s', r') \<and>
            r = (case r' of Inl err \<Rightarrow> ErrMsg 400 err | Inr None \<Rightarrow> Msg 404 not_found | Inr (Some e) \<Rightarrow> Body 200 e)"
  then obtain i st us r' where i: "cast_oid (JStr p) = Cast i" and run: "update_owned P now i u st us s = (s', r')"
    and r: "r = (case r' of Inl err \<Rightarrow> ErrMsg 400 err | Inr None \<Rightarrow> Msg 404 not_found | Inr (Some e) \<Rightarrow> Body 200 e)"
    by blast
  have "find_owned i u s = None" using assms(1) i by (auto simp: find_owned_None)
  from update_owned_unowned [OF this run] r show ?thesis by auto
qed auto

text \<open>
  C15. Ownership of deletes: when the identifier does not name an expense of the caller, \<open>DELETE /:id\<close> leaves the database unchanged and answers 404 (500 when the identifier is not an \<open>ObjectId\<close>).
\<close>

theorem deleteExpense_not_owner:
  assumes "\<forall>e \<in> set (expenses s). cast_oid (JStr p) = Cast (eid e) \<longrightarrow> userId e \<noteq> u"
  shows "deleteExpense u p s = (s, Msg 404 not_found) \<or> deleteExpense u p s = (s, Msg 500 server_error)"
proof (cases "cast_oid (JStr p)")
  case (Cast i)
  then have "find_owned i u s = None" using assms by (auto simp: find_owned_None)
  with Cast show ?thesis by (simp add: deleteExpense_def delete_owned_def)
qed (simp_all add: deleteExpense_def)


text \<open>
  C17. The update body may set \<open>userId\<close>: an owner can move an expense to any other user (whose key at that date is free). The answer is 200, and afterwards the former owner gets 404 for it and the new owner gets it. The spec lets only the owner update an expense but does not say that ownership can be transferred.
\<close>

theorem updateExpense_reassigns_owner:
  assumes inv: "db_inv s" and e: "e \<in> set (expenses s)" and bnd: "eid e < 16 ^ 24" "v < 16 ^ 24"
    and free: "(v, date e) \<notin> set (map expense_key (expenses s))"
  shows "\<exists>s'. updateExpense P now (userId e) (hex_of_oid (eid e)) (JObj [(''userId'', JStr (hex_of_oid v))]) s =
              Some (s', Body 200 (e\<lparr>userId := v, updatedAt := now\<rparr>)) \<and>
            getExpenseById (userId e) (hex_of_oid (eid e)) s' = Msg 404 not_found \<and>
            getExpenseById v (hex_of_oid (eid e)) s' = Body 200 (e\<lparr>userId := v, updatedAt := now\<rparr>)"
proof -
  let ?kvs = "[(''userId'', JStr (hex_of_oid v))]"
  let ?e' = "e\<lparr>userId := v, updatedAt := now\<rparr>"
  define s' where "s' = s\<lparr>expenses := map (\<lambda>x. if eid x = eid e then ?e' else x) (expenses s)\<rparr>"
  have d: "distinct (map eid (expenses s))" using inv by (simp add: db_inv_def)
  have fo: "find_owned (eid e) (userId e) s = Some e" by (rule find_owned_unique [OF d e])
  have vu: "v \<noteq> userId e" using free e by (auto simp: expense_key_def image_iff)
  have "expense_key ?e' \<notin> set (map expense_key (filter (\<lambda>x. eid x \<noteq> eid e) (expenses s)))"
    using free by (auto simp: expense_key_def)
  then have run: "update_owned P now (eid e) (userId e) ?kvs [] s = (s', Inr (Some ?e'))"
    using fo bnd by (simp add: update_owned_def keeps_id_def upd_keys_def s'_def Let_def)
  have inv': "db_inv s'" by (rule update_owned_inv [OF inv run])
  have mem: "?e' \<in> set (expenses s')" using e by (force simp: s'_def)
  have "find_owned (eid e) (userId e) s' = None"
    using vu by (auto simp: find_owned_None s'_def)
  moreover have "find_owned (eid e) v s' = Some ?e'"
    using find_owned_unique [OF _ mem] inv' by (simp add: db_inv_def)
  moreover have "updateExpense P now (userId e) (hex_of_oid (eid e)) (JObj ?kvs) s = Some (s', Body 200 ?e')"
    using run bnd by (simp add: updateExpense_def is_operator_def)
  ultimately show ?thesis using bnd by (auto simp: getExpenseById_def)
qed

text \<open>
  C18. The owner deleting one of their expenses by its printed identifier removes exactly that expense, answers 200 with the confirmation, and keeps the invariant.
\<close>

theorem deleteExpense_owner:
  assumes "db_inv s" and "e \<in> set (expenses s)" and "eid e < 16 ^ 24"
  shows "deleteExpense (userId e) (hex_of_oid (eid e)) s =
           (s\<lparr>expenses := remove1 e (expenses s)\<rparr>, Msg 200 deleted_msg) \<and>
         db_inv (s\<lparr>expenses := remove1 e (expenses s)\<rparr>)"
proof -
  have d: "distinct (map eid (expenses s))" using assms(1) by (simp add: db_inv_def)
  have del: "delete_owned (eid e) (userId e) s = (s\<lparr>expenses := remove1 e (expenses s)\<rparr>, Some e)"
    using find_owned_unique [OF d assms(2)] filter_eid_remove1 [OF d assms(2)] by (simp add: delete_owned_def)
  show ?thesis
    using del delete_owned_inv [OF assms(1) del] assms(3) by (simp add: deleteExpense_def)
qed

text \<open>
  C19. Round trip of identifiers: an expense is found by its owner through the hexadecimal string of its \<open>_id\<close> (as a client reads it from a reply).
\<close>

theorem getExpenseById_owner:
  assumes "db_inv s" and "e \<in> set (expenses s)" and "eid e < 16 ^ 24"
  shows "getExpenseById (userId e) (hex_of_oid (eid e)) s = Body 200 e"
  using find_owned_unique [of s e] assms by (simp add: getExpenseById_def db_inv_def)

text \<open>
  C20. \<open>GET /\<close> lists exactly the caller's expenses, newest date first, strictly (no two share a date under the unique index).
\<close>

theorem getUserExpenses_sorted:
  assumes "db_inv s"
  shows "\<exists>xs. getUserExpenses u s = Body 200 xs \<and> set xs = {e \<in> set (expenses s). userId e = u} \<and>
           sorted_wrt (\<lambda>a b. date b < date a) xs"
  using find_user_sorted_set find_user_sorted_desc [OF assms] by (simp add: getUserExpenses_def)

section \<open>Witnesses\<close>

theorem createExpense_always_rejected_witness:
  "\<exists>errs. createExpense (\<lambda>_. None) 0 7
      (JObj [(''category'', JStr ''debit''), (''amount'', JNum 50), (''description'', JStr ''tea'')]) empty_db =
     (empty_db\<lparr>next_oid := 1\<rparr>, ErrMsg 400 (ValidationError errs)) \<and> (''date'', Required) \<in> set errs"
  using createExpense_always_rejected [of "JObj [(''category'', JStr ''debit''), (''amount'', JNum 50),
      (''description'', JStr ''tea'')]" "\<lambda>_. None" 0 7 empty_db]
  by (simp add: empty_db_def)

theorem updateExpense_not_owner_witness:
  "\<exists>s' r. updateExpense (\<lambda>_. None) 9 8 (hex_of_oid 3) (JObj [(''amount'', JStr ''ten'')]) \<lparr>expenses = [\<lparr>eid = 3, userId = 7, category = ''debit'', amount = 50, description = None, date = 100, sender = None, senderReceiver = None, upiTransactionId = None, rawMessage = None, createdAt = 0, updatedAt = 0\<rparr>], users = [], next_oid = 5\<rparr> = Some (s', r) \<and>
     s' = \<lparr>expenses = [\<lparr>eid = 3, userId = 7, category = ''debit'', amount = 50, description = None, date = 100, sender = None, senderReceiver = None, upiTransactionId = None, rawMessage = None, createdAt = 0, updatedAt = 0\<rparr>], users = [], next_oid = 5\<rparr> \<and> (r = Msg 404 not_found \<or> (\<exists>err. r = ErrMsg 400 err))"
proof -
  have run: "updateExpense (\<lambda>_. None) 9 8 (hex_of_oid 3) (JObj [(''amount'', JStr ''ten'')]) \<lparr>expenses = [\<lparr>eid = 3, userId = 7, category = ''debit'', amount = 50, description = None, date = 100, sender = None, senderReceiver = None, upiTransactionId = None, rawMessage = None, createdAt = 0, updatedAt = 0\<rparr>], users = [], next_oid = 5\<rparr> =
      Some (\<lparr>expenses = [\<lparr>eid = 3, userId = 7, category = ''debit'', amount = 50, description = None, date = 100, sender = None, senderReceiver = None, upiTransactionId = None, rawMessage = None, createdAt = 0, updatedAt = 0\<rparr>], users = [], next_oid = 5\<rparr>, ErrMsg 400 (ValidationError [(''amount'', CastFailed)]))"
    by (simp add: updateExpense_def is_operator_def update_owned_def upd_errors_def upd_keys_def upd_val_def
        upd_check_def path_check_def js_number_of_string_def js_trim_def js_space_def read_nat_def digit_val_def)
  have "\<forall>e \<in> set (expenses \<lparr>expenses = [\<lparr>eid = 3, userId = 7, category = ''debit'', amount = 50, description = None, date = 100, sender = None, senderReceiver = None, upiTransactionId = None, rawMessage = None, createdAt = 0, updatedAt = 0\<rparr>], users = [], next_oid = 5\<rparr>). cast_oid (JStr (hex_of_oid 3)) = Cast (eid e) \<longrightarrow> userId e \<noteq> 8" by simp
  from updateExpense_not_owner [OF this run] run show ?thesis by blast
qed

theorem deleteExpense_not_owner_witness:
  "deleteExpense 8 (hex_of_oid 3) \<lparr>expenses = [\<lparr>eid = 3, userId = 7, category = ''debit'', amount = 50, description = None, date = 100, sender = None, senderReceiver = None, upiTransactionId = None, rawMessage = None, createdAt = 0, updatedAt = 0\<rparr>], users = [], next_oid = 5\<rparr> = (\<lparr>expenses = [\<lparr>eid = 3, userId = 7, category = ''debit'', amount = 50, description = None, date = 100, sender = None, senderReceiver = None, upiTransactionId = None, rawMessage = None, createdAt = 0, updatedAt = 0\<rparr>], users = [], next_oid = 5\<rparr>, Msg 404 not_found) \<or> deleteExpense 8 (hex_of_oid 3) \<lparr>expenses = [\<lparr>eid = 3, userId = 7, category = ''debit'', amount = 50, description = None, date = 100, sender = None, senderReceiver = None, upiTransactionId = None, rawMessage = None, createdAt = 0, updatedAt = 0\<rparr>], users = [], next_oid = 5\<rparr> = (\<lparr>expenses = [\<lparr>eid = 3, userId = 7, category = ''debit'', amount = 50, description = None, date = 100, sender = None, senderReceiver = None, upiTransactionId = None, rawMessage = None, createdAt = 0, updatedAt = 0\<rparr>], users = [], next_oid = 5\<rparr>, Msg 500 server_error)"
  by (rule deleteExpense_not_owner) simp

theorem deleteExpense_owner_witness:
  "deleteExpense 7 (hex_of_oid 3) \<lparr>expenses = [\<lparr>eid = 3, userId = 7, category = ''debit'', amount = 50, description = None, date = 100, sender = None, senderReceiver = None, upiTransactionId = None, rawMessage = None, createdAt = 0, updatedAt = 0\<rparr>], users = [], next_oid = 5\<rparr> = (\<lparr>expenses = [], users = [], next_oid = 5\<rparr>, Msg 200 deleted_msg) \<and> db_inv \<lparr>expenses = [], users = [], next_oid = 5\<rparr>"
  using deleteExpense_owner [of "\<lparr>expenses = [\<lparr>eid = 3, userId = 7, category = ''debit'', amount = 50, description = None, date = 100, sender = None, senderReceiver = None, upiTransactionId = None, rawMessage = None, createdAt = 0, updatedAt = 0\<rparr>], users = [], next_oid = 5\<rparr>" "\<lparr>eid = 3, userId = 7, category = ''debit'', amount = 50, description = None, date = 100, sender = None, senderReceiver = None, upiTransactionId = None, rawMessage = None, createdAt = 0, updatedAt = 0\<rparr>"] by (simp add: db_inv_def expense_key_def)

theorem getExpenseById_owner_witness:
  "getExpenseById 7 (hex_of_oid 3) \<lparr>expenses = [\<lparr>eid = 3, userId = 7, category = ''debit'', amount = 50, description = None, date = 100, sender = None, senderReceiver = None, upiTransactionId = None, rawMessage = None, createdAt = 0, updatedAt = 0\<rparr>], users = [], next_oid = 5\<rparr> = Body 200 \<lparr>eid = 3, userId = 7, category = ''debit'', amount = 50, description = None, date = 100, sender = None, senderReceiver = None, upiTransactionId = None, rawMessage = None, createdAt = 0, updatedAt = 0\<rparr>"
  using getExpenseById_owner [of "\<lparr>expenses = [\<lparr>eid = 3, userId = 7, category = ''debit'', amount = 50, description = None, date = 100, sender = None, senderReceiver = None, upiTransactionId = None, rawMessage = None, createdAt = 0, updatedAt = 0\<rparr>], users = [], next_oid = 5\<rparr>" "\<lparr>eid = 3, userId = 7, category = ''debit'', amount = 50, description = None, date = 100, sender = None, senderReceiver = None, upiTransactionId = None, rawMessage = None, createdAt = 0, updatedAt = 0\<rparr>"] by (simp add: db_inv_def expense_key_def)

theorem getUserExpenses_sorted_witness:
  "\<exists>xs. getUserExpenses 7 \<lparr>expenses = [\<lparr>eid = 3, userId = 7, category = ''debit'', amount = 50, description = None, date = 100, sender = None, senderReceiver = None, upiTransactionId = None, rawMessage = None, createdAt = 0, updatedAt = 0\<rparr>, \<lparr>eid = 4, userId = 7, category = ''debit'', amount = 20, description = None, date = 200, sender = None, senderReceiver = None, upiTransactionId = None, rawMessage = None, createdAt = 0, updatedAt = 0\<rparr>], users = [], next_oid = 5\<rparr> = Body 200 xs \<and>
     set xs = {e \<in> set (expenses \<lparr>expenses = [\<lparr>eid = 3, userId = 7, category = ''debit'', amount = 50, description = None, date = 100, sender = None, senderReceiver = None, upiTransactionId = None, rawMessage = None, createdAt = 0, updatedAt = 0\<rparr>, \<lparr>eid = 4, userId = 7, category = ''debit'', amount = 20, description = None, date = 200, sender = None, senderReceiver = None, upiTransactionId = None, rawMessage = None, createdAt = 0, updatedAt = 0\<rparr>], users = [], next_oid = 5\<rparr>). userId e = 7} \<and> sorted_wrt (\<lambda>a b. date b < date a) xs"
proof -
  have "db_inv \<lparr>expenses = [\<lparr>eid = 3, userId = 7, category = ''debit'', amount = 50, description = None, date = 100, sender = None, senderReceiver = None, upiTransactionId = None, rawMessage = None, createdAt = 0, updatedAt = 0\<rparr>, \<lparr>eid = 4, userId = 7, category = ''debit'', amount = 20, description = None, date = 200, sender = None, senderReceiver = None, upiTransactionId = None, rawMessage = None, createdAt = 0, updatedAt = 0\<rparr>], users = [], next_oid = 5\<rparr>" by (simp add: db_inv_def expense_key_def)
  from getUserExpenses_sorted [OF this, of 7] show ?thesis .
qed


theorem updateExpense_reassigns_owner_witness:
  "\<exists>s'. updateExpense (\<lambda>_. None) 9 7 (hex_of_oid 3) (JObj [(''userId'', JStr (hex_of_oid 8))]) \<lparr>expenses = [\<lparr>eid = 3, userId = 7, category = ''debit'', amount = 50, description = None, date = 100, sender = None, senderReceiver = None, upiTransactionId = None, rawMessage = None, createdAt = 0, updatedAt = 0\<rparr>], users = [], next_oid = 5\<rparr> =
      Some (s', Body 200 \<lparr>eid = 3, userId = 8, category = ''debit'', amount = 50, description = None, date = 100, sender = None, senderReceiver = None, upiTransactionId = None, rawMessage = None, createdAt = 0, updatedAt = 9\<rparr>) \<and>
    getExpenseById 7 (hex_of_oid 3) s' = Msg 404 not_found \<and> getExpenseById 8 (hex_of_oid 3) s' = Body 200 \<lparr>eid = 3, userId = 8, category = ''debit'', amount = 50, description = None, date = 100, sender = None, senderReceiver = None, upiTransactionId = None, rawMessage = None, createdAt = 0, updatedAt = 9\<rparr>"
  using updateExpense_reassigns_owner [of "\<lparr>expenses = [\<lparr>eid = 3, userId = 7, category = ''debit'', amount = 50, description = None, date = 100, sender = None, senderReceiver = None, upiTransactionId = None, rawMessage = None, createdAt = 0, updatedAt = 0\<rparr>], users = [], next_oid = 5\<rparr>" "\<lparr>eid = 3, userId = 7, category = ''debit'', amount = 50, description = None, date = 100, sender = None, senderReceiver = None, upiTransactionId = None, rawMessage = None, createdAt = 0, updatedAt = 0\<rparr>" 8 "\<lambda>_. None" 9] by (simp add: db_inv_def expense_key_def)



theorem updateExpense_unset_witness:
  "updateExpense (\<lambda>_. None) 9 7 (hex_of_oid 3) (JObj [(''$unset'', JObj [(''sender'', JNum 1)])])
     \<lparr>expenses = [\<lparr>eid = 3, userId = 7, category = ''debit'', amount = 50, description = None, date = 100, sender = Some ''VM-HDFC'', senderReceiver = None, upiTransactionId = None, rawMessage = None, createdAt = 0, updatedAt = 0\<rparr>], users = [], next_oid = 5\<rparr> =
   Some (\<lparr>expenses = [\<lparr>eid = 3, userId = 7, category = ''debit'', amount = 50, description = None, date = 100, sender = None, senderReceiver = None, upiTransactionId = None, rawMessage = None, createdAt = 0, updatedAt = 9\<rparr>], users = [], next_oid = 5\<rparr>,
     Body 200 \<lparr>eid = 3, userId = 7, category = ''debit'', amount = 50, description = None, date = 100, sender = None, senderReceiver = None, upiTransactionId = None, rawMessage = None, createdAt = 0, updatedAt = 9\<rparr>)"
  using updateExpense_unset [of "\<lparr>expenses = [\<lparr>eid = 3, userId = 7, category = ''debit'', amount = 50, description = None, date = 100, sender = Some ''VM-HDFC'', senderReceiver = None, upiTransactionId = None, rawMessage = None, createdAt = 0, updatedAt = 0\<rparr>], users = [], next_oid = 5\<rparr>"
      "\<lparr>eid = 3, userId = 7, category = ''debit'', amount = 50, description = None, date = 100, sender = Some ''VM-HDFC'', senderReceiver = None, upiTransactionId = None, rawMessage = None, createdAt = 0, updatedAt = 0\<rparr>"
      "''sender''" "\<lambda>_. None" 9 "JNum 1"]
  by (simp add: db_inv_def expense_key_def required_paths_def opt_string_paths_def unset_field_def)

end
