(* ===== verification/User_Auth.thy ===== *)
theory User_Auth
  imports Store_Docs
begin

text \<open>
  The user handlers of \<open>src/src/controllers/user.controller.ts\<close> and the writes and
  reads of the user collection of \<open>src/src/models/User.ts\<close> they issue.
  \<open>createUser\<close> (lines 7--15, \<open>POST /api/v1/users\<close>) stores the \<open>name\<close>,
  \<open>email\<close> and \<open>passwordHash\<close> of the body as they are; \<open>loginUser\<close> (lines 17--43,
  \<open>POST /api/v1/users/login\<close>) looks the user up by \<open>email\<close>, compares the password
  with the stored hash through \<open>bcrypt.compare\<close> and signs a token with
  \<open>jwt.sign\<close>. The two library functions are parameters: \<open>bcmp p h\<close> is
  \<open>bcrypt.compare(p, h)\<close> on strings, \<open>sign i e t\<close> the token of payload
  \<open>{ id: i, email: e }\<close> issued at time \<open>t\<close> with a lifetime of one hour.
  The theory proves that every outcome keeps the unique index on \<open>email\<close>, what a
  login answers, and that a user whose stored \<open>passwordHash\<close> is not a bcrypt hash
  can never log in.
\<close>

section \<open>The user document\<close>

text \<open>
  \<open>User.create({ name, email, passwordHash })\<close>: the three paths are required
  strings (the empty string fails \<open>required\<close>), in schema order.
\<close>

definition user_errors :: "jval \<Rightarrow> jval \<Rightarrow> jval \<Rightarrow> (string \<times> path_error) list" where
  "user_errors n e h =
      path_check ''name'' True nonempty_str (cast_string n)
    @ path_check ''email'' True nonempty_str (cast_string e)
    @ path_check ''passwordHash'' True nonempty_str (cast_string h)"

definition new_user :: "oid \<Rightarrow> millis \<Rightarrow> jval \<Rightarrow> jval \<Rightarrow> jval \<Rightarrow> db_error + user" where
  "new_user i now n e h =
     (case (cast_string n, cast_string e, cast_string h) of
        (Cast n', Cast e', Cast h') \<Rightarrow>
          if user_errors n e h = [] then
            Inr \<lparr>uid = i, name = n', email = e', passwordHash = h', user_createdAt = now, user_updatedAt = now\<rparr>
          else Inl (ValidationError (user_errors n e h))
      | _ \<Rightarrow> Inl (ValidationError (user_errors n e h)))"

text \<open>An insert into the user collection under its unique indexes \<open>email\<close> and \<open>_id\<close>.\<close>

definition insert_user :: "db \<Rightarrow> user \<Rightarrow> db_error + db" where
  "insert_user s usr =
     (if email usr \<in> set (map email (users s)) \<or> uid usr \<in> set (map uid (users s))
      then Inl DuplicateKey
      else Inr (s\<lparr>users := users s @ [usr]\<rparr>))"

definition user_create :: "millis \<Rightarrow> jval \<Rightarrow> jval \<Rightarrow> jval \<Rightarrow> db \<Rightarrow> db \<times> (db_error + user)" where
  "user_create now n e h s =
     (let (ids, s1) = alloc_ids s 1 in
      case new_user (hd ids) now n e h of
        Inl err \<Rightarrow> (s1, Inl err)
      | Inr usr \<Rightarrow> (case insert_user s1 usr of Inl err \<Rightarrow> (s1, Inl err) | Inr s2 \<Rightarrow> (s2, Inr usr)))"

section \<open>Looking a user up by email\<close>

text \<open>
  \<open>User.findOne({ email })\<close> with the body's value: a value that casts to a string
  selects the first user with that email; \<open>null\<close> (and \<open>undefined\<close>, which the driver
  sends as \<open>null\<close>) selects no user, since every stored email is a string; an array is
  cast element by element to \<open>{ $in: [...] }\<close>; a value that does not cast is a
  \<open>CastError\<close>. An object with an operator key (\<open>{ $ne: null }\<close>, \<dots>) is a query
  operator, outside the model (\<open>None\<close>).
\<close>

definition email_matches :: "jval \<Rightarrow> (db_error + (string \<Rightarrow> bool)) option" where
  "email_matches v =
     (case v of
        JArr xs \<Rightarrow>
          Some (if list_ex (\<lambda>x. cast_string x = CastFail) xs then Inl (CastError ''email'')
                else Inr (\<lambda>m. Cast m \<in> set (map cast_string xs)))
      | JObj kvs \<Rightarrow>
          if list_ex is_operator (map fst kvs) then None
          else Some (case cast_string v of Cast m \<Rightarrow> Inr (\<lambda>m'. m' = m) | _ \<Rightarrow> Inl (CastError ''email''))
      | _ \<Rightarrow>
          Some (case cast_string v of
                  Cast m \<Rightarrow> Inr (\<lambda>m'. m' = m)
                | Absent \<Rightarrow> Inr (\<lambda>m'. False)
                | CastFail \<Rightarrow> Inl (CastError ''email'')))"

definition find_user :: "jval \<Rightarrow> db \<Rightarrow> (db_error + user option) option" where
  "find_user v s = map_option (map_sum id (\<lambda>f. find (\<lambda>usr. f (email usr)) (users s))) (email_matches v)"

section \<open>The handlers\<close>

text \<open>
  Destructuring \<open>req.body\<close> throws when the body is \<open>null\<close> or \<open>undefined\<close>; the
  message names the first property.
\<close>

definition destructure_msg :: "jval \<Rightarrow> string \<Rightarrow> string" where
  "destructure_msg v k =
     ''Cannot destructure property '' @ [CHR 0x27] @ k @ [CHR 0x27] @ '' of '' @ [CHR 0x27] @ ''req.body'' @
     [CHR 0x27] @ '' as it is '' @ js_to_string v @ ''.''"

text \<open>Lines 7--15.\<close>

definition createUser :: "millis \<Rightarrow> jval \<Rightarrow> db \<Rightarrow> db \<times> user response" where
  "createUser now body s =
     (case (js_prop body ''name'', js_prop body ''email'', js_prop body ''passwordHash'') of
        (Some n, Some e, Some h) \<Rightarrow>
          (case user_create now n e h s of
             (s', Inl err) \<Rightarrow> (s', ErrMsg 400 err)
           | (s', Inr usr) \<Rightarrow> (s', Body 201 usr))
      | _ \<Rightarrow> (s, Msg 400 (destructure_msg body ''name'')))"

text \<open>The body of a successful login (lines 36--39).\<close>

record login_result =
  token :: string
  login_id :: oid
  login_email :: string
  login_name :: string

definition invalid_username :: string where
  "invalid_username = ''Invalid Username''"

definition invalid_password :: string where
  "invalid_password = ''Invalid Password''"

definition login_server_error :: string where
  "login_server_error = ''Server error''"

text \<open>
  Lines 17--43. A lookup error, a password that is not a string (\<open>bcrypt.compare\<close>
  rejects with \<open>Illegal arguments\<close>) and a destructuring error all land in the
  \<open>catch\<close> (500). Logging in does not change the database.
\<close>

definition loginUser ::
  "(string \<Rightarrow> string \<Rightarrow> bool) \<Rightarrow> (oid \<Rightarrow> string \<Rightarrow> millis \<Rightarrow> string) \<Rightarrow> millis \<Rightarrow> jval \<Rightarrow> db \<Rightarrow>
   login_result response option" where
  "loginUser bcmp sign now body s =
     (case (js_prop body ''email'', js_prop body ''password'') of
        (Some e, Some pw) \<Rightarrow>
          map_option
            (\<lambda>r. case r of
                   Inl err \<Rightarrow> Msg 500 login_server_error
                 | Inr None \<Rightarrow> Msg 400 invalid_username
                 | Inr (Some usr) \<Rightarrow>
                     (case pw of
                        JStr p \<Rightarrow>
                          if bcmp p (passwordHash usr)
                          then Body 200 \<lparr>token = sign (uid usr) (email usr) now, login_id = uid usr,
                                         login_email = email usr, login_name = name usr\<rparr>
                          else Msg 400 invalid_password
                      | _ \<Rightarrow> Msg 500 login_server_error))
            (find_user e s)
      | _ \<Rightarrow> Some (Msg 500 login_server_error))"

section \<open>Lemmas\<close>

lemma new_user_Inr:
  "new_user i now n e h = Inr usr \<Longrightarrow>
   uid usr = i \<and> cast_string n = Cast (name usr) \<and> cast_string e = Cast (email usr) \<and> cast_string h = Cast (passwordHash usr)"
  by (auto simp: new_user_def split: cast.splits if_splits)

lemma new_user_valid:
  "cast_string n = Cast n' \<Longrightarrow> cast_string e = Cast e' \<Longrightarrow> cast_string h = Cast h' \<Longrightarrow> user_errors n e h = [] \<Longrightarrow>
   new_user i now n e h = Inr \<lparr>uid = i, name = n', email = e', passwordHash = h', user_createdAt = now, user_updatedAt = now\<rparr>"
  by (simp add: new_user_def)

lemma insert_user_Inr:
  "insert_user s usr = Inr s' \<Longrightarrow>
   s' = s\<lparr>users := users s @ [usr]\<rparr> \<and> email usr \<notin> email ` set (users s) \<and> uid usr \<notin> uid ` set (users s)"
  by (auto simp: insert_user_def split: if_splits)

lemma user_create_outcome:
  assumes inv: "db_inv s" and run: "user_create now n e h s = (s', r)"
  shows "db_inv s' \<and> expenses s' = expenses s \<and>
         (case r of Inl err \<Rightarrow> users s' = users s | Inr usr \<Rightarrow> users s' = users s @ [usr])"
proof -
  obtain ids s1 where al: "alloc_ids s 1 = (ids, s1)" by fastforce
  note a = alloc_ids_inv [OF inv al]
  have ids: "ids = [next_oid s]" and nx: "next_oid s1 = next_oid s + 1" using al by (auto simp: alloc_ids_def)
  show ?thesis
  proof (cases "new_user (hd ids) now n e h")
    case (Inl err)
    with run al have "s' = s1" "r = Inl err" by (simp_all add: user_create_def)
    with a show ?thesis by simp
  next
    case (Inr usr)
    show ?thesis
    proof (cases "insert_user s1 usr")
      case (Inl err)
      with run al Inr have "s' = s1" "r = Inl err" by (simp_all add: user_create_def)
      with a show ?thesis by simp
    next
      case ins: (Inr s2)
      with run al Inr have s': "s' = s2" "r = Inr usr" by (simp_all add: user_create_def)
      have "uid usr = next_oid s" using new_user_Inr [OF Inr] ids by simp
      with insert_user_Inr [OF ins] a nx s' show ?thesis
        by (auto simp: db_inv_def)
    qed
  qed
qed


lemma user_create_wf: "user_create now n e h s = (s', r) \<Longrightarrow> docs_wf s \<Longrightarrow> docs_wf s'"
  by (auto simp: user_create_def alloc_ids_def insert_user_def docs_wf_def user_wf_def new_user_def
      user_errors_def path_check_def split: sum.splits if_splits cast.splits)


lemma createUser_wf: "createUser now body s = (s', r) \<Longrightarrow> docs_wf s \<Longrightarrow> docs_wf s'"
  by (auto simp: createUser_def split: option.splits prod.splits sum.splits elim!: user_create_wf)


lemma createUser_db_inv: "db_inv s \<Longrightarrow> createUser now body s = (s', r) \<Longrightarrow> db_inv s'"
  by (auto simp: createUser_def split: option.splits prod.splits sum.splits dest: user_create_outcome)

lemma find_user_str: "find_user (JStr e) s = Some (Inr (find (\<lambda>usr. email usr = e) (users s)))"
  by (simp add: find_user_def email_matches_def)

lemma login_str:
  "loginUser bcmp sign now (JObj [(''email'', JStr e), (''password'', JStr p)]) s =
   Some (case find (\<lambda>usr. email usr = e) (users s) of
           None \<Rightarrow> Msg 400 invalid_username
         | Some usr \<Rightarrow>
             if bcmp p (passwordHash usr)
             then Body 200 \<lparr>token = sign (uid usr) (email usr) now, login_id = uid usr,
                            login_email = email usr, login_name = name usr\<rparr>
             else Msg 400 invalid_password)"
  by (simp add: loginUser_def find_user_str split: option.splits)

lemma find_user_Some:
  assumes "find_user e s = Some (Inr (Some usr))"
  shows "usr \<in> set (users s)"
proof -
  obtain z where "email_matches e = Some z" "map_sum id (\<lambda>f. find (\<lambda>usr. f (email usr)) (users s)) z = Inr (Some usr)"
    using assms by (auto simp: find_user_def)
  then obtain f where "find (\<lambda>usr. f (email usr)) (users s) = Some usr" by (cases z) auto
  then show ?thesis by (simp add: find_Some_iff) (metis nth_mem)
qed

lemma loginUser_Body:
  assumes "loginUser bcmp sign t body s = Some (Body c lr)"
  shows "\<exists>usr \<in> set (users s). token lr = sign (uid usr) (email usr) t \<and> login_id lr = uid usr \<and>
           login_email lr = email usr"
proof -
  obtain e pw where p: "js_prop body ''email'' = Some e" "js_prop body ''password'' = Some pw"
    using assms by (auto simp: loginUser_def split: option.splits)
  obtain r where f: "find_user e s = Some r" using assms p by (auto simp: loginUser_def)
  obtain usr where r: "r = Inr (Some usr)"
    using assms p f by (cases r) (auto simp: loginUser_def split: option.splits)
  have "usr \<in> set (users s)" using f r by (simp add: find_user_Some)
  then show ?thesis
    using assms p f r by (auto simp: loginUser_def split: jval.splits if_splits)
qed

section \<open>Properties of the user handlers\<close>

text \<open>
  C27. Every outcome of \<open>POST /api/v1/users\<close> keeps the unique indexes and identifier freshness, leaves the expenses alone, and adds exactly the created user when it answers 201.
\<close>

theorem createUser_keeps_invariant:
  assumes "db_inv s" and "createUser now body s = (s', r)"
  shows "db_inv s' \<and> expenses s' = expenses s \<and> (users s' = users s \<or> (\<exists>usr. r = Body 201 usr \<and> users s' = users s @ [usr]))"
proof (cases "(js_prop body ''name'', js_prop body ''email'', js_prop body ''passwordHash'')")
  case (fields a b c)
  show ?thesis
  proof (cases "\<exists>n e h. a = Some n \<and> b = Some e \<and> c = Some h")
    case True
    then obtain n e h where abc: "a = Some n" "b = Some e" "c = Some h" by blast
    obtain s1 r1 where uc: "user_create now n e h s = (s1, r1)" by fastforce
    from user_create_outcome [OF assms(1) uc] assms(2) fields abc uc show ?thesis
      by (cases r1) (auto simp: createUser_def)
  next
    case False
    with assms fields show ?thesis by (auto simp: createUser_def split: option.splits)
  qed
qed

text \<open>
  C28. Signing up with an email that is already registered is refused with the duplicate-key error (400), and no user is added; only an identifier is drawn.
\<close>

theorem createUser_duplicate_email:
  assumes inv: "db_inv s" and old: "usr0 \<in> set (users s)"
    and n: "cast_string n = Cast n'" and e: "cast_string e = Cast (email usr0)" and h: "cast_string h = Cast h'"
    and ok: "user_errors n e h = []"
  shows "createUser now (JObj [(''name'', n), (''email'', e), (''passwordHash'', h)]) s =
           (s\<lparr>next_oid := next_oid s + 1\<rparr>, ErrMsg 400 DuplicateKey)"
proof -
  have "email usr0 \<in> set (map email (users s))" using old by simp
  then show ?thesis
    using new_user_valid [OF n e h ok, of "next_oid s" now]
    by (simp add: createUser_def user_create_def alloc_ids_def insert_user_def)
qed

text \<open>
  C29. A registered user whose password matches the stored hash logs in: 200 with the token signed for their id and email, and their id, email and name.
\<close>

theorem loginUser_accepts:
  assumes inv: "db_inv s" and usr: "usr \<in> set (users s)" and pw: "bcmp p (passwordHash usr)"
  shows "loginUser bcmp sign now (JObj [(''email'', JStr (email usr)), (''password'', JStr p)]) s =
           Some (Body 200 \<lparr>token = sign (uid usr) (email usr) now, login_id = uid usr,
                           login_email = email usr, login_name = name usr\<rparr>)"
  using find_unique_key [of email "users s" usr] inv usr pw by (simp add: login_str db_inv_def)

text \<open>
  C30. A login whose password matches no user of that email is refused with 400: \<open>Invalid Password\<close> when the email is registered, \<open>Invalid Username\<close> otherwise.
\<close>

theorem loginUser_rejects:
  assumes inv: "db_inv s" and bad: "\<forall>usr \<in> set (users s). email usr = e \<longrightarrow> \<not> bcmp p (passwordHash usr)"
  shows "loginUser bcmp sign now (JObj [(''email'', JStr e), (''password'', JStr p)]) s =
           Some (Msg 400 (if e \<in> email ` set (users s) then invalid_password else invalid_username))"
proof (cases "find (\<lambda>usr. email usr = e) (users s)")
  case None
  then have "e \<notin> email ` set (users s)" by (auto simp: find_None_iff)
  with None show ?thesis by (simp add: login_str)
next
  case (Some usr)
  then have "usr \<in> set (users s)" "email usr = e" by (auto simp: find_Some_iff)
  with Some bad show ?thesis by (auto simp: login_str)
qed

text \<open>
  The server stores the \<open>passwordHash\<close> of the sign-up body as it is. With \<open>bcrypt.compare\<close>, which accepts only 60-character bcrypt hashes, a user who signed up with a plain password can never log in with it.
\<close>

theorem loginUser_unhashed_password:
  assumes bc: "\<forall>p h. bcmp p h \<longrightarrow> length h = 60" and inv: "db_inv s"
    and run: "createUser now (JObj [(''name'', JStr n), (''email'', JStr e), (''passwordHash'', JStr p)]) s = (s', Body 201 usr)"
    and len: "length p \<noteq> 60"
  shows "loginUser bcmp sign now' (JObj [(''email'', JStr e), (''password'', JStr p)]) s' = Some (Msg 400 invalid_password)"
proof -
  obtain s1 r1 where uc: "user_create now (JStr n) (JStr e) (JStr p) s = (s1, r1)" by fastforce
  with run have r1: "r1 = Inr usr" "s1 = s'" by (auto simp: createUser_def split: sum.splits)
  from user_create_outcome [OF inv uc] r1 have inv': "db_inv s'" and us: "users s' = users s @ [usr]" by simp_all
  have "usr \<in> set (users s')" using us by simp
  moreover have "email usr = e" "passwordHash usr = p"
    using uc r1 by (auto simp: user_create_def alloc_ids_def split: sum.splits dest!: new_user_Inr)
  ultimately have "find (\<lambda>u. email u = e) (users s') = Some usr"
    using find_unique_key [of email "users s'" usr] inv' by (simp add: db_inv_def)
  with bc len \<open>passwordHash usr = p\<close> show ?thesis by (auto simp: login_str)
qed

section \<open>Witnesses\<close>

theorem createUser_keeps_invariant_witness:
  "db_inv empty_db \<and>
   db_inv (fst (createUser 0 (JObj [(''name'', JStr ''Ann''), (''email'', JStr ''a@x.io''), (''passwordHash'', JStr ''h'')]) empty_db))"
proof -
  have h: "db_inv empty_db" by (simp add: db_inv_def empty_db_def)
  from createUser_keeps_invariant [OF h surjective_pairing] h show ?thesis by simp
qed

theorem createUser_duplicate_email_witness:
  "createUser 1 (JObj [(''name'', JStr ''Bob''), (''email'', JStr ''a@x.io''), (''passwordHash'', JStr ''h'')])
      \<lparr>expenses = [], users = [\<lparr>uid = 0, name = ''Ann'', email = ''a@x.io'', passwordHash = ''pw#'',
          user_createdAt = 0, user_updatedAt = 0\<rparr>], next_oid = 1\<rparr> =
   (\<lparr>expenses = [], users = [\<lparr>uid = 0, name = ''Ann'', email = ''a@x.io'', passwordHash = ''pw#'',
          user_createdAt = 0, user_updatedAt = 0\<rparr>], next_oid = 2\<rparr>, ErrMsg 400 DuplicateKey)"
  using createUser_duplicate_email
    [of "\<lparr>expenses = [], users = [\<lparr>uid = 0, name = ''Ann'', email = ''a@x.io'', passwordHash = ''pw#'',
          user_createdAt = 0, user_updatedAt = 0\<rparr>], next_oid = 1\<rparr>"
        "\<lparr>uid = 0, name = ''Ann'', email = ''a@x.io'', passwordHash = ''pw#'', user_createdAt = 0, user_updatedAt = 0\<rparr>"
        "JStr ''Bob''" "''Bob''" "JStr ''a@x.io''" "JStr ''h''" "''h''" 1]
  by (simp add: db_inv_def user_errors_def path_check_def nonempty_str_def)

theorem loginUser_accepts_witness:
  "loginUser (\<lambda>p h. h = p @ ''#'') (\<lambda>i e t. ''tok'') 9 (JObj [(''email'', JStr ''a@x.io''), (''password'', JStr ''pw'')])
      \<lparr>expenses = [], users = [\<lparr>uid = 0, name = ''Ann'', email = ''a@x.io'', passwordHash = ''pw#'',
          user_createdAt = 0, user_updatedAt = 0\<rparr>], next_oid = 1\<rparr> =
   Some (Body 200 \<lparr>token = ''tok'', login_id = 0, login_email = ''a@x.io'', login_name = ''Ann''\<rparr>)"
  using loginUser_accepts
    [of "\<lparr>expenses = [], users = [\<lparr>uid = 0, name = ''Ann'', email = ''a@x.io'', passwordHash = ''pw#'',
          user_createdAt = 0, user_updatedAt = 0\<rparr>], next_oid = 1\<rparr>"
        "\<lparr>uid = 0, name = ''Ann'', email = ''a@x.io'', passwordHash = ''pw#'', user_createdAt = 0, user_updatedAt = 0\<rparr>"
        "\<lambda>p h. h = p @ ''#''" "''pw''" "\<lambda>i e t. ''tok''" 9]
  by (simp add: db_inv_def)

theorem loginUser_rejects_witness:
  "loginUser (\<lambda>p h. h = p @ ''#'') (\<lambda>i e t. ''tok'') 9 (JObj [(''email'', JStr ''a@x.io''), (''password'', JStr ''no'')])
      \<lparr>expenses = [], users = [\<lparr>uid = 0, name = ''Ann'', email = ''a@x.io'', passwordHash = ''pw#'',
          user_createdAt = 0, user_updatedAt = 0\<rparr>], next_oid = 1\<rparr> =
   Some (Msg 400 invalid_password)"
  using loginUser_rejects
    [of "\<lparr>expenses = [], users = [\<lparr>uid = 0, name = ''Ann'', email = ''a@x.io'', passwordHash = ''pw#'',
          user_createdAt = 0, user_updatedAt = 0\<rparr>], next_oid = 1\<rparr>"
        "''a@x.io''" "\<lambda>p h. h = p @ ''#''" "''no''" "\<lambda>i e t. ''tok''" 9]
  by (simp add: db_inv_def)

theorem loginUser_unhashed_password_witness:
  "loginUser (\<lambda>p h. length h = 60) (\<lambda>i e t. ''tok'') 9 (JObj [(''email'', JStr ''a@x.io''), (''password'', JStr ''pw'')])
     (fst (createUser 0 (JObj [(''name'', JStr ''Ann''), (''email'', JStr ''a@x.io''), (''passwordHash'', JStr ''pw'')]) empty_db)) =
   Some (Msg 400 invalid_password)"
proof -
  have run: "createUser 0 (JObj [(''name'', JStr ''Ann''), (''email'', JStr ''a@x.io''), (''passwordHash'', JStr ''pw'')]) empty_db =
     (\<lparr>expenses = [], users = [\<lparr>uid = 0, name = ''Ann'', email = ''a@x.io'', passwordHash = ''pw'',
          user_createdAt = 0, user_updatedAt = 0\<rparr>], next_oid = 1\<rparr>,
      Body 201 \<lparr>uid = 0, name = ''Ann'', email = ''a@x.io'', passwordHash = ''pw'', user_createdAt = 0, user_updatedAt = 0\<rparr>)"
    by (simp add: createUser_def user_create_def alloc_ids_def new_user_def user_errors_def path_check_def
        nonempty_str_def insert_user_def empty_db_def)
  have "\<forall>p h. length h = 60 \<longrightarrow> length h = (60::nat)" "db_inv empty_db" "length ''pw'' \<noteq> 60"
    by (simp_all add: db_inv_def empty_db_def)
  from loginUser_unhashed_password [OF this(1,2) run this(3)] run show ?thesis by simp
qed

end
