(* ===== verification/Routes.thy ===== *)
theory Routes
  imports Prelude
begin

text \<open>
  The routing of the Express application: the three routers of \<open>src/src/routes\<close>
  (\<open>testRoutes.ts\<close>, \<open>user.routes.ts\<close>, \<open>expese.routes.ts\<close>) and their mount
  points in \<open>src/src/app.ts\<close> (lines 20--22). A route is a method, a path pattern of
  literal segments and parameters, whether \<open>authMiddleware\<close> guards it, and its
  handler. Express dispatches a request to the first route, in registration order, whose
  method and pattern match; literal segments match case-insensitively, a parameter
  matches one non-empty segment, and one trailing slash is ignored (the defaults
  \<open>caseSensitive: false\<close>, \<open>strict: false\<close>). The theory proves that the dispatch
  implements the interface table of the spec, except that \<open>GET /:id\<close> never sees the
  identifier \<open>monthly\<close>, which \<open>GET /monthly\<close>, registered first, takes.
\<close>

section \<open>Routes\<close>

datatype http_method = GET | POST | PUT | DELETE | OtherMethod

datatype handler =
    TestAPI | CreateUser | LoginUser
  | CreateExpense | GetUserExpenses | GetMonthlyExpenses | GetExpenseById | UpdateExpense
  | DeleteExpense | SyncExpenses

datatype seg = Lit string | Param

record route =
  rt_method :: http_method
  rt_path :: "seg list"
  rt_auth :: bool
  rt_handler :: handler

text \<open>\<open>expese.routes.ts\<close>, lines 16--22, in registration order.\<close>

definition expense_routes :: "route list" where
  "expense_routes =
     [\<lparr>rt_method = POST, rt_path = [], rt_auth = True, rt_handler = CreateExpense\<rparr>,
      \<lparr>rt_method = GET, rt_path = [], rt_auth = True, rt_handler = GetUserExpenses\<rparr>,
      \<lparr>rt_method = GET, rt_path = [Lit ''monthly''], rt_auth = True, rt_handler = GetMonthlyExpenses\<rparr>,
      \<lparr>rt_method = GET, rt_path = [Param], rt_auth = True, rt_handler = GetExpenseById\<rparr>,
      \<lparr>rt_method = PUT, rt_path = [Param], rt_auth = True, rt_handler = UpdateExpense\<rparr>,
      \<lparr>rt_method = DELETE, rt_path = [Param], rt_auth = True, rt_handler = DeleteExpense\<rparr>,
      \<lparr>rt_method = POST, rt_path = [Lit ''sync''], rt_auth = True, rt_handler = SyncExpenses\<rparr>]"

text \<open>\<open>user.routes.ts\<close>, lines 7--8, and \<open>testRoutes.ts\<close>, line 6.\<close>

definition user_routes :: "route list" where
  "user_routes =
     [\<lparr>rt_method = POST, rt_path = [], rt_auth = False, rt_handler = CreateUser\<rparr>,
      \<lparr>rt_method = POST, rt_path = [Lit ''login''], rt_auth = False, rt_handler = LoginUser\<rparr>]"

definition test_routes :: "route list" where
  "test_routes = [\<lparr>rt_method = GET, rt_path = [], rt_auth = False, rt_handler = TestAPI\<rparr>]"

text \<open>\<open>app.ts\<close>, lines 20--22: the mount points, in order.\<close>

definition app_mounts :: "(string list \<times> route list) list" where
  "app_mounts =
     [([''api'', ''test''], test_routes),
      ([''api'', ''v1'', ''users''], user_routes),
      ([''api'', ''v1'', ''expenses''], expense_routes)]"

section \<open>Matching a path\<close>

text \<open>ASCII case folding, as the router's case-insensitive regular expressions do.\<close>

definition ascii_lower :: "char \<Rightarrow> char" where
  "ascii_lower c = (let k = (of_char c :: nat) in if 65 \<le> k \<and> k \<le> 90 then char_of (k + 32) else c)"

definition seg_eq :: "string \<Rightarrow> string \<Rightarrow> bool" where
  "seg_eq a b \<longleftrightarrow> map ascii_lower a = map ascii_lower b"

fun split_on :: "char \<Rightarrow> string \<Rightarrow> string list" where
  "split_on c [] = [[]]"
| "split_on c (x # xs) =
     (if x = c then [] # split_on c xs
      else (case split_on c xs of w # ws \<Rightarrow> (x # w) # ws | [] \<Rightarrow> [[x]]))"

text \<open>
  The segments of a request path (which starts with \<open>/\<close>); one trailing slash is
  dropped.
\<close>

definition path_segs :: "string \<Rightarrow> string list" where
  "path_segs p = (let ss = tl (split_on (CHR ''/'') p) in if ss \<noteq> [] \<and> last ss = [] then butlast ss else ss)"

text \<open>A pattern against the segments: the values of its parameters, or no match.\<close>

fun match_segs :: "seg list \<Rightarrow> string list \<Rightarrow> string list option" where
  "match_segs [] [] = Some []"
| "match_segs (Lit l # ps) (s # ss) = (if seg_eq l s then match_segs ps ss else None)"
| "match_segs (Param # ps) (s # ss) = (if s \<noteq> [] then map_option (Cons s) (match_segs ps ss) else None)"
| "match_segs ps ss = None"

text \<open>\<open>app.use(mount, router)\<close> hands the router the rest of a path below its mount.\<close>

fun strip_mount :: "string list \<Rightarrow> string list \<Rightarrow> string list option" where
  "strip_mount [] ss = Some ss"
| "strip_mount (m # ms) (s # ss) = (if seg_eq m s then strip_mount ms ss else None)"
| "strip_mount ms [] = None"

fun first_some :: "('a \<Rightarrow> 'b option) \<Rightarrow> 'a list \<Rightarrow> 'b option" where
  "first_some f [] = None"
| "first_some f (x # xs) = (case f x of Some y \<Rightarrow> Some y | None \<Rightarrow> first_some f xs)"

definition router_match :: "http_method \<Rightarrow> string list \<Rightarrow> route list \<Rightarrow> (route \<times> string list) option" where
  "router_match m ss rs =
     first_some (\<lambda>r. if rt_method r = m then map_option (\<lambda>ps. (r, ps)) (match_segs (rt_path r) ss) else None) rs"

text \<open>
  The route that answers a request, with the values of its parameters; \<open>None\<close> when
  no route matches (Express's default 404).
\<close>

definition dispatch :: "http_method \<Rightarrow> string \<Rightarrow> (route \<times> string list) option" where
  "dispatch m p =
     first_some (\<lambda>(mnt, rs). case strip_mount mnt (path_segs p) of None \<Rightarrow> None | Some rest \<Rightarrow> router_match m rest rs)
       app_mounts"

section \<open>The interface table of the spec\<close>

text \<open>
  Section 6 of the spec: method, path below \<open>/api/v1\<close> (\<open>Param\<close> for \<open>:id\<close>),
  whether a bearer token is required, and the handler.
\<close>

definition spec_interface :: "(http_method \<times> string list \<times> bool \<times> handler) list" where
  "spec_interface =
     [(POST, [''users''], False, CreateUser),
      (POST, [''users'', ''login''], False, LoginUser),
      (POST, [''expenses''], True, CreateExpense),
      (GET, [''expenses''], True, GetUserExpenses),
      (GET, [''expenses'', ''monthly''], True, GetMonthlyExpenses),
      (GET, [''expenses'', '':id''], True, GetExpenseById),
      (PUT, [''expenses'', '':id''], True, UpdateExpense),
      (DELETE, [''expenses'', '':id''], True, DeleteExpense),
      (POST, [''expenses'', ''sync''], True, SyncExpenses)]"

text \<open>The path of a row with \<open>:id\<close> replaced by \<open>x\<close>.\<close>

definition spec_path :: "string list \<Rightarrow> string \<Rightarrow> string" where
  "spec_path tpl x = concat (map (\<lambda>w. CHR ''/'' # (if w = '':id'' then x else w)) ([''api'', ''v1''] @ tpl))"


section \<open>Lemmas\<close>

text \<open>The definitions that compute a dispatch on a literal path.\<close>

lemmas route_simps = dispatch_def app_mounts_def path_segs_def seg_eq_def ascii_lower_def router_match_def
  expense_routes_def user_routes_def test_routes_def

lemma split_on_no_sep: "c \<notin> set w \<Longrightarrow> split_on c w = [w]"
  by (induction w) auto

lemma split_on_append: "c \<notin> set w \<Longrightarrow> split_on c (w @ c # r) = w # split_on c r"
  by (induction w) (auto split: list.splits)

lemma split_on_segments:
  "ws \<noteq> [] \<Longrightarrow> \<forall>w \<in> set ws. c \<notin> set w \<Longrightarrow> split_on c (concat (map (\<lambda>w. c # w) ws)) = [] # ws"
proof (induction ws)
  case (Cons w ws)
  show ?case
  proof (cases ws)
    case Nil
    with Cons.prems show ?thesis by (simp add: split_on_no_sep)
  next
    case (Cons w' ws')
    with Cons.IH Cons.prems have "split_on c (concat (map (\<lambda>w. c # w) ws)) = [] # ws" by simp
    then have "split_on c (tl (concat (map (\<lambda>w. c # w) ws))) = ws" using Cons by simp
    with Cons.prems Cons show ?thesis by (simp add: split_on_append)
  qed
qed simp

lemma path_segs_concat:
  "ws \<noteq> [] \<Longrightarrow> \<forall>w \<in> set ws. CHR ''/'' \<notin> set w \<Longrightarrow> last ws \<noteq> [] \<Longrightarrow>
   path_segs (concat (map (\<lambda>w. CHR ''/'' # w) ws)) = ws"
  by (simp add: path_segs_def split_on_segments)

lemma seg_eq_sym: "seg_eq a b = seg_eq b a"
  by (auto simp: seg_eq_def)

lemma seg_eq_refl [simp]: "seg_eq a a"
  by (simp add: seg_eq_def)

lemma spec_interface_segs:
  "(m, tpl, a, h) \<in> set spec_interface \<Longrightarrow> tpl \<noteq> [] \<and> (\<forall>w \<in> set tpl. w \<noteq> [] \<and> CHR ''/'' \<notin> set w)"
  by (auto simp: spec_interface_def)

lemma path_segs_spec_path:
  assumes x: "x \<noteq> []" "CHR ''/'' \<notin> set x" and row: "(m, tpl, a, h) \<in> set spec_interface"
  shows "path_segs (spec_path tpl x) = [''api'', ''v1''] @ map (\<lambda>w. if w = '':id'' then x else w) tpl"
proof -
  let ?f = "\<lambda>w. if w = '':id'' then x else w"
  from spec_interface_segs [OF row] have t: "tpl \<noteq> []" "\<forall>w \<in> set tpl. w \<noteq> [] \<and> CHR ''/'' \<notin> set w" by auto
  define ws where "ws = map ?f ([''api'', ''v1''] @ tpl)"
  have sp: "spec_path tpl x = concat (map (\<lambda>w. CHR ''/'' # w) ws)"
    by (simp add: spec_path_def comp_def ws_def)
  have "ws \<noteq> []" "\<forall>w \<in> set ws. CHR ''/'' \<notin> set w" "last ws \<noteq> []"
    using t x by (auto simp: ws_def last_map)
  then have "path_segs (spec_path tpl x) = ws" unfolding sp by (rule path_segs_concat)
  then show ?thesis by (simp add: ws_def)
qed

section \<open>Properties of the routing\<close>

text \<open>
  C32. The dispatch implements the interface table of the spec (section 6): every row, with any
  identifier for \<open>:id\<close> that is a single non-empty path segment and not \<open>monthly\<close> in
  any letter case, reaches the row's handler, behind the authentication middleware exactly
  when the row requires a bearer token.
\<close>

theorem dispatch_implements_interface:
  "list_all (\<lambda>(m, tpl, a, h). \<forall>x. x \<noteq> [] \<and> CHR ''/'' \<notin> set x \<and> \<not> seg_eq x ''monthly'' \<longrightarrow>
      map_option (\<lambda>(r, ps). (rt_handler r, rt_auth r)) (dispatch m (spec_path tpl x)) = Some (h, a))
    spec_interface"
proof -
  have "map_option (\<lambda>(r, ps). (rt_handler r, rt_auth r)) (dispatch m (spec_path tpl x)) = Some (h, a)"
    if row: "(m, tpl, a, h) \<in> set spec_interface" and x: "x \<noteq> []" "CHR ''/'' \<notin> set x" "\<not> seg_eq x ''monthly''"
    for m tpl a h x
  proof -
    have ps: "path_segs (spec_path tpl x) = [''api'', ''v1''] @ map (\<lambda>w. if w = '':id'' then x else w) tpl"
      using path_segs_spec_path [OF x(1,2) row] .
    have nm: "\<not> seg_eq ''monthly'' x" using x(3) by (simp add: seg_eq_sym)
    have lits: "\<not> seg_eq ''test'' ''v1''" "\<not> seg_eq ''users'' ''expenses''"
      by (simp_all add: seg_eq_def ascii_lower_def)
    from row show ?thesis
      unfolding spec_interface_def
      by (auto simp: ps dispatch_def app_mounts_def expense_routes_def user_routes_def test_routes_def
          router_match_def x(1) nm lits)
  qed
  then show ?thesis by (auto simp: list_all_iff)
qed


theorem dispatch_implements_interface_witness:
  "map_option (\<lambda>(r, ps). (rt_handler r, rt_auth r)) (dispatch GET ''/api/v1/expenses/abc'') = Some (GetExpenseById, True)"
proof -
  have "\<forall>x. x \<noteq> [] \<and> CHR ''/'' \<notin> set x \<and> \<not> seg_eq x ''monthly'' \<longrightarrow>
      map_option (\<lambda>(r, ps). (rt_handler r, rt_auth r)) (dispatch GET (spec_path [''expenses'', '':id''] x)) =
      Some (GetExpenseById, True)"
    using dispatch_implements_interface by (simp add: spec_interface_def)
  from this [rule_format, of "''abc''"] show ?thesis
    by (simp add: spec_path_def seg_eq_def ascii_lower_def)
qed

end
