(* ===== verification/App.thy ===== *)
theory App
  imports Routes Expense_Sync Expense_Monthly Expense_Crud User_Auth
begin

text \<open>
  The application as a whole: a request is dispatched by the routing of \<open>app.ts\<close>,
  checked by the authentication middleware when its route requires it, and handled by
  the controller, all on one database. The middleware \<open>middleware/authMiddleware.ts\<close>
  is not in the repository; it is modelled from the spec (section 6): the bearer token
  is the one \<open>loginUser\<close> signed, and it is accepted during one hour after it was
  issued. \<open>decode t\<close> is the verification of a token's signature, giving its payload
  \<open>(id, email, issued-at)\<close>. The handler lemmas of the components compose here into
  the two state invariants of the whole application: the unique indexes (\<open>db_inv\<close>)
  and the conformance of stored documents to their schemas (\<open>docs_wf\<close>).
\<close>

section \<open>Requests and replies\<close>

record request =
  rq_method :: http_method
  rq_path :: string
  rq_token :: "string option"
  rq_body :: jval

datatype reply =
    RUser "user response"
  | RLogin "login_result response"
  | RExpense "expense response"
  | RExpenses "expense list response"
  | RMonthly "month_summary list response"
  | RSync "sync_result response"
  | RDeleted "unit response"
  | RNotFound
  | RUnauthorized

definition token_lifetime :: millis where
  "token_lifetime = 3600000"

text \<open>The authentication middleware: the caller's id, or no authenticated caller.\<close>

definition auth_user :: "(string \<Rightarrow> (oid \<times> string \<times> millis) option) \<Rightarrow> millis \<Rightarrow> string option \<Rightarrow> oid option" where
  "auth_user decode now tok =
     (case tok of
        None \<Rightarrow> None
      | Some t \<Rightarrow>
          (case decode t of
             None \<Rightarrow> None
           | Some (i, e, iat) \<Rightarrow> if now < iat + token_lifetime then Some i else None))"

text \<open>
  The controller of a route, for the authenticated caller when there is one. The test
  controller is not in the repository (\<open>None\<close>), nor is a handler that needs a caller
  reached without one.
\<close>

definition run_handler ::
  "date_parser \<Rightarrow> (string \<Rightarrow> string \<Rightarrow> bool) \<Rightarrow> (oid \<Rightarrow> string \<Rightarrow> millis \<Rightarrow> string) \<Rightarrow> millis \<Rightarrow>
   handler \<Rightarrow> oid option \<Rightarrow> string list \<Rightarrow> jval \<Rightarrow> db \<Rightarrow> (db \<times> reply) option" where
  "run_handler P bcmp sign now h uo ps body s =
     (case h of
        TestAPI \<Rightarrow> None
      | CreateUser \<Rightarrow> (case createUser now body s of (s', r) \<Rightarrow> Some (s', RUser r))
      | LoginUser \<Rightarrow> map_option (\<lambda>r. (s, RLogin r)) (loginUser bcmp sign now body s)
      | CreateExpense \<Rightarrow>
          Option.bind uo (\<lambda>u. case createExpense P now u body s of (s', r) \<Rightarrow> Some (s', RExpense r))
      | GetUserExpenses \<Rightarrow> map_option (\<lambda>u. (s, RExpenses (getUserExpenses u s))) uo
      | GetMonthlyExpenses \<Rightarrow> map_option (\<lambda>u. (s, RMonthly (getMonthlyExpenses u s))) uo
      | GetExpenseById \<Rightarrow> map_option (\<lambda>u. (s, RExpense (getExpenseById u (hd ps) s))) uo
      | UpdateExpense \<Rightarrow>
          Option.bind uo (\<lambda>u. map_option (\<lambda>(s', r). (s', RExpense r)) (updateExpense P now u (hd ps) body s))
      | DeleteExpense \<Rightarrow>
          Option.bind uo (\<lambda>u. case deleteExpense u (hd ps) s of (s', r) \<Rightarrow> Some (s', RDeleted r))
      | SyncExpenses \<Rightarrow>
          Option.bind uo (\<lambda>u. case syncExpenses P now u body s of (s', r) \<Rightarrow> Some (s', RSync r)))"

text \<open>
  One request: Express's default 404 when no route matches, the middleware's refusal
  when the route requires a token and there is no valid one, the controller otherwise.
\<close>

definition app_handle ::
  "date_parser \<Rightarrow> (string \<Rightarrow> string \<Rightarrow> bool) \<Rightarrow> (oid \<Rightarrow> string \<Rightarrow> millis \<Rightarrow> string) \<Rightarrow>
   (string \<Rightarrow> (oid \<times> string \<times> millis) option) \<Rightarrow> millis \<Rightarrow> request \<Rightarrow> db \<Rightarrow> (db \<times> reply) option" where
  "app_handle P bcmp sign decode now rq s =
     (case dispatch (rq_method rq) (rq_path rq) of
        None \<Rightarrow> Some (s, RNotFound)
      | Some (r, ps) \<Rightarrow>
          if rt_auth r then
            (case auth_user decode now (rq_token rq) of
               None \<Rightarrow> Some (s, RUnauthorized)
             | Some u \<Rightarrow> run_handler P bcmp sign now (rt_handler r) (Some u) ps (rq_body rq) s)
          else run_handler P bcmp sign now (rt_handler r) None ps (rq_body rq) s)"


section \<open>Lemmas\<close>

lemmas handler_db_inv =
  createExpense_db_inv [OF _ surjective_pairing] deleteExpense_db_inv [OF _ surjective_pairing]
  syncExpenses_db_inv [OF _ surjective_pairing] createUser_db_inv [OF _ surjective_pairing]

lemma run_handler_inv:
  "db_inv s \<Longrightarrow> run_handler P bcmp sign now h uo ps body s = Some (s', r) \<Longrightarrow> db_inv s'"
  by (cases h)
     (auto simp: run_handler_def bind_eq_Some_conv case_prod_beta
           dest: updateExpense_db_inv intro: handler_db_inv)

lemmas handler_wf =
  createExpense_wf [OF surjective_pairing] deleteExpense_wf [OF surjective_pairing]
  syncExpenses_wf [OF surjective_pairing] createUser_wf [OF surjective_pairing]


lemma run_handler_wf:
  "docs_wf s \<Longrightarrow> run_handler P bcmp sign now h uo ps body s = Some (s', r) \<Longrightarrow> docs_wf s'"
  by (cases h)
     (auto simp: run_handler_def bind_eq_Some_conv case_prod_beta
           dest: updateExpense_wf intro: handler_wf)

section \<open>Properties of the application\<close>

text \<open>
  C11. Every request the application answers keeps every stored document conforming to its
  schema (\<open>docs_wf\<close>): the required strings of expenses and users are non-empty and
  every expense date is a valid time value, whatever the route, the token and the body.
\<close>

theorem app_keeps_schema:
  assumes "docs_wf s" and "app_handle P bcmp sign decode now rq s = Some (s', r)"
  shows "docs_wf s'"
  using assms run_handler_wf [OF assms(1)]
  by (auto simp: app_handle_def split: option.splits prod.splits if_splits)

theorem app_keeps_schema_witness:
  "docs_wf empty_db \<and>
   docs_wf (fst (the (app_handle (\<lambda>_. None) (\<lambda>_ _. False) (\<lambda>_ _ _. '''') (\<lambda>_. None) 0
     \<lparr>rq_method = POST, rq_path = ''/api/v1/users'', rq_token = None,
      rq_body = JObj [(''name'', JStr ''Ann''), (''email'', JStr ''a@x.io''), (''passwordHash'', JStr ''h'')]\<rparr>
     empty_db)))"
proof -
  have h: "docs_wf empty_db" by (simp add: docs_wf_def empty_db_def)
  have d: "dispatch POST ''/api/v1/users'' = Some (\<lparr>rt_method = POST, rt_path = [], rt_auth = False, rt_handler = CreateUser\<rparr>, [])"
    by (simp add: route_simps)
  obtain s' r where "app_handle (\<lambda>_. None) (\<lambda>_ _. False) (\<lambda>_ _ _. '''') (\<lambda>_. None) 0
     \<lparr>rq_method = POST, rq_path = ''/api/v1/users'', rq_token = None,
      rq_body = JObj [(''name'', JStr ''Ann''), (''email'', JStr ''a@x.io''), (''passwordHash'', JStr ''h'')]\<rparr>
     empty_db = Some (s', r)"
    by (simp add: app_handle_def d run_handler_def case_prod_beta)
  with app_keeps_schema [OF h this] h show ?thesis by simp
qed

text \<open>
  C33. Every request the application answers keeps the unique indexes of both
  collections and the freshness of the identifier counter (\<open>db_inv\<close>), whatever the route,
  the token and the body.
\<close>

theorem app_keeps_invariant:
  assumes "db_inv s" and "app_handle P bcmp sign decode now rq s = Some (s', r)"
  shows "db_inv s'"
  using assms run_handler_inv [OF assms(1)]
  by (auto simp: app_handle_def split: option.splits prod.splits if_splits)

theorem app_keeps_invariant_witness:
  "db_inv empty_db \<and>
   db_inv (fst (the (app_handle (\<lambda>_. None) (\<lambda>_ _. False) (\<lambda>_ _ _. '''') (\<lambda>_. None) 0
     \<lparr>rq_method = POST, rq_path = ''/api/v1/users'', rq_token = None,
      rq_body = JObj [(''name'', JStr ''Ann''), (''email'', JStr ''a@x.io''), (''passwordHash'', JStr ''h'')]\<rparr>
     empty_db)))"
proof -
  have h: "db_inv empty_db" by (simp add: db_inv_def empty_db_def)
  have d: "dispatch POST ''/api/v1/users'' = Some (\<lparr>rt_method = POST, rt_path = [], rt_auth = False, rt_handler = CreateUser\<rparr>, [])"
    by (simp add: route_simps)
  have "\<exists>r. app_handle (\<lambda>_. None) (\<lambda>_ _. False) (\<lambda>_ _ _. '''') (\<lambda>_. None) 0
     \<lparr>rq_method = POST, rq_path = ''/api/v1/users'', rq_token = None,
      rq_body = JObj [(''name'', JStr ''Ann''), (''email'', JStr ''a@x.io''), (''passwordHash'', JStr ''h'')]\<rparr>
     empty_db = Some r"
    by (simp add: app_handle_def d run_handler_def case_prod_beta)
  then obtain s' r where "app_handle (\<lambda>_. None) (\<lambda>_ _. False) (\<lambda>_ _ _. '''') (\<lambda>_. None) 0
     \<lparr>rq_method = POST, rq_path = ''/api/v1/users'', rq_token = None,
      rq_body = JObj [(''name'', JStr ''Ann''), (''email'', JStr ''a@x.io''), (''passwordHash'', JStr ''h'')]\<rparr>
     empty_db = Some (s', r)" by auto
  with app_keeps_invariant [OF h this] h show ?thesis by simp
qed





text \<open>
  C36. \<open>GET /api/v1/expenses/sync\<close> with a valid token reaches \<open>getExpenseById\<close> with the
  id \<open>sync\<close>, which is not an \<open>ObjectId\<close>, and is answered 500 rather than 404 or a
  listing: the sync route exists only for \<open>POST\<close>.
\<close>

theorem app_get_sync_server_error:
  assumes "auth_user decode now tok = Some u"
  shows "app_handle P bcmp sign decode now \<lparr>rq_method = GET, rq_path = ''/api/v1/expenses/sync'', rq_token = tok, rq_body = body\<rparr> s =
         Some (s, RExpense (Msg 500 server_error))"
proof -
  have d: "dispatch GET ''/api/v1/expenses/sync'' =
      Some (\<lparr>rt_method = GET, rt_path = [Param], rt_auth = True, rt_handler = GetExpenseById\<rparr>, [''sync''])"
    by (simp add: route_simps)
  have "cast_oid (JStr ''sync'') = CastFail" by (simp add: cast_oid_def oid_cast_str_def oid_of_hex_def)
  then show ?thesis using assms by (simp add: app_handle_def d run_handler_def getExpenseById_def)
qed

theorem app_get_sync_server_error_witness:
  "app_handle (\<lambda>_. None) (\<lambda>_ _. False) (\<lambda>_ _ _. '''') (\<lambda>_. Some (0, ''a@x.io'', 9)) 10
     \<lparr>rq_method = GET, rq_path = ''/api/v1/expenses/sync'', rq_token = Some ''tok'', rq_body = JObj []\<rparr> empty_db =
   Some (empty_db, RExpense (Msg 500 server_error))"
  using app_get_sync_server_error [of "\<lambda>_. Some (0, ''a@x.io'', 9)" 10 "Some ''tok''" 0 "\<lambda>_. None" "\<lambda>_ _. False" "\<lambda>_ _ _. ''''"]
  by (simp add: auth_user_def token_lifetime_def)

end
