(* ===== verification/Validation.thy ===== *)
theory Validation
  imports Json "HOL-Library.Sublist" "HOL-Library.Char_ord"
begin

text \<open>
  The validation utilities of \<open>utils/validation.ts\<close>. Each of its regular expressions
  is anchored (\<open>^...$\<close>, no flags), so \<open>RegExp.prototype.test\<close> asks whether the
  whole string is in the pattern's language. A pattern is a term of \<open>rx\<close>; a lookahead
  \<open>(?=r)\<close> right after \<open>^\<close> holds when a prefix of the input matches \<open>r\<close>, which
  is the intersection with \<open>r\<close> followed by anything. \<open>rx_test\<close> decides membership by
  Brzozowski derivatives and is proved to agree with the language \<open>lang\<close>. Strings are
  lists of 8-bit code units, so the classes are restricted to them: \<open>\s\<close> is the
  white space \<open>js_space\<close> of \<open>Json\<close> that \<open>String.prototype.trim\<close> removes.
\<close>

section \<open>Regular expressions\<close>

datatype rx = Zero | Eps | Cls "char \<Rightarrow> bool" | Alt rx rx | Conc rx rx | Star rx | Inter rx rx

inductive_set lstar :: "string set \<Rightarrow> string set" for L where
  lstar_Nil [simp, intro!]: "[] \<in> lstar L"
| lstar_app [intro]: "u \<in> L \<Longrightarrow> v \<in> lstar L \<Longrightarrow> u @ v \<in> lstar L"

primrec lang :: "rx \<Rightarrow> string set" where
  "lang Zero = {}"
| "lang Eps = {[]}"
| "lang (Cls p) = {[c] | c. p c}"
| "lang (Alt r s) = lang r \<union> lang s"
| "lang (Conc r s) = {u @ v | u v. u \<in> lang r \<and> v \<in> lang s}"
| "lang (Star r) = lstar (lang r)"
| "lang (Inter r s) = lang r \<inter> lang s"

primrec nullable :: "rx \<Rightarrow> bool" where
  "nullable Zero = False"
| "nullable Eps = True"
| "nullable (Cls p) = False"
| "nullable (Alt r s) = (nullable r \<or> nullable s)"
| "nullable (Conc r s) = (nullable r \<and> nullable s)"
| "nullable (Star r) = True"
| "nullable (Inter r s) = (nullable r \<and> nullable s)"

text \<open>Smart constructors keep the derivatives small by removing \<open>Zero\<close> and \<open>Eps\<close>.\<close>

fun alt :: "rx \<Rightarrow> rx \<Rightarrow> rx" where
  "alt Zero s = s"
| "alt r Zero = r"
| "alt r s = Alt r s"

fun conc :: "rx \<Rightarrow> rx \<Rightarrow> rx" where
  "conc Zero s = Zero"
| "conc Eps s = s"
| "conc r s = Conc r s"

primrec deriv :: "char \<Rightarrow> rx \<Rightarrow> rx" where
  "deriv c Zero = Zero"
| "deriv c Eps = Zero"
| "deriv c (Cls p) = (if p c then Eps else Zero)"
| "deriv c (Alt r s) = alt (deriv c r) (deriv c s)"
| "deriv c (Conc r s) =
     (if nullable r then alt (conc (deriv c r) s) (deriv c s) else conc (deriv c r) s)"
| "deriv c (Star r) = conc (deriv c r) (Star r)"
| "deriv c (Inter r s) = Inter (deriv c r) (deriv c s)"

definition rx_test :: "rx \<Rightarrow> string \<Rightarrow> bool" where
  "rx_test r w = nullable (fold deriv w r)"

definition rx_plus :: "rx \<Rightarrow> rx" where
  "rx_plus r = Conc r (Star r)"

primrec rx_rep :: "nat \<Rightarrow> rx \<Rightarrow> rx" where
  "rx_rep 0 r = Eps"
| "rx_rep (Suc n) r = Conc r (rx_rep n r)"

definition rx_any :: rx where
  "rx_any = Star (Cls (\<lambda>_. True))"

text \<open>\<open>(?=r)\<close> at the start of an anchored pattern.\<close>

definition lookahead :: "rx \<Rightarrow> rx" where
  "lookahead r = Conc r rx_any"

section \<open>Character classes\<close>

text \<open>\<open>.\<close> without the \<open>s\<close> flag: any code unit but a line terminator.\<close>

definition js_dot :: "char \<Rightarrow> bool" where
  "js_dot c = (c \<noteq> CHR 0x0A \<and> c \<noteq> CHR 0x0D)"

definition is_lower :: "char \<Rightarrow> bool" where
  "is_lower c = (CHR ''a'' \<le> c \<and> c \<le> CHR ''z'')"

definition is_upper :: "char \<Rightarrow> bool" where
  "is_upper c = (CHR ''A'' \<le> c \<and> c \<le> CHR ''Z'')"

definition is_digit :: "char \<Rightarrow> bool" where
  "is_digit c = (CHR ''0'' \<le> c \<and> c \<le> CHR ''9'')"

definition pw_special :: "char \<Rightarrow> bool" where
  "pw_special c = (c \<in> set ''@$!%*?&'')"

section \<open>The validators\<close>

text \<open>\<open>validateEmail\<close>, lines 3--6: \<open>/^[^\s@]+@[^\s@]+\.[^\s@]+$/\<close>.\<close>

definition email_char :: "char \<Rightarrow> bool" where
  "email_char c = (\<not> js_space c \<and> c \<noteq> CHR ''@'')"

definition email_rx :: rx where
  "email_rx =
     Conc (rx_plus (Cls email_char))
      (Conc (Cls (\<lambda>c. c = CHR ''@''))
        (Conc (rx_plus (Cls email_char))
          (Conc (Cls (\<lambda>c. c = CHR ''.'')) (rx_plus (Cls email_char)))))"

definition validateEmail :: "string \<Rightarrow> bool" where
  "validateEmail email = rx_test email_rx email"

text \<open>
  \<open>validatePassword\<close>, lines 8--12:
  \<open>/^(?=.*[a-z])(?=.*[A-Z])(?=.*\d)(?=.*[@$!%*?&])[A-Za-z\d@$!%*?&]{8,}$/\<close>.
\<close>

definition pw_char :: "char \<Rightarrow> bool" where
  "pw_char c = (is_lower c \<or> is_upper c \<or> is_digit c \<or> pw_special c)"

definition password_rx :: rx where
  "password_rx =
     Inter (lookahead (Conc (Star (Cls js_dot)) (Cls is_lower)))
      (Inter (lookahead (Conc (Star (Cls js_dot)) (Cls is_upper)))
        (Inter (lookahead (Conc (Star (Cls js_dot)) (Cls is_digit)))
          (Inter (lookahead (Conc (Star (Cls js_dot)) (Cls pw_special)))
            (Conc (rx_rep 8 (Cls pw_char)) (Star (Cls pw_char))))))"

definition validatePassword :: "string \<Rightarrow> bool" where
  "validatePassword password = rx_test password_rx password"

text \<open>\<open>sanitizeInput\<close>, lines 14--16: \<open>trim\<close>, then every \<open><\<close> and \<open>>\<close> removed.\<close>

definition sanitizeInput :: "string \<Rightarrow> string" where
  "sanitizeInput input = filter (\<lambda>c. c \<noteq> CHR ''<'' \<and> c \<noteq> CHR ''>'') (js_trim input)"

text \<open>\<open>validateName\<close>, lines 18--20.\<close>

definition name_char :: "char \<Rightarrow> bool" where
  "name_char c = (is_lower c \<or> is_upper c \<or> js_space c)"

definition validateName :: "string \<Rightarrow> bool" where
  "validateName name = (2 \<le> length name \<and> length name \<le> 50 \<and> rx_test (rx_plus (Cls name_char)) name)"


section \<open>The matcher decides the language\<close>

lemma nullable_lang: "nullable r \<longleftrightarrow> [] \<in> lang r"
  by (induction r) auto

lemma lang_alt [simp]: "lang (alt r s) = lang (Alt r s)"
  by (induction r s rule: alt.induct) auto

lemma lang_conc [simp]: "lang (conc r s) = lang (Conc r s)"
  by (induction r s rule: conc.induct) auto

lemma lstar_Cons:
  "c # w \<in> lstar L \<longleftrightarrow> (\<exists>u v. w = u @ v \<and> c # u \<in> L \<and> v \<in> lstar L)"
proof
  have "x \<in> lstar L \<Longrightarrow> x = c # w \<Longrightarrow> \<exists>u v. w = u @ v \<and> c # u \<in> L \<and> v \<in> lstar L" for x w
  proof (induction x arbitrary: w rule: lstar.induct)
    case (lstar_app u v)
    show ?case
    proof (cases u)
      case Nil
      then show ?thesis using lstar_app by simp
    next
      case (Cons a u')
      then show ?thesis using lstar_app by auto
    qed
  qed simp
  then show "c # w \<in> lstar L \<Longrightarrow> \<exists>u v. w = u @ v \<and> c # u \<in> L \<and> v \<in> lstar L" by blast
next
  show "\<exists>u v. w = u @ v \<and> c # u \<in> L \<and> v \<in> lstar L \<Longrightarrow> c # w \<in> lstar L"
    using lstar_app [of "c # _" L] by auto
qed

lemma lang_deriv: "lang (deriv c r) = {w. c # w \<in> lang r}"
  by (induction r) (auto simp: nullable_lang lstar_Cons Cons_eq_append_conv)

theorem rx_test_lang: "rx_test r w \<longleftrightarrow> w \<in> lang r"
proof -
  have "nullable (fold deriv w r) \<longleftrightarrow> w \<in> lang r" for r
    by (induction w arbitrary: r) (auto simp: nullable_lang lang_deriv)
  then show ?thesis by (simp add: rx_test_def)
qed

section \<open>The languages of the patterns\<close>

lemma lang_Cls_eq [simp]: "lang (Cls (\<lambda>c. c = x)) = {[x]}"
  by auto

lemma conc_singletons [simp]: "{u @ v | u v. u \<in> {[c] | c. p c} \<and> v \<in> L} = {c # v | c v. p c \<and> v \<in> L}"
  by auto (metis append_Cons append_Nil)

lemma ex_singleton_prefix [simp]:
  "(\<exists>u v. xs = u @ v \<and> (\<exists>c. u = [c] \<and> P c) \<and> Q v) \<longleftrightarrow> (case xs of [] \<Rightarrow> False | c # v \<Rightarrow> P c \<and> Q v)"
proof (cases xs)
  case (Cons c v)
  have "(\<exists>u w. c # v = u @ w \<and> (\<exists>d. u = [d] \<and> P d) \<and> Q w) \<longleftrightarrow> P c \<and> Q v"
  proof
    assume "P c \<and> Q v"
    then show "\<exists>u w. c # v = u @ w \<and> (\<exists>d. u = [d] \<and> P d) \<and> Q w"
      by (intro exI [of _ "[c]"] exI [of _ v]) simp
  qed auto
  with Cons show ?thesis by simp
qed simp

lemma lstar_Cls [simp]: "lstar {[c] | c. p c} = {w. list_all p w}"
proof -
  have "w \<in> lstar {[c] | c. p c} \<Longrightarrow> list_all p w" for w
    by (induction w rule: lstar.induct) auto
  moreover have "list_all p w \<Longrightarrow> w \<in> lstar {[c] | c. p c}" for w
    using lstar_app [of "[_]" "{[c] | c. p c}"] by (induction w) auto
  ultimately show ?thesis by auto
qed

lemma lang_rx_any [simp]: "lang rx_any = UNIV"
  using lstar_Cls [of "\<lambda>_. True"] by (simp add: rx_any_def list.pred_True)

lemma lang_plus_Cls [simp]: "lang (rx_plus (Cls p)) = {w. w \<noteq> [] \<and> list_all p w}"
proof -
  have "w \<in> lang (rx_plus (Cls p)) \<longleftrightarrow> w \<noteq> [] \<and> list_all p w" for w
    by (cases w) (auto simp: rx_plus_def)
  then show ?thesis by blast
qed

lemma lang_rep_Cls [simp]: "lang (rx_rep n (Cls p)) = {w. length w = n \<and> list_all p w}"
proof (induction n)
  case (Suc n)
  have "w \<in> lang (rx_rep (Suc n) (Cls p)) \<longleftrightarrow> length w = Suc n \<and> list_all p w" for w
    by (cases w) (auto simp: Suc.IH)
  then show ?case by blast
qed auto

lemma lang_ahead_dot:
  "lang (lookahead (Conc (Star (Cls js_dot)) (Cls p))) = {w. \<exists>u c v. w = u @ c # v \<and> list_all js_dot u \<and> p c}"
proof -
  have "w \<in> lang (lookahead (Conc (Star (Cls js_dot)) (Cls p))) \<longleftrightarrow> (\<exists>u c v. w = u @ c # v \<and> list_all js_dot u \<and> p c)" for w
  proof
    assume "\<exists>u c v. w = u @ c # v \<and> list_all js_dot u \<and> p c"
    then obtain u c v where "w = (u @ [c]) @ v" "list_all js_dot u" "p c" by auto
    then show "w \<in> lang (lookahead (Conc (Star (Cls js_dot)) (Cls p)))"
      by (auto simp: lookahead_def simp del: append_assoc)
  qed (clarsimp simp: lookahead_def, blast)
  then show ?thesis by blast
qed

lemma email_lang:
  "w \<in> lang email_rx \<longleftrightarrow>
   (\<exists>a b c. w = a @ CHR ''@'' # b @ CHR ''.'' # c \<and> a \<noteq> [] \<and> b \<noteq> [] \<and> c \<noteq> [] \<and>
      list_all email_char a \<and> list_all email_char b \<and> list_all email_char c)"
  by (auto simp: email_rx_def) blast

lemma email_char_iff: "list_all email_char w \<longleftrightarrow> CHR ''@'' \<notin> set w \<and> \<not> list_ex js_space w"
  by (auto simp: email_char_def list_all_iff list_ex_iff)

lemma dot_inside:
  "CHR ''.'' \<in> set (butlast (tl d)) \<longleftrightarrow> (\<exists>b c. d = b @ CHR ''.'' # c \<and> b \<noteq> [] \<and> c \<noteq> [])"
proof
  assume "CHR ''.'' \<in> set (butlast (tl d))"
  then obtain x y where d: "d = x # y" and y: "CHR ''.'' \<in> set (butlast y)" by (cases d) auto
  from y obtain p q where bq: "butlast y = p @ CHR ''.'' # q" by (meson split_list)
  have "y \<noteq> []" using y by auto
  then have "y = p @ CHR ''.'' # (q @ [last y])" using bq by (metis append_butlast_last_id append.assoc append_Cons)
  with d show "\<exists>b c. d = b @ CHR ''.'' # c \<and> b \<noteq> [] \<and> c \<noteq> []"
    by (intro exI [of _ "x # p"] exI [of _ "q @ [last y]"]) simp
next
  assume "\<exists>b c. d = b @ CHR ''.'' # c \<and> b \<noteq> [] \<and> c \<noteq> []"
  then obtain b c where "d = b @ CHR ''.'' # c" "b \<noteq> []" "c \<noteq> []" by blast
  then show "CHR ''.'' \<in> set (butlast (tl d))"
    by (cases b) (auto simp: butlast_append)
qed

lemma js_space_punct [simp]: "\<not> js_space CHR ''@''" "\<not> js_space CHR ''.''"
  by (simp_all add: js_space_def)

section \<open>Properties of the validators\<close>

text \<open>
  C37. \<open>validateEmail\<close> accepts exactly the strings with one \<open>@\<close>, a non-empty part before
  it, no white space, and a dot in the part after it that is neither its first nor its last
  character.
\<close>

theorem validateEmail_iff:
  "validateEmail e \<longleftrightarrow>
   (\<exists>a d. e = a @ CHR ''@'' # d \<and> a \<noteq> [] \<and> CHR ''@'' \<notin> set a \<and> CHR ''@'' \<notin> set d \<and>
      \<not> list_ex js_space e \<and> CHR ''.'' \<in> set (butlast (tl d)))"
  (is "_ \<longleftrightarrow> ?R")
proof
  assume "validateEmail e"
  then obtain a b c where e: "e = a @ CHR ''@'' # b @ CHR ''.'' # c" and ne: "a \<noteq> []" "b \<noteq> []" "c \<noteq> []"
    and ch: "list_all email_char a" "list_all email_char b" "list_all email_char c"
    by (auto simp: validateEmail_def rx_test_lang email_lang)
  have "CHR ''.'' \<in> set (butlast (tl (b @ CHR ''.'' # c)))" using ne by (subst dot_inside) blast
  with e ne ch show ?R unfolding email_char_iff by (intro exI [of _ a] exI [of _ "b @ CHR ''.'' # c"]) auto
next
  assume ?R
  then obtain a d where e: "e = a @ CHR ''@'' # d" and a: "a \<noteq> []" "CHR ''@'' \<notin> set a" and d: "CHR ''@'' \<notin> set d"
    and sp: "\<not> list_ex js_space e" and dot: "CHR ''.'' \<in> set (butlast (tl d))" by blast
  from dot obtain b c where bc: "d = b @ CHR ''.'' # c" "b \<noteq> []" "c \<noteq> []" by (auto simp: dot_inside)
  have "list_all email_char a \<and> list_all email_char b \<and> list_all email_char c"
    using a d sp unfolding e bc email_char_iff by auto
  with e bc a show "validateEmail e"
    by (auto simp: validateEmail_def rx_test_lang email_lang)
qed

lemma pw_char_dot: "pw_char c \<Longrightarrow> js_dot c"
  by (auto simp: pw_char_def js_dot_def is_lower_def is_upper_def is_digit_def pw_special_def less_eq_char_def)

lemma ahead_dot_iff: "list_all js_dot w \<Longrightarrow> w \<in> lang (lookahead (Conc (Star (Cls js_dot)) (Cls p))) \<longleftrightarrow> list_ex p w"
proof -
  assume w: "list_all js_dot w"
  have "list_ex p w \<Longrightarrow> \<exists>u c v. w = u @ c # v \<and> list_all js_dot u \<and> p c"
    using w by (auto simp: list_ex_iff dest!: split_list) blast
  then show ?thesis by (auto simp: lang_ahead_dot)
qed

lemma pw_main_lang:
  "w \<in> lang (Conc (rx_rep 8 (Cls pw_char)) (Star (Cls pw_char))) \<longleftrightarrow> 8 \<le> length w \<and> list_all pw_char w"
proof
  assume "8 \<le> length w \<and> list_all pw_char w"
  then have "w = take 8 w @ drop 8 w" "take 8 w \<in> lang (rx_rep 8 (Cls pw_char))" "drop 8 w \<in> lang (Star (Cls pw_char))"
    by (auto simp: list_all_iff dest: in_set_takeD in_set_dropD)
  then show "w \<in> lang (Conc (rx_rep 8 (Cls pw_char)) (Star (Cls pw_char)))"
    by (simp only: lang.simps(5)) blast
qed auto

text \<open>
  C38. \<open>validatePassword\<close> accepts exactly the strings of at least 8 characters, all
  letters, digits or one of \<open>@$!%*?&\<close>, with at least one lower-case letter, one
  upper-case letter, one digit and one of those special characters.
\<close>

theorem validatePassword_iff:
  "validatePassword p \<longleftrightarrow>
   8 \<le> length p \<and> list_all pw_char p \<and> list_ex is_lower p \<and> list_ex is_upper p \<and> list_ex is_digit p \<and>
   list_ex pw_special p"
proof (cases "list_all pw_char p")
  case True
  then have "list_all js_dot p" by (auto simp: list_all_iff pw_char_dot)
  then show ?thesis
    by (simp add: validatePassword_def rx_test_lang password_rx_def ahead_dot_iff pw_main_lang del: lang.simps(5)) auto
next
  case False
  then show ?thesis
    by (simp add: validatePassword_def rx_test_lang password_rx_def pw_main_lang del: lang.simps(5))
qed

lemma js_trim_split:
  "s = takeWhile js_space s @ js_trim s @ rev (takeWhile js_space (rev (dropWhile js_space s)))"
proof -
  let ?d = "dropWhile js_space s"
  have "?d = rev (dropWhile js_space (rev ?d)) @ rev (takeWhile js_space (rev ?d))"
    by (metis rev_append rev_rev_ident takeWhile_dropWhile_id)
  then show ?thesis by (metis js_trim_def takeWhile_dropWhile_id)
qed

lemma js_trim_space: "c \<in> set s \<Longrightarrow> \<not> js_space c \<Longrightarrow> c \<in> set (js_trim s)"
proof -
  assume c: "c \<in> set s" "\<not> js_space c"
  have "c \<notin> set (takeWhile js_space s)" "c \<notin> set (rev (takeWhile js_space (rev (dropWhile js_space s))))"
    using c(2) by (auto dest: set_takeWhileD)
  then show ?thesis using c(1) js_trim_split [of s] by (metis Un_iff set_append)
qed

text \<open>
  C39. \<open>sanitizeInput\<close> leaves no \<open><\<close> or \<open>>\<close>, returns a subsequence of its
  input, and keeps every character that is neither an angle bracket nor white space.
\<close>

theorem sanitizeInput_keeps:
  "CHR ''<'' \<notin> set (sanitizeInput s) \<and> CHR ''>'' \<notin> set (sanitizeInput s) \<and> subseq (sanitizeInput s) s \<and>
   (\<forall>c \<in> set s. c \<noteq> CHR ''<'' \<and> c \<noteq> CHR ''>'' \<and> \<not> js_space c \<longrightarrow> c \<in> set (sanitizeInput s))"
proof -
  have "sublist (js_trim s) s" using js_trim_split [of s] by (metis sublist_appendI)
  then have "subseq (sanitizeInput s) s"
    unfolding sanitizeInput_def by (meson subseq_filter_left subseq_order.trans sublist_imp_subseq)
  then show ?thesis by (auto simp: sanitizeInput_def js_trim_space)
qed

theorem sanitizeInput_keeps_witness:
  "sanitizeInput '' <b> x '' = ''b x'' \<and> subseq ''b x'' '' <b> x ''"
  using sanitizeInput_keeps [of "'' <b> x ''"] by (simp add: sanitizeInput_def js_trim_def js_space_def)

lemma sanitizeInput_not_idempotent: "sanitizeInput ''a <'' = ''a '' \<and> sanitizeInput ''a '' = ''a''"
  by (simp add: sanitizeInput_def js_trim_def js_space_def)

theorem validateName_iff: "validateName n \<longleftrightarrow> 2 \<le> length n \<and> length n \<le> 50 \<and> list_all name_char n"
  by (auto simp: validateName_def rx_test_lang)

end
