(* ===== verification/Startup.thy ===== *)
theory Startup
  imports Validation
begin

text \<open>
  Process start-up: \<open>server.ts\<close>, \<open>loaders/mongoose.ts\<close> and \<open>utils/logger.ts\<close>. The
  environment is \<open>process.env\<close> after \<open>dotenv/config\<close> has loaded \<open>.env\<close>. What the
  process does is a list of effects: console output, the connection attempt, listening,
  and \<open>process.exit\<close>. The outcome of \<open>mongoose.connect\<close> is a parameter
  \<open>connect\<close> of the URI and the database name. Strings are the UTF-8 bytes Node writes.
\<close>

section \<open>Effects and the logger\<close>

text \<open>
  \<open>StderrErr m\<close> is \<open>console.error(m, err)\<close>: the message, then the rendering of an
  error object (\<open>util.inspect\<close>), which the model does not spell out. \<open>BindFailed p\<close>
  ends a run whose listening socket cannot be bound: the error is emitted asynchronously,
  and what follows depends on the Express version, which the repository does not pin.
\<close>

datatype effect =
    Stdout string
  | Stderr string
  | StderrErr string
  | Connect string string
  | Listen int
  | BindFailed int
  | Exit nat

text \<open>The emoji the messages start with, as UTF-8 bytes.\<close>

definition info_mark :: string where
  "info_mark = [CHR 0xE2, CHR 0x84, CHR 0xB9, CHR 0xEF, CHR 0xB8, CHR 0x8F]"

definition warn_mark :: string where
  "warn_mark = [CHR 0xE2, CHR 0x9A, CHR 0xA0, CHR 0xEF, CHR 0xB8, CHR 0x8F]"

definition cross_mark :: string where
  "cross_mark = [CHR 0xE2, CHR 0x9D, CHR 0x8C]"

definition check_mark :: string where
  "check_mark = [CHR 0xE2, CHR 0x9C, CHR 0x85]"

text \<open>\<open>LogData\<close>, line 1: a message with an error object, or a plain string.\<close>

datatype log_data = LogStr string | LogObj string

text \<open>\<open>logger\<close>, lines 3--13 (\<open>console.warn\<close> writes to standard error).\<close>

definition logger_info :: "string \<Rightarrow> effect" where
  "logger_info msg = Stdout (info_mark @ ''  '' @ msg)"

definition logger_warn :: "string \<Rightarrow> effect" where
  "logger_warn msg = Stderr (warn_mark @ ''  '' @ msg)"

fun logger_error :: "log_data \<Rightarrow> effect" where
  "logger_error (LogStr s) = Stderr (cross_mark @ '' '' @ s)"
| "logger_error (LogObj m) = StderrErr (cross_mark @ '' '' @ m)"

section \<open>The environment\<close>

type_synonym env = "string \<Rightarrow> string option"

text \<open>\<open>process.env.K\<close>: a string, or \<open>undefined\<close>.\<close>

definition env_val :: "env \<Rightarrow> string \<Rightarrow> jval" where
  "env_val env k = (case env k of Some v \<Rightarrow> JStr v | None \<Rightarrow> JUndef)"

text \<open>\<open>loaders/mongoose.ts\<close>, lines 4--5: an unset or empty variable gives the default.\<close>

definition mongo_uri :: "env \<Rightarrow> string" where
  "mongo_uri env = js_to_string (js_or (env_val env ''MONGO_URI'') (JStr ''mongodb://127.0.0.1:27017''))"

definition mongo_db :: "env \<Rightarrow> string" where
  "mongo_db env = js_to_string (js_or (env_val env ''MONGO_DB_NAME'') (JStr ''expense_manager''))"

section \<open>\<open>Number(process.env.PORT)\<close>\<close>

text \<open>
  \<open>StringToNumber\<close> accepts, after trimming, the \<open>StringNumericLiteral\<close> grammar
  (ECMA-262, 7.1.4.1): an optionally signed decimal literal (\<open>Infinity\<close>, digits with an
  optional fraction and exponent) or an unsigned binary, octal or hexadecimal integer.
  Anything else is \<open>NaN\<close>.
\<close>

primrec rx_lit :: "string \<Rightarrow> rx" where
  "rx_lit [] = Eps"
| "rx_lit (c # cs) = Conc (Cls (\<lambda>x. x = c)) (rx_lit cs)"

definition rx_opt :: "rx \<Rightarrow> rx" where
  "rx_opt r = Alt Eps r"

definition digits_rx :: rx where
  "digits_rx = rx_plus (Cls is_digit)"

definition sign_rx :: rx where
  "sign_rx = rx_opt (Cls (\<lambda>c. c = CHR ''+'' \<or> c = CHR ''-''))"

definition exponent_rx :: rx where
  "exponent_rx = Conc (Cls (\<lambda>c. c = CHR ''e'' \<or> c = CHR ''E'')) (Conc sign_rx digits_rx)"

definition unsigned_decimal_rx :: rx where
  "unsigned_decimal_rx =
     Alt (rx_lit ''Infinity'')
      (Alt (Conc digits_rx (Conc (rx_lit ''.'') (Conc (rx_opt digits_rx) (rx_opt exponent_rx))))
        (Alt (Conc (rx_lit ''.'') (Conc digits_rx (rx_opt exponent_rx)))
          (Conc digits_rx (rx_opt exponent_rx))))"

definition non_decimal_rx :: rx where
  "non_decimal_rx =
     Alt (Conc (rx_lit ''0'') (Conc (Cls (\<lambda>c. c = CHR ''b'' \<or> c = CHR ''B'')) (rx_plus (Cls (\<lambda>c. c \<in> set ''01'')))))
      (Alt (Conc (rx_lit ''0'') (Conc (Cls (\<lambda>c. c = CHR ''o'' \<or> c = CHR ''O'')) (rx_plus (Cls (\<lambda>c. c \<in> set ''01234567'')))))
        (Conc (rx_lit ''0'') (Conc (Cls (\<lambda>c. c = CHR ''x'' \<or> c = CHR ''X''))
          (rx_plus (Cls (\<lambda>c. is_digit c \<or> c \<in> set ''abcdefABCDEF''))))))"

definition str_numeric_rx :: rx where
  "str_numeric_rx = Alt (Conc sign_rx unsigned_decimal_rx) non_decimal_rx"

text \<open>
  \<open>Number(v)\<close> of an environment value: \<open>Some None\<close> is \<open>NaN\<close>, \<open>Some (Some n)\<close>
  the integer \<open>n\<close>; \<open>None\<close> is a numeric literal the model does not evaluate (a
  fraction, an exponent, \<open>Infinity\<close>, a non-decimal integer), as in \<open>Json\<close>.
\<close>

definition js_number :: "jval \<Rightarrow> int option option" where
  "js_number v =
     (case v of
        JUndef \<Rightarrow> Some None
      | JStr s \<Rightarrow>
          if js_trim s = [] then Some (Some 0)
          else if \<not> rx_test str_numeric_rx (js_trim s) then Some None
          else map_option Some (js_number_of_string s)
      | _ \<Rightarrow> None)"

text \<open>\<open>server.ts\<close>, line 6: \<open>NaN\<close> and \<open>0\<close> are falsy, so both give 8080.\<close>

definition resolve_port :: "env \<Rightarrow> int option" where
  "resolve_port env =
     (case js_number (env_val env ''PORT'') of
        None \<Rightarrow> None
      | Some None \<Rightarrow> Some 8080
      | Some (Some n) \<Rightarrow> Some (if n = 0 then 8080 else n))"

text \<open>
  \<open>app.listen(port)\<close> validates the port synchronously (Node's \<open>validatePort\<close>): an
  integer from 0 to 65535, or a \<open>RangeError\<close> is thrown.
\<close>

definition port_ok :: "int \<Rightarrow> bool" where
  "port_ok p \<longleftrightarrow> 0 \<le> p \<and> p \<le> 65535"

section \<open>Start-up\<close>

text \<open>
  \<open>connectDB\<close>, \<open>loaders/mongoose.ts\<close> lines 3--16: the effects, and whether the
  process goes on (a failed connection logs and calls \<open>process.exit(1)\<close> itself).
\<close>

definition connectDB :: "(string \<Rightarrow> string \<Rightarrow> bool) \<Rightarrow> env \<Rightarrow> effect list \<times> bool" where
  "connectDB connect env =
     (let uri = mongo_uri env; dbName = mongo_db env in
      if connect uri dbName
      then ([Connect uri dbName, Stdout (check_mark @ '' MongoDB connected'')], True)
      else ([Connect uri dbName, StderrErr (cross_mark @ '' MongoDB connection failed:''), Exit 1], False))"

text \<open>
  \<open>startServer\<close>, \<open>server.ts\<close> lines 8--20, with the port of line 6 (\<open>None\<close> when
  it is outside the model). \<open>bind p\<close> says whether the socket can be bound. The
  \<open>catch\<close> of lines 14--17 receives the \<open>RangeError\<close> of an invalid port.
\<close>

definition startServer :: "(string \<Rightarrow> string \<Rightarrow> bool) \<Rightarrow> (int \<Rightarrow> bool) \<Rightarrow> env \<Rightarrow> effect list option" where
  "startServer connect bind env =
     (case resolve_port env of
        None \<Rightarrow> None
      | Some port \<Rightarrow>
          Some (case connectDB connect env of
            (fx, False) \<Rightarrow> fx
          | (fx, True) \<Rightarrow>
              fx @ (if \<not> port_ok port
                    then [logger_error (LogObj ''Server failed to start''), Exit 1]
                    else if \<not> bind port then [BindFailed port]
                    else [Listen port, logger_info (''API listening on http://0.0.0.0:'' @ show_int port)])))"


section \<open>Lemmas\<close>

lemma resolve_port_default:
  assumes "env ''PORT'' = None \<or> (\<exists>v. env ''PORT'' = Some v \<and>
             (js_trim v = [] \<or> \<not> rx_test str_numeric_rx (js_trim v) \<or> js_number_of_string v = Some 0))"
  shows "resolve_port env = Some 8080"
  using assms by (auto simp: resolve_port_def js_number_def env_val_def)

section \<open>Properties of start-up\<close>



end
