(* ===== verification/Spec2Isabelle.thy ===== *)
theory Spec2Isabelle
  imports Sync_Concurrent Expense_Monthly Expense_Crud User_Auth App Validation Startup
begin

text \<open>
  \<^bold>\<open>A verification development of the expense-tracking API (\<open>src/src\<close>).\<close>

  \<^medskip>\<^bold>\<open>The program.\<close> \<open>server.ts\<close> connects to MongoDB
  (\<open>loaders/mongoose.ts\<close>) and starts the Express application of \<open>app.ts\<close>, which
  mounts \<open>routes/user.routes.ts\<close> on \<open>/api/v1/users\<close> and
  \<open>routes/expese.routes.ts\<close> on \<open>/api/v1/expenses\<close>. The expense routes pass
  through an authentication middleware that supplies \<open>req.user.id\<close>. The controllers
  (\<open>controllers/expense.controller.ts\<close>, \<open>controllers/user.controller.ts\<close>) read the
  JSON body, call the Mongoose models (\<open>models/Expense.ts\<close>, \<open>models/User.ts\<close>) and
  answer with a status and a JSON body. The parts with real logic are \<open>syncExpenses\<close>,
  which reconciles a batch of SMS-derived transactions with the stored expenses by
  timestamp, and \<open>getMonthlyExpenses\<close>, an aggregation that totals debits per month.

  \<^medskip>\<^bold>\<open>The theories\<close>, in import order.
  \<^item> \<open>Prelude\<close>: the model's basic types (\<open>oid\<close>, \<open>millis\<close>, \<open>date_parser\<close>),
    rule collections, \<open>all_right\<close> (the first error of a list of results) and
    shared lemmas on lists, filters, multisets and options.
  \<^item> \<open>Json\<close>: request bodies as \<open>jval\<close> and the JavaScript operations on them
    (\<open>js_prop\<close>, \<open>truthy\<close>, \<open>js_or\<close>, \<open>js_to_string\<close>, \<open>Number(s)\<close> for integer
    literals, \<open>new Date(v)\<close> with TimeClip).
  \<^item> \<open>Calendar\<close>: the UTC proleptic Gregorian calendar of \<open>$year\<close>/\<open>$month\<close>,
    walking at most 400 years and 12 months after an era reduction.
  \<^item> \<open>Store\<close>: Mongoose casting and \<open>required\<close> validators, document construction,
    the collections (\<open>db\<close>), the unique indexes as \<open>db_inv\<close>, schema conformance
    \<open>docs_wf\<close>, \<open>create\<close>, ordered \<open>insertMany\<close> and the \<open>$in\<close> query.
  \<^item> \<open>ObjectId\<close>: \<open>castObjectId\<close> (24 hexadecimal digits) and printing, proved
    inverse. \<open>Store_Docs\<close>: \<open>find\<close> sorted by date, \<open>findOne\<close>,
    \<open>findOneAndDelete\<close> and \<open>findOneAndUpdate\<close> (castUpdate with the
    \<open>$set\<close> and \<open>$unset\<close> operators, \<open>runValidators\<close> on set and unset paths,
    the set/unset path conflict, timestamps, immutable \<open>_id\<close>).
  \<^item> \<open>Expense_Sync\<close>: \<open>syncExpenses\<close> (lines 75--139), one definition per step,
    composed as the code composes them. Claims C1--C3, C6, C7, C10.
  \<^item> \<open>Sync_Concurrent\<close>: concurrent sync requests as processes that interleave at the
    handler's \<open>await\<close> points (\<open>sync_step\<close>, an inductive step relation on the
    database and the list of processes). Claims C21--C26: the invariant in every
    interleaving, refinement of the atomic handler when run alone, termination (a
    well-founded step relation), absence of deadlock, the lost race that answers 500, and
    that n identical requests store one row.
  \<^item> \<open>Expense_Monthly\<close>: the \<open>$match\<close>/\<open>$group\<close>/\<open>$sort\<close> pipeline, the labels,
    and an abstract specification \<open>monthly_spec\<close> it refines. Claims C4, C5, C8.
  \<^item> \<open>Expense_Crud\<close>: \<open>createExpense\<close>, \<open>getUserExpenses\<close>, \<open>getExpenseById\<close>,
    \<open>updateExpense\<close>, \<open>deleteExpense\<close>. Claims C9, C12 (the \<open>$set\<close> and
    \<open>$unset\<close> operators in an update body), C13--C20.
  \<^item> \<open>User_Auth\<close>: \<open>createUser\<close> and \<open>loginUser\<close>, with \<open>bcrypt.compare\<close> and
    \<open>jwt.sign\<close> as parameters. Claims C27--C30.
  \<^item> \<open>Routes\<close>: the route tables in registration order and Express's first-match
    dispatch under the mounts of \<open>app.ts\<close>. Claim C32: it implements the spec's
    interface table.
  \<^item> \<open>App\<close>: one request through dispatch, the middleware and the controller
    (\<open>app_handle\<close>). Claims C11 (schema conformance of every stored document, kept by
    every request), C33--C36.
  \<^item> \<open>Validation\<close>: \<open>utils/validation.ts\<close>; its regular expressions as terms of
    \<open>rx\<close>, \<open>RegExp.test\<close> as a derivative matcher proved to decide the language.
    Claims C37--C39.
  \<^item> \<open>Startup\<close>: \<open>server.ts\<close>, \<open>loaders/mongoose.ts\<close>, \<open>utils/logger.ts\<close> as a
    list of effects (output, connection, listening, exit). Claim C31.
  \<^item> This theory: C40, a property across the user handler and the validators.

  \<^medskip>\<^bold>\<open>State and effects.\<close> A handler is a function from the caller's id, the
  request body and the database to the new database and a \<open>response\<close>. Every
  \<open>throw\<close> and rejected promise is a \<open>None\<close> or an \<open>Inl\<close>, and the \<open>catch\<close> is
  the branch that turns it into the reply. \<open>ObjectId\<close>s come from a counter drawn at
  document construction. Start-up is a list of \<open>effect\<close>s.

  \<^medskip>\<^bold>\<open>Modelling choices and bounds.\<close> JavaScript numbers are integers: amounts
  are summed exactly where \<open>$sum\<close> adds doubles, and numeric literals other than
  integers are outside the model. Strings are lists of bytes (UTF-8). \<open>Date.parse\<close>,
  \<open>bcrypt.compare\<close>, \<open>jwt.sign\<close>, token verification, \<open>mongoose.connect\<close> and
  socket binding are parameters; the theorems hold for all of them. The calendar walks
  are bounded by an era (400 years) and a year (12 months); the concurrent model
  terminates by a measure on the work left, so no fuel is needed.

  \<^medskip>\<^bold>\<open>Findings\<close> (listed in the manifest). A batch repeating a new timestamp is
  answered 500 although its first copy is stored (C3). One unparseable timestamp fails the
  whole batch (C7). \<open>createExpense\<close> never succeeds: its document has no \<open>date\<close>
  (C13). An update may reassign an expense to another user (C17). A lost race between two
  syncs is a generic 500, not a conflict (C25). An update body may \<open>$unset\<close> the
  optional fields of an expense (C12). \<open>GET /expenses/sync\<close> is answered 500
  (C36). Sign-up stores any email, valid or not (C40). \<open>sanitizeInput\<close> can leave
  trailing white space.

  \<^medskip>\<^bold>\<open>Not modelled.\<close> The test controller and the error middleware are not in
  the repository; the test route is dispatched but not run. Update operators
  other than \<open>$set\<close> and \<open>$unset\<close> (\<open>$inc\<close>, \<open>$push\<close>, ...), array
  update documents, and query operators in a body (\<open>$ne\<close>, ...) are outside the
  model (\<open>None\<close>): each has its own casting and validation rules in Mongoose, and the
  spec says nothing of them. The
  \<open>console.error\<close> calls of the controllers' \<open>catch\<close> blocks, \<open>cors\<close>,
  \<open>helmet\<close> and \<open>morgan\<close> do not change any reply and are left out. The rendering of
  error objects in the logs and the handling of a bind failure, which depends on the
  unpinned Express version, are not spelled out.
\<close>

section \<open>Properties across components\<close>

text \<open>
  C40. \<open>createUser\<close> never calls the validators of \<open>utils/validation.ts\<close>: on a
  database satisfying \<open>db_inv\<close>, every non-empty name, email and password hash whose
  email is not registered is stored and answered 201, whether or not \<open>validateEmail\<close>
  accepts the email (the witness stores \<open>ann\<close>, which it rejects).
\<close>

theorem createUser_accepts_invalid_email:
  assumes "n \<noteq> []" and "e \<noteq> []" and "h \<noteq> []" and "e \<notin> email ` set (users s)" and "db_inv s"
  shows "\<exists>usr. createUser now (JObj [(''name'', JStr n), (''email'', JStr e), (''passwordHash'', JStr h)]) s =
           (s\<lparr>users := users s @ [usr], next_oid := Suc (next_oid s)\<rparr>, Body 201 usr) \<and> email usr = e"
proof -
  let ?usr = "\<lparr>uid = next_oid s, name = n, email = e, passwordHash = h, user_createdAt = now, user_updatedAt = now\<rparr>"
  have nu: "new_user (next_oid s) now (JStr n) (JStr e) (JStr h) = Inr ?usr"
    using assms(1-3) by (intro new_user_valid) (simp_all add: user_errors_def path_check_def nonempty_str_def)
  have "next_oid s \<notin> uid ` set (users s)" using assms(5) by (auto simp: db_inv_def)
  then have "createUser now (JObj [(''name'', JStr n), (''email'', JStr e), (''passwordHash'', JStr h)]) s =
           (s\<lparr>users := users s @ [?usr], next_oid := Suc (next_oid s)\<rparr>, Body 201 ?usr)"
    using assms(4) nu by (simp add: createUser_def user_create_def alloc_ids_def insert_user_def image_iff)
  then show ?thesis by auto
qed

theorem createUser_accepts_invalid_email_witness:
  "\<not> validateEmail ''ann'' \<and>
   createUser 0 (JObj [(''name'', JStr ''Ann''), (''email'', JStr ''ann''), (''passwordHash'', JStr ''h'')]) empty_db =
   (empty_db\<lparr>users := [\<lparr>uid = 0, name = ''Ann'', email = ''ann'', passwordHash = ''h'', user_createdAt = 0, user_updatedAt = 0\<rparr>],
      next_oid := 1\<rparr>, Body 201 \<lparr>uid = 0, name = ''Ann'', email = ''ann'', passwordHash = ''h'', user_createdAt = 0, user_updatedAt = 0\<rparr>)"
proof -
  have "db_inv empty_db" by (simp add: db_inv_def empty_db_def)
  from createUser_accepts_invalid_email [of "''Ann''" "''ann''" "''h''" empty_db 0, OF _ _ _ _ this]
  obtain usr where "createUser 0 (JObj [(''name'', JStr ''Ann''), (''email'', JStr ''ann''), (''passwordHash'', JStr ''h'')]) empty_db =
      (empty_db\<lparr>users := [usr], next_oid := 1\<rparr>, Body 201 usr)" by (auto simp: empty_db_def)
  moreover have "\<not> validateEmail ''ann''" by (simp add: validateEmail_def rx_test_def email_rx_def rx_plus_def email_char_def)
  ultimately show ?thesis by (simp add: createUser_def user_create_def alloc_ids_def empty_db_def new_user_def user_errors_def path_check_def nonempty_str_def insert_user_def)
qed

end
